theory Spec2Isabelle
  imports Complex_Main
begin

section \<open>Values of the Python program\<close>

text \<open>
  The module \<^verbatim>\<open>ot/da.py\<close> computes with numpy arrays of floats. An array of one
  dimension is a list, an array of two dimensions is the list of its rows (all of the
  same length, as numpy arrays are; an array without rows is the empty list, whatever
  its number of columns). Floats are idealised as real numbers: rounding
  and overflow are left out. The two places where the module's own arithmetic leaves
  the finite range on finite operands (a power with a negative exponent, a division)
  produce an \<open>npfloat\<close>, which has the three non-finite values of a float.
\<close>

type_synonym vec = "real list"
type_synonym mat = "real list list"

datatype npfloat = Fin real | PInf | NInf | NaN

type_synonym fmat = "npfloat list list"

text \<open>
  Exceptions. \<open>ArrayError\<close> stands for the \<^verbatim>\<open>IndexError\<close> or \<^verbatim>\<open>ValueError\<close> that numpy
  raises for an index out of bounds or for operands whose shapes cannot be broadcast
  together; \<open>LinAlgError\<close> is what \<^verbatim>\<open>np.linalg.solve\<close> raises.
\<close>

datatype pyerr = UnboundLocalError | ZeroDivisionError | ArrayError | LinAlgError

text \<open>What a solver returns: the coupling alone, or the coupling with a log.\<close>

datatype 'log retval = Plan mat | Plan_Log mat 'log

definition nrows :: "'a list list \<Rightarrow> nat" where
  "nrows A = length A"

definition ncols :: "'a list list \<Rightarrow> nat" where
  "ncols A = (case A of [] \<Rightarrow> 0 | r # _ \<Rightarrow> length r)"

definition shape :: "'a list list \<Rightarrow> nat \<times> nat" where
  "shape A = (nrows A, ncols A)"

definition rect :: "'a list list \<Rightarrow> bool" where
  "rect A = (\<forall>r \<in> set A. length r = ncols A)"

subsection \<open>Float arithmetic on possibly non-finite values\<close>

fun fadd :: "npfloat \<Rightarrow> npfloat \<Rightarrow> npfloat" where
  "fadd (Fin x) (Fin y) = Fin (x + y)"
| "fadd NaN _ = NaN"
| "fadd _ NaN = NaN"
| "fadd PInf NInf = NaN"
| "fadd NInf PInf = NaN"
| "fadd PInf _ = PInf"
| "fadd _ PInf = PInf"
| "fadd NInf _ = NInf"
| "fadd _ NInf = NInf"

definition finf :: "bool \<Rightarrow> npfloat" where
  "finf positive = (if positive then PInf else NInf)"

fun fmul :: "npfloat \<Rightarrow> npfloat \<Rightarrow> npfloat" where
  "fmul (Fin x) (Fin y) = Fin (x * y)"
| "fmul NaN _ = NaN"
| "fmul _ NaN = NaN"
| "fmul (Fin x) PInf = (if x = 0 then NaN else finf (0 < x))"
| "fmul (Fin x) NInf = (if x = 0 then NaN else finf (x < 0))"
| "fmul PInf (Fin y) = (if y = 0 then NaN else finf (0 < y))"
| "fmul NInf (Fin y) = (if y = 0 then NaN else finf (y < 0))"
| "fmul PInf PInf = PInf"
| "fmul NInf NInf = PInf"
| "fmul PInf NInf = NInf"
| "fmul NInf PInf = NInf"

text \<open>
  \<^verbatim>\<open>x ** y\<close> on floats, for a finite base and a finite exponent: a zero base with a
  negative exponent gives \<^verbatim>\<open>inf\<close>, a negative base with a fractional exponent gives
  \<^verbatim>\<open>nan\<close>.
\<close>

definition np_power :: "real \<Rightarrow> real \<Rightarrow> npfloat" where
  "np_power x y =
     (if y = 0 then Fin 1
      else if 0 < x then Fin (x powr y)
      else if x = 0 then (if 0 < y then Fin 0 else PInf)
      else if y \<in> \<int> then Fin (if even \<lfloor>y\<rfloor> then \<bar>x\<bar> powr y else - (\<bar>x\<bar> powr y))
      else NaN)"

text \<open>\<^verbatim>\<open>x / y\<close> on numpy floats: a zero divisor gives \<^verbatim>\<open>inf\<close>, \<^verbatim>\<open>-inf\<close> or \<^verbatim>\<open>nan\<close>, no exception.\<close>

definition np_divide :: "real \<Rightarrow> real \<Rightarrow> npfloat" where
  "np_divide x y =
     (if y \<noteq> 0 then Fin (x / y)
      else if 0 < x then PInf else if x < 0 then NInf else NaN)"

text \<open>\<^verbatim>\<open>x < t\<close> for a float \<open>x\<close> and a finite \<open>t\<close>: false for \<^verbatim>\<open>nan\<close> and \<^verbatim>\<open>inf\<close>.\<close>

fun np_less :: "npfloat \<Rightarrow> real \<Rightarrow> bool" where
  "np_less (Fin x) t = (x < t)"
| "np_less NInf t = True"
| "np_less PInf t = False"
| "np_less NaN t = False"

fun is_finite :: "npfloat \<Rightarrow> bool" where
  "is_finite (Fin x) = True"
| "is_finite _ = False"

fun nonneg :: "npfloat \<Rightarrow> bool" where
  "nonneg (Fin x) = (0 \<le> x)"
| "nonneg PInf = True"
| "nonneg _ = False"

subsection \<open>Array operations\<close>

definition np_zeros :: "nat \<times> nat \<Rightarrow> fmat" where
  "np_zeros sh = replicate (fst sh) (replicate (snd sh) (Fin 0))"

definition np_ones :: "nat \<times> nat \<Rightarrow> fmat" where
  "np_ones sh = replicate (fst sh) (replicate (snd sh) (Fin 1))"

text \<open>\<^verbatim>\<open>np.unique\<close>: the distinct values, sorted.\<close>

definition np_unique :: "int list \<Rightarrow> int list" where
  "np_unique labels = sort (remdups labels)"

text \<open>\<^verbatim>\<open>np.where(labels == c)\<close>: the positions holding \<open>c\<close>, ascending.\<close>

definition np_where_eq :: "int list \<Rightarrow> int \<Rightarrow> nat list" where
  "np_where_eq labels c = filter (\<lambda>i. labels ! i = c) [0..<length labels]"

text \<open>\<^verbatim>\<open>M + eta * W\<close>, where \<open>W\<close> was built with the shape of \<open>M\<close>.\<close>

definition add_scaled :: "mat \<Rightarrow> real \<Rightarrow> fmat \<Rightarrow> fmat" where
  "add_scaled M eta W =
     map2 (\<lambda>mr wr. map2 (\<lambda>m w. fadd (Fin m) (fmul (Fin eta) w)) mr wr) M W"

text \<open>\<^verbatim>\<open>np.sum(rows, axis=0)\<close> for rows of length \<open>n\<close>.\<close>

definition np_sum_axis0 :: "nat \<Rightarrow> mat \<Rightarrow> vec" where
  "np_sum_axis0 n rws = map (\<lambda>j. sum_list (map (\<lambda>r. r ! j) rws)) [0..<n]"

text \<open>
  \<^verbatim>\<open>W[idx] = v\<close> for an index array \<open>idx\<close> and a vector \<open>v\<close>: every index must be a row
  of \<open>W\<close>, and \<open>v\<close> must have the length of a row, or length one (it is then
  broadcast along the row).
\<close>

definition assign_rows :: "fmat \<Rightarrow> nat list \<Rightarrow> npfloat list \<Rightarrow> pyerr + fmat" where
  "assign_rows W idx v =
     (if (\<exists>i \<in> set idx. nrows W \<le> i) then Inl ArrayError
      else if length v = ncols W then Inr (fold (\<lambda>i A. A[i := v]) idx W)
      else if length v = 1 then Inr (fold (\<lambda>i A. A[i := replicate (ncols W) (hd v)]) idx W)
      else Inl ArrayError)"

section \<open>The majorize-minimize solver \<^verbatim>\<open>sinkhorn_lpl1_mm\<close>\<close>

text \<open>
  The entropic solver \<^verbatim>\<open>ot.bregman.sinkhorn\<close> is not part of the module: it is a
  parameter, called as \<^verbatim>\<open>sinkhorn(a, b, Mreg, reg, numItermax=.., stopThr=..)\<close>, and
  it may raise.
\<close>

type_synonym sinkhorn_fn = "vec \<Rightarrow> vec \<Rightarrow> fmat \<Rightarrow> real \<Rightarrow> int \<Rightarrow> real \<Rightarrow> pyerr + mat"

text \<open>
  One round of the inner loop over the classes (lines 125 to 127):
  \<^verbatim>\<open>majs = np.sum(transp[idxc], axis=0); majs = p * ((majs + epsilon) ** (p - 1)); W[idxc] = majs\<close>
\<close>

definition class_update :: "real \<Rightarrow> real \<Rightarrow> mat \<Rightarrow> fmat \<Rightarrow> nat list \<Rightarrow> pyerr + fmat" where
  "class_update p epsilon transp_mat W idxc =
     (if (\<exists>i \<in> set idxc. nrows transp_mat \<le> i) then Inl ArrayError
      else
        let majs = np_sum_axis0 (ncols transp_mat) (map (\<lambda>i. transp_mat ! i) idxc);
            majs' = map (\<lambda>m. fmul (Fin p) (np_power (m + epsilon) (p - 1))) majs
        in assign_rows W idxc majs')"

fun update_W :: "real \<Rightarrow> real \<Rightarrow> mat \<Rightarrow> fmat \<Rightarrow> nat list list \<Rightarrow> pyerr + fmat" where
  "update_W p epsilon transp_mat W [] = Inr W"
| "update_W p epsilon transp_mat W (idxc # rest) =
     (case class_update p epsilon transp_mat W idxc of
        Inl e \<Rightarrow> Inl e
      | Inr W' \<Rightarrow> update_W p epsilon transp_mat W' rest)"

text \<open>
  The local variables of the outer loop. \<open>transp\<close> is unbound until the first round
  has run. \<open>ghost_costs\<close> is a ghost variable: the cost matrices handed to Sinkhorn so far,
  in call order.
\<close>

record mm_state =
  var_W :: fmat
  var_transp :: "mat option"
  ghost_costs :: "fmat list"

definition mm_body ::
  "sinkhorn_fn \<Rightarrow> vec \<Rightarrow> vec \<Rightarrow> mat \<Rightarrow> real \<Rightarrow> real \<Rightarrow> int \<Rightarrow> real \<Rightarrow>
   real \<Rightarrow> real \<Rightarrow> nat list list \<Rightarrow> mm_state \<Rightarrow> pyerr + mm_state" where
  "mm_body sinkhorn a b M reg eta numInnerItermax stopInnerThr p epsilon indices_labels s =
     (let Mreg = add_scaled M eta (var_W s) in
      case sinkhorn a b Mreg reg numInnerItermax stopInnerThr of
        Inl e \<Rightarrow> Inl e
      | Inr t \<Rightarrow>
          (case update_W p epsilon t (np_ones (shape M)) indices_labels of
             Inl e \<Rightarrow> Inl e
           | Inr W' \<Rightarrow> Inr \<lparr>var_W = W', var_transp = Some t, ghost_costs = ghost_costs s @ [Mreg]\<rparr>))"

text \<open>\<^verbatim>\<open>for cpt in range(n): body\<close>, for a body that does not read \<open>cpt\<close>.\<close>

fun for_range :: "nat \<Rightarrow> ('s \<Rightarrow> pyerr + 's) \<Rightarrow> 's \<Rightarrow> pyerr + 's" where
  "for_range 0 body s = Inr s"
| "for_range (Suc n) body s =
     (case body s of Inl e \<Rightarrow> Inl e | Inr s' \<Rightarrow> for_range n body s')"

text \<open>The function up to its last line: the state in which \<^verbatim>\<open>return transp\<close> is reached.\<close>

definition mm_run ::
  "sinkhorn_fn \<Rightarrow> vec \<Rightarrow> int list \<Rightarrow> vec \<Rightarrow> mat \<Rightarrow> real \<Rightarrow> real \<Rightarrow> int \<Rightarrow> int \<Rightarrow> real \<Rightarrow>
   pyerr + mm_state" where
  "mm_run sinkhorn a labels_a b M reg eta numItermax numInnerItermax stopInnerThr =
     (let p = 1 / 2;
          epsilon = 1 / 1000;
          classes = np_unique labels_a;
          indices_labels = map (np_where_eq labels_a) classes
      in for_range (nat numItermax)
           (mm_body sinkhorn a b M reg eta numInnerItermax stopInnerThr p epsilon indices_labels)
           \<lparr>var_W = np_zeros (shape M), var_transp = None, ghost_costs = []\<rparr>)"

text \<open>
  \<^verbatim>\<open>sinkhorn_lpl1_mm(a, labels_a, b, M, reg, eta, numItermax, numInnerItermax,
  stopInnerThr, verbose, log)\<close>. The body reads neither \<open>verbose\<close> nor \<open>log\<close> (here \<open>do_log\<close>).
\<close>

definition sinkhorn_lpl1_mm ::
  "sinkhorn_fn \<Rightarrow> vec \<Rightarrow> int list \<Rightarrow> vec \<Rightarrow> mat \<Rightarrow> real \<Rightarrow> real \<Rightarrow> int \<Rightarrow> int \<Rightarrow> real \<Rightarrow>
   bool \<Rightarrow> bool \<Rightarrow> pyerr + 'log retval" where
  "sinkhorn_lpl1_mm sinkhorn a labels_a b M reg eta numItermax numInnerItermax stopInnerThr
       verbose do_log =
     (case mm_run sinkhorn a labels_a b M reg eta numItermax numInnerItermax stopInnerThr of
        Inl e \<Rightarrow> Inl e
      | Inr s \<Rightarrow> (case var_transp s of None \<Rightarrow> Inl UnboundLocalError | Some t \<Rightarrow> Inr (Plan t)))"

subsection \<open>Exceptions in sequence\<close>

text \<open>\<open>pbind m f\<close>: run \<open>m\<close>; if it raised, the exception goes on; else continue with \<open>f\<close>.\<close>

definition pbind :: "pyerr + 'a \<Rightarrow> ('a \<Rightarrow> pyerr + 'b) \<Rightarrow> pyerr + 'b" where
  "pbind m f = (case m of Inl e \<Rightarrow> Inl e | Inr x \<Rightarrow> f x)"

text \<open>\<^verbatim>\<open>for x in xs: body\<close> on a state.\<close>

fun for_each :: "'x list \<Rightarrow> ('x \<Rightarrow> 's \<Rightarrow> pyerr + 's) \<Rightarrow> 's \<Rightarrow> pyerr + 's" where
  "for_each [] body s = Inr s"
| "for_each (x # xs) body s = pbind (body x s) (for_each xs body)"

subsection \<open>Arrays of reals\<close>

definition np_zeros_r :: "nat \<times> nat \<Rightarrow> mat" where
  "np_zeros_r sh = replicate (fst sh) (replicate (snd sh) 0)"

definition np_eye :: "nat \<Rightarrow> mat" where
  "np_eye n = map (\<lambda>i. map (\<lambda>j. if i = j then 1 else 0) [0..<n]) [0..<n]"

definition np_T :: "mat \<Rightarrow> mat" where
  "np_T A = map (\<lambda>j. map (\<lambda>r. r ! j) A) [0..<ncols A]"

definition np_scale :: "real \<Rightarrow> mat \<Rightarrow> mat" where
  "np_scale c A = map (map (\<lambda>x. c * x)) A"

definition np_square :: "mat \<Rightarrow> mat" where
  "np_square A = map (map (\<lambda>x. x\<^sup>2)) A"

definition np_sum :: "mat \<Rightarrow> real" where
  "np_sum A = sum_list (map sum_list A)"

text \<open>\<^verbatim>\<open>A.dot(B)\<close>: the inner dimensions must agree.\<close>

definition np_dot :: "mat \<Rightarrow> mat \<Rightarrow> pyerr + mat" where
  "np_dot A B =
     (if ncols A = nrows B
      then Inr (map (\<lambda>r. map (\<lambda>j. \<Sum>k\<leftarrow>[0..<nrows B]. r ! k * B ! k ! j) [0..<ncols B]) A)
      else Inl ArrayError)"

text \<open>
  Numpy's broadcasting of two arrays of two dimensions: along each axis the sizes must
  be equal, or one of them is 1 and that array is repeated along the axis.
\<close>

definition bdim :: "nat \<Rightarrow> nat \<Rightarrow> nat option" where
  "bdim m n = (if m = n then Some m else if m = 1 then Some n else if n = 1 then Some m else None)"

definition bget :: "mat \<Rightarrow> nat \<Rightarrow> nat \<Rightarrow> real" where
  "bget A i j = A ! (if nrows A = 1 then 0 else i) ! (if ncols A = 1 then 0 else j)"

definition np_binop :: "(real \<Rightarrow> real \<Rightarrow> real) \<Rightarrow> mat \<Rightarrow> mat \<Rightarrow> pyerr + mat" where
  "np_binop f A B =
     (case (bdim (nrows A) (nrows B), bdim (ncols A) (ncols B)) of
        (Some r, Some c) \<Rightarrow> Inr (map (\<lambda>i. map (\<lambda>j. f (bget A i j) (bget B i j)) [0..<c]) [0..<r])
      | _ \<Rightarrow> Inl ArrayError)"

definition np_add :: "mat \<Rightarrow> mat \<Rightarrow> pyerr + mat" where
  "np_add = np_binop (\<lambda>x y. x + y)"

definition np_sub :: "mat \<Rightarrow> mat \<Rightarrow> pyerr + mat" where
  "np_sub = np_binop (\<lambda>x y. x - y)"

definition np_mul :: "mat \<Rightarrow> mat \<Rightarrow> pyerr + mat" where
  "np_mul = np_binop (\<lambda>x y. x * y)"

text \<open>\<^verbatim>\<open>np.hstack((A, np.ones((n, 1))))\<close>: \<open>A\<close> must have \<open>n\<close> rows.\<close>

definition hstack_ones :: "mat \<Rightarrow> nat \<Rightarrow> pyerr + mat" where
  "hstack_ones A n = (if nrows A = n then Inr (map (\<lambda>r. r @ [1]) A) else Inl ArrayError)"

text \<open>\<^verbatim>\<open>I = np.eye(n + 1); I[-1] = 0\<close>: the identity with its last row set to zero.\<close>

definition eye_zero_last :: "nat \<Rightarrow> mat" where
  "eye_zero_last n = (np_eye (n + 1))[n := replicate (n + 1) 0]"

text \<open>\<^verbatim>\<open>Kp = np.eye(n + 1); Kp[:n, :n] = K\<close>: \<open>K\<close> is broadcast to \<open>n\<close> rows and columns.\<close>

definition eye_with_block :: "nat \<Rightarrow> mat \<Rightarrow> pyerr + mat" where
  "eye_with_block n K =
     (if (nrows K = n \<or> nrows K = 1) \<and> (ncols K = n \<or> ncols K = 1)
      then Inr (map (\<lambda>i. map (\<lambda>j. if i < n \<and> j < n then bget K i j
                                   else if i = j then 1 else 0) [0..<n + 1]) [0..<n + 1])
      else Inl ArrayError)"

text \<open>\<^verbatim>\<open>np.trace(A)\<close>: the sum of the diagonal.\<close>

definition np_trace :: "mat \<Rightarrow> real" where
  "np_trace A = (\<Sum>i\<leftarrow>[0..<min (nrows A) (ncols A)]. A ! i ! i)"

text \<open>\<^verbatim>\<open>np.linalg.norm(v)\<close> of a vector.\<close>

definition np_norm :: "vec \<Rightarrow> real" where
  "np_norm v = sqrt (\<Sum>x\<leftarrow>v. x\<^sup>2)"

text \<open>
  \<^verbatim>\<open>G[labels == lab, i]\<close>: the entries of column \<open>i\<close> in the rows whose label is \<open>lab\<close>.
  The mask must have one entry for each row of \<open>G\<close>.
\<close>

definition masked_col :: "int list \<Rightarrow> int \<Rightarrow> mat \<Rightarrow> nat \<Rightarrow> pyerr + vec" where
  "masked_col labels lab G i =
     (if length labels \<noteq> nrows G then Inl ArrayError
      else Inr (map (\<lambda>k. G ! k ! i) (np_where_eq labels lab)))"

text \<open>\<^verbatim>\<open>W[labels == lab, i] = v\<close>, where \<open>W\<close> has the shape of the \<open>G\<close> that \<open>v\<close> was read from.\<close>

definition assign_masked_col :: "mat \<Rightarrow> int list \<Rightarrow> int \<Rightarrow> nat \<Rightarrow> vec \<Rightarrow> mat" where
  "assign_masked_col W labels lab i v =
     fold (\<lambda>(k, x) A. A[k := (A ! k)[i := x]]) (zip (np_where_eq labels lab) v) W"

section \<open>The group-lasso solver \<^verbatim>\<open>sinkhorn_l1l2_gl\<close>\<close>

text \<open>
  The engine \<^verbatim>\<open>ot.optim.gcg\<close> is a parameter, called as
  \<^verbatim>\<open>gcg(a, b, M, reg, eta, f, df, G0=.., numItermax=.., numInnerItermax=.., stopThr=..,
  verbose=.., log=..)\<close>.
\<close>

type_synonym 'log gcg_fn =
  "vec \<Rightarrow> vec \<Rightarrow> mat \<Rightarrow> real \<Rightarrow> real \<Rightarrow> (mat \<Rightarrow> pyerr + real) \<Rightarrow> (mat \<Rightarrow> pyerr + mat) \<Rightarrow>
   mat option \<Rightarrow> int \<Rightarrow> int \<Rightarrow> real \<Rightarrow> bool \<Rightarrow> bool \<Rightarrow> pyerr + 'log retval"

definition l1l2_f :: "int list \<Rightarrow> mat \<Rightarrow> pyerr + real" where
  "l1l2_f labels_a G =
     (let lstlab = np_unique labels_a in
      for_each [0..<ncols G]
        (\<lambda>i. for_each lstlab
           (\<lambda>lab res. pbind (masked_col labels_a lab G i) (\<lambda>temp. Inr (res + np_norm temp))))
        0)"

definition l1l2_df :: "int list \<Rightarrow> mat \<Rightarrow> pyerr + mat" where
  "l1l2_df labels_a G =
     (let lstlab = np_unique labels_a in
      for_each [0..<ncols G]
        (\<lambda>i. for_each lstlab
           (\<lambda>lab W. pbind (masked_col labels_a lab G i)
              (\<lambda>temp. let n = np_norm temp in
                 if n \<noteq> 0 then Inr (assign_masked_col W labels_a lab i (map (\<lambda>x. x / n) temp))
                 else Inr W)))
        (np_zeros_r (shape G)))"

definition sinkhorn_l1l2_gl ::
  "'log gcg_fn \<Rightarrow> vec \<Rightarrow> int list \<Rightarrow> vec \<Rightarrow> mat \<Rightarrow> real \<Rightarrow> real \<Rightarrow> int \<Rightarrow> int \<Rightarrow> real \<Rightarrow>
   bool \<Rightarrow> bool \<Rightarrow> pyerr + 'log retval" where
  "sinkhorn_l1l2_gl gcg a labels_a b M reg eta numItermax numInnerItermax stopInnerThr
       verbose do_log =
     gcg a b M reg eta (l1l2_f labels_a) (l1l2_df labels_a) None numItermax numInnerItermax
       stopInnerThr verbose do_log"

section \<open>The joint mapping estimators\<close>

text \<open>
  The functions that the module imports (lines 13 to 17) and \<^verbatim>\<open>np.linalg.solve\<close> are
  not part of it. They are the fields of a record; each may raise.
\<close>

type_synonym cg_fn =
  "vec \<Rightarrow> vec \<Rightarrow> mat \<Rightarrow> real \<Rightarrow> (mat \<Rightarrow> pyerr + real) \<Rightarrow> (mat \<Rightarrow> pyerr + mat) \<Rightarrow>
   mat option \<Rightarrow> int \<Rightarrow> real \<Rightarrow> pyerr + mat"

record 'log collab =
  ot_sinkhorn :: sinkhorn_fn
  ot_emd :: "vec \<Rightarrow> vec \<Rightarrow> mat \<Rightarrow> pyerr + mat"
  ot_dist :: "mat \<Rightarrow> mat \<Rightarrow> pyerr + mat"
  ot_kernel :: "mat \<Rightarrow> mat \<Rightarrow> string \<Rightarrow> real \<Rightarrow> pyerr + mat"
  ot_cg :: cg_fn
  ot_gcg :: "'log gcg_fn"
  np_linalg_solve :: "mat \<Rightarrow> mat \<Rightarrow> pyerr + mat"

text \<open>
  Modelled from the spec: \<^verbatim>\<open>ot.utils.unif\<close>, of which the module has only the import;
  \<open>unif n\<close> is the vector of \<open>n\<close> entries \<open>1 / n\<close>.
\<close>

definition unif :: "nat \<Rightarrow> vec" where
  "unif n = replicate n (1 / real n)"

text \<open>What a joint estimator returns: \<^verbatim>\<open>(G, L)\<close> or \<^verbatim>\<open>(G, L, log)\<close>.\<close>

record bcd_log =
  log_err :: "real list"
  log_loss :: "real list"

datatype joint_ret = GL mat mat | GL_Log mat mat bcd_log

text \<open>\<^verbatim>\<open>sel\<close>: all rows but the last with a bias, the identity without.\<close>

definition sel :: "bool \<Rightarrow> mat \<Rightarrow> mat" where
  "sel bias x = (if bias then butlast x else x)"

text \<open>
  The closures \<^verbatim>\<open>f\<close> and \<^verbatim>\<open>df\<close> of \<^verbatim>\<open>solve_G\<close> (lines 369 to 373 and 574 to 578):
  \<^verbatim>\<open>np.sum((xsi - ns * G.dot(xt))**2)\<close> and \<^verbatim>\<open>-2 * ns * (xsi - ns * G.dot(xt)).dot(xt.T)\<close>.
\<close>

definition joint_f :: "mat \<Rightarrow> mat \<Rightarrow> nat \<Rightarrow> mat \<Rightarrow> pyerr + real" where
  "joint_f xsi xt ns G =
     pbind (np_dot G xt) (\<lambda>gx.
     pbind (np_sub xsi (np_scale (real ns) gx)) (\<lambda>R.
     Inr (np_sum (np_square R))))"

definition joint_df :: "mat \<Rightarrow> mat \<Rightarrow> nat \<Rightarrow> mat \<Rightarrow> pyerr + mat" where
  "joint_df xsi xt ns G =
     pbind (np_dot G xt) (\<lambda>gx.
     pbind (np_sub xsi (np_scale (real ns) gx)) (\<lambda>R.
     pbind (np_dot R (np_T xt)) (\<lambda>D.
     Inr (np_scale (- 2 * real ns) D))))"

text \<open>
  \<^verbatim>\<open>solve_G(L, G0)\<close> (lines 365 to 376 and, with \<^verbatim>\<open>K1\<close> for \<^verbatim>\<open>xs1\<close>, 570 to 581). \<^verbatim>\<open>1.0 / mu\<close>
  is a division of Python floats: it raises for \<open>mu = 0\<close>.
\<close>

definition solve_G ::
  "'log collab \<Rightarrow> mat \<Rightarrow> mat \<Rightarrow> nat \<Rightarrow> vec \<Rightarrow> vec \<Rightarrow> mat \<Rightarrow> real \<Rightarrow> int \<Rightarrow> real \<Rightarrow>
   mat \<Rightarrow> mat \<Rightarrow> pyerr + mat" where
  "solve_G env xs1 xt ns a b M mu numInnerItermax stopInnerThr L G0 =
     pbind (np_dot xs1 L) (\<lambda>xsi.
     if mu = 0 then Inl ZeroDivisionError
     else ot_cg env a b M (1 / mu) (joint_f xsi xt ns) (joint_df xsi xt ns) (Some G0)
            numInnerItermax stopInnerThr)"

text \<open>\<^verbatim>\<open>loss(L, G)\<close> and \<^verbatim>\<open>solve_L(G)\<close> of \<^verbatim>\<open>joint_OT_mapping_linear\<close> (lines 356 to 363).\<close>

definition linear_loss ::
  "mat \<Rightarrow> mat \<Rightarrow> nat \<Rightarrow> mat \<Rightarrow> real \<Rightarrow> real \<Rightarrow> bool \<Rightarrow> mat \<Rightarrow> mat \<Rightarrow> mat \<Rightarrow> pyerr + real" where
  "linear_loss xs1 xt ns M mu eta bias I0 L G =
     pbind (np_dot xs1 L) (\<lambda>xl.
     pbind (np_dot G xt) (\<lambda>gx.
     pbind (np_sub xl (np_scale (real ns) gx)) (\<lambda>R.
     pbind (np_mul G M) (\<lambda>GM.
     pbind (np_sub L I0) (\<lambda>D.
     Inr (np_sum (np_square R) + mu * np_sum GM + eta * np_sum (np_square (sel bias D))))))))"

definition linear_solve_L ::
  "'log collab \<Rightarrow> mat \<Rightarrow> mat \<Rightarrow> nat \<Rightarrow> mat \<Rightarrow> real \<Rightarrow> mat \<Rightarrow> mat \<Rightarrow> mat \<Rightarrow> pyerr + mat" where
  "linear_solve_L env xs1 xt ns xstxs eta I I0 G =
     pbind (np_dot G xt) (\<lambda>gx.
     let xst = np_scale (real ns) gx in
     pbind (np_add xstxs (np_scale eta I)) (\<lambda>A.
     pbind (np_dot (np_T xs1) xst) (\<lambda>xx.
     pbind (np_add xx (np_scale eta I0)) (\<lambda>B.
     np_linalg_solve env A B))))"

text \<open>
  The local variables of the block-coordinate-descent loop (lines 388 to 417 and
  598 to 627). Printing (\<^verbatim>\<open>verbose\<close>) is left out.
\<close>

record bcd_state =
  var_G :: mat
  var_L :: mat
  var_vloss :: "real list"
  var_it :: int
  var_loop :: bool

text \<open>
  \<^verbatim>\<open>abs(vloss[-1] - vloss[-2]) / abs(vloss[-2]) < stopThr\<close>. The entries of \<open>vloss\<close> are
  numpy floats (results of \<^verbatim>\<open>np.sum\<close>), so the division does not raise. In the loop
  \<open>vloss\<close> has at least two entries.
\<close>

definition stop_test :: "real list \<Rightarrow> real \<Rightarrow> bool" where
  "stop_test vloss stopThr =
     np_less (np_divide \<bar>vloss ! (length vloss - 1) - vloss ! (length vloss - 2)\<bar>
                        \<bar>vloss ! (length vloss - 2)\<bar>) stopThr"

definition bcd_round ::
  "(mat \<Rightarrow> mat \<Rightarrow> pyerr + mat) \<Rightarrow> (mat \<Rightarrow> pyerr + mat) \<Rightarrow> (mat \<Rightarrow> mat \<Rightarrow> pyerr + real) \<Rightarrow>
   int \<Rightarrow> real \<Rightarrow> bcd_state \<Rightarrow> pyerr + bcd_state" where
  "bcd_round solveG solveL loss numItermax stopThr s =
     (let it = var_it s + 1 in
      pbind (solveG (var_L s) (var_G s)) (\<lambda>G.
      pbind (solveL G) (\<lambda>L.
      pbind (loss L G) (\<lambda>v.
      let vloss = var_vloss s @ [v];
          loop1 = (if numItermax \<le> it then False else var_loop s);
          loop2 = (if stop_test vloss stopThr then False else loop1)
      in Inr \<lparr>var_G = G, var_L = L, var_vloss = vloss, var_it = it, var_loop = loop2\<rparr>))))"

function bcd_loop ::
  "(mat \<Rightarrow> mat \<Rightarrow> pyerr + mat) \<Rightarrow> (mat \<Rightarrow> pyerr + mat) \<Rightarrow> (mat \<Rightarrow> mat \<Rightarrow> pyerr + real) \<Rightarrow>
   int \<Rightarrow> real \<Rightarrow> bcd_state \<Rightarrow> pyerr + bcd_state" where
  "bcd_loop solveG solveL loss numItermax stopThr s =
     (if var_loop s
      then (case bcd_round solveG solveL loss numItermax stopThr s of
              Inl e \<Rightarrow> Inl e
            | Inr s' \<Rightarrow> bcd_loop solveG solveL loss numItermax stopThr s')
      else Inr s)"
  by pat_completeness auto
termination
proof (relation "measure (\<lambda>(solveG, solveL, loss, numItermax, stopThr, s).
                   if var_loop s then nat (numItermax - var_it s) + 1 else 0)")
  show "wf (measure (\<lambda>(solveG, solveL, loss, numItermax, stopThr, s).
                   if var_loop s then nat (numItermax - var_it s) + 1 else 0))"
    by simp
next
  fix solveG :: "mat \<Rightarrow> mat \<Rightarrow> pyerr + mat" and solveL :: "mat \<Rightarrow> pyerr + mat"
    and loss :: "mat \<Rightarrow> mat \<Rightarrow> pyerr + real" and numItermax :: int and stopThr :: real
    and s s' :: bcd_state
  assume "var_loop s" and "bcd_round solveG solveL loss numItermax stopThr s = Inr s'"
  then show "((solveG, solveL, loss, numItermax, stopThr, s'),
              (solveG, solveL, loss, numItermax, stopThr, s))
       \<in> measure (\<lambda>(solveG, solveL, loss, numItermax, stopThr, s).
                   if var_loop s then nat (numItermax - var_it s) + 1 else 0)"
    by (auto simp: bcd_round_def pbind_def Let_def split: sum.splits if_splits)
qed

text \<open>
  The closures and the first values of \<open>G\<close>, \<open>L\<close> and \<open>vloss\<close> with which the loop of a
  joint estimator is entered.
\<close>

record joint_init =
  ini_solveG :: "mat \<Rightarrow> mat \<Rightarrow> pyerr + mat"
  ini_solveL :: "mat \<Rightarrow> pyerr + mat"
  ini_loss :: "mat \<Rightarrow> mat \<Rightarrow> pyerr + real"
  ini_G :: mat
  ini_L :: mat
  ini_v :: real

text \<open>The loop with its initialisation (lines 387 to 417 and 597 to 627).\<close>

definition joint_bcd :: "joint_init \<Rightarrow> int \<Rightarrow> real \<Rightarrow> pyerr + bcd_state" where
  "joint_bcd ini numItermax stopThr =
     bcd_loop (ini_solveG ini) (ini_solveL ini) (ini_loss ini) numItermax stopThr
       \<lparr>var_G = ini_G ini, var_L = ini_L ini, var_vloss = [ini_v ini], var_it = 0,
        var_loop = (0 < numItermax)\<rparr>"

text \<open>The return statement (lines 418 to 422 and 628 to 632).\<close>

definition joint_return :: "bool \<Rightarrow> bcd_state \<Rightarrow> joint_ret" where
  "joint_return do_log s =
     (if do_log then GL_Log (var_G s) (var_L s) \<lparr>log_err = [], log_loss = var_vloss s\<rparr>
      else GL (var_G s) (var_L s))"

text \<open>
  The matrices \<^verbatim>\<open>xs1\<close>, \<^verbatim>\<open>xstxs\<close>, \<^verbatim>\<open>I\<close> and \<^verbatim>\<open>I0\<close> of \<^verbatim>\<open>joint_OT_mapping_linear\<close>
  (lines 327 to 345).
\<close>

definition linear_setup :: "mat \<Rightarrow> mat \<Rightarrow> bool \<Rightarrow> pyerr + (mat \<times> mat \<times> mat \<times> mat)" where
  "linear_setup xs xt bias =
     (let ns = nrows xs; d = ncols xt in
      pbind (if bias then hstack_ones xs ns else Inr xs) (\<lambda>xs1.
      pbind (np_dot (np_T xs1) xs1) (\<lambda>xstxs.
      let I = (if bias then eye_zero_last d else np_eye d);
          I0 = (if bias then map butlast I else I)
      in Inr (xs1, xstxs, I, I0))))"

text \<open>\<^verbatim>\<open>joint_OT_mapping_linear\<close> up to the loop (lines 327 to 380).\<close>

definition linear_init ::
  "'log collab \<Rightarrow> mat \<Rightarrow> mat \<Rightarrow> real \<Rightarrow> real \<Rightarrow> bool \<Rightarrow> int \<Rightarrow> real \<Rightarrow> pyerr + joint_init" where
  "linear_init env xs xt mu eta bias numInnerItermax stopInnerThr =
     (let ns = nrows xs; nt = nrows xt in
      pbind (linear_setup xs xt bias) (\<lambda>(xs1, xstxs, I, I0).
      let a = unif ns;
          b = unif nt
      in
      pbind (ot_dist env xs xt) (\<lambda>D.
      let M = np_scale (real ns) D in
      pbind (ot_emd env a b M) (\<lambda>G.
      let loss = linear_loss xs1 xt ns M mu eta bias I0;
          solveL = linear_solve_L env xs1 xt ns xstxs eta I I0;
          solveG = solve_G env xs1 xt ns a b M mu numInnerItermax stopInnerThr
      in
      pbind (solveL G) (\<lambda>L.
      pbind (loss L G) (\<lambda>v.
      Inr \<lparr>ini_solveG = solveG, ini_solveL = solveL, ini_loss = loss,
           ini_G = G, ini_L = L, ini_v = v\<rparr>))))))"

text \<open>The state in which \<^verbatim>\<open>joint_OT_mapping_linear\<close> reaches its return statement.\<close>

definition joint_linear_run ::
  "'log collab \<Rightarrow> mat \<Rightarrow> mat \<Rightarrow> real \<Rightarrow> real \<Rightarrow> bool \<Rightarrow> int \<Rightarrow> int \<Rightarrow> real \<Rightarrow> real \<Rightarrow>
   pyerr + bcd_state" where
  "joint_linear_run env xs xt mu eta bias numItermax numInnerItermax stopInnerThr stopThr =
     pbind (linear_init env xs xt mu eta bias numInnerItermax stopInnerThr)
       (\<lambda>ini. joint_bcd ini numItermax stopThr)"

definition joint_OT_mapping_linear ::
  "'log collab \<Rightarrow> mat \<Rightarrow> mat \<Rightarrow> real \<Rightarrow> real \<Rightarrow> bool \<Rightarrow> bool \<Rightarrow> bool \<Rightarrow> int \<Rightarrow> int \<Rightarrow> real \<Rightarrow>
   real \<Rightarrow> bool \<Rightarrow> pyerr + joint_ret" where
  "joint_OT_mapping_linear env xs xt mu eta bias verbose verbose2 numItermax numInnerItermax
       stopInnerThr stopThr do_log =
     pbind (joint_linear_run env xs xt mu eta bias numItermax numInnerItermax stopInnerThr
              stopThr)
       (\<lambda>s. Inr (joint_return do_log s))"

text \<open>
  The matrices \<^verbatim>\<open>K1\<close>, \<^verbatim>\<open>I\<close>, \<^verbatim>\<open>K0\<close> and \<^verbatim>\<open>Kreg\<close> of \<^verbatim>\<open>joint_OT_mapping_kernel\<close>
  (lines 520 to 545), from the Gram matrix \<open>K\<close>.
\<close>

definition kernel_setup :: "mat \<Rightarrow> nat \<Rightarrow> real \<Rightarrow> bool \<Rightarrow> pyerr + (mat \<times> mat \<times> mat \<times> mat)" where
  "kernel_setup K ns eta bias =
     (if bias then
        pbind (hstack_ones K ns) (\<lambda>K1.
        let I = eye_zero_last ns in
        pbind (eye_with_block ns K) (\<lambda>Kp.
        pbind (np_dot (np_T K1) K1) (\<lambda>KK.
        pbind (np_add KK (np_scale eta Kp)) (\<lambda>K0.
        Inr (K1, I, K0, Kp)))))
      else
        (let K1 = K; I = np_eye ns in
         pbind (np_add K (np_scale eta I)) (\<lambda>K0.
         Inr (K1, I, K0, K))))"

text \<open>\<^verbatim>\<open>loss\<close>, \<^verbatim>\<open>solve_L_nobias\<close> and \<^verbatim>\<open>solve_L_bias\<close> (lines 556 to 568).\<close>

definition kernel_loss ::
  "mat \<Rightarrow> mat \<Rightarrow> nat \<Rightarrow> mat \<Rightarrow> real \<Rightarrow> real \<Rightarrow> mat \<Rightarrow> mat \<Rightarrow> mat \<Rightarrow> pyerr + real" where
  "kernel_loss K1 xt ns M mu eta Kreg L G =
     pbind (np_dot K1 L) (\<lambda>kl.
     pbind (np_dot G xt) (\<lambda>gx.
     pbind (np_sub kl (np_scale (real ns) gx)) (\<lambda>R.
     pbind (np_mul G M) (\<lambda>GM.
     pbind (np_dot (np_T L) Kreg) (\<lambda>LK.
     pbind (np_dot LK L) (\<lambda>LKL.
     Inr (np_sum (np_square R) + mu * np_sum GM + eta * np_trace LKL)))))))"

definition solve_L_nobias :: "'log collab \<Rightarrow> mat \<Rightarrow> nat \<Rightarrow> mat \<Rightarrow> mat \<Rightarrow> pyerr + mat" where
  "solve_L_nobias env xt ns K0 G =
     pbind (np_dot G xt) (\<lambda>gx.
     let xst = np_scale (real ns) gx in
     np_linalg_solve env K0 xst)"

definition solve_L_bias :: "'log collab \<Rightarrow> mat \<Rightarrow> nat \<Rightarrow> mat \<Rightarrow> mat \<Rightarrow> mat \<Rightarrow> pyerr + mat" where
  "solve_L_bias env xt ns K0 K1 G =
     pbind (np_dot G xt) (\<lambda>gx.
     let xst = np_scale (real ns) gx in
     pbind (np_dot (np_T K1) xst) (\<lambda>B.
     np_linalg_solve env K0 B))"

text \<open>\<^verbatim>\<open>joint_OT_mapping_kernel\<close> up to the loop (lines 517 to 590).\<close>

definition kernel_init ::
  "'log collab \<Rightarrow> mat \<Rightarrow> mat \<Rightarrow> real \<Rightarrow> real \<Rightarrow> string \<Rightarrow> real \<Rightarrow> bool \<Rightarrow> int \<Rightarrow> real \<Rightarrow>
   pyerr + joint_init" where
  "kernel_init env xs xt mu eta kerneltype sigma bias numInnerItermax stopInnerThr =
     (let ns = nrows xs; nt = nrows xt in
      pbind (ot_kernel env xs xs kerneltype sigma) (\<lambda>K.
      pbind (kernel_setup K ns eta bias) (\<lambda>(K1, I, K0, Kreg).
      let a = unif ns;
          b = unif nt
      in
      pbind (ot_dist env xs xt) (\<lambda>D.
      let M = np_scale (real ns) D in
      pbind (ot_emd env a b M) (\<lambda>G.
      let loss = kernel_loss K1 xt ns M mu eta Kreg;
          solveG = solve_G env K1 xt ns a b M mu numInnerItermax stopInnerThr;
          solveL = (if bias then solve_L_bias env xt ns K0 K1 else solve_L_nobias env xt ns K0)
      in
      pbind (solveL G) (\<lambda>L.
      pbind (loss L G) (\<lambda>v.
      Inr \<lparr>ini_solveG = solveG, ini_solveL = solveL, ini_loss = loss,
           ini_G = G, ini_L = L, ini_v = v\<rparr>)))))))"

definition joint_kernel_run ::
  "'log collab \<Rightarrow> mat \<Rightarrow> mat \<Rightarrow> real \<Rightarrow> real \<Rightarrow> string \<Rightarrow> real \<Rightarrow> bool \<Rightarrow> int \<Rightarrow> int \<Rightarrow> real \<Rightarrow>
   real \<Rightarrow> pyerr + bcd_state" where
  "joint_kernel_run env xs xt mu eta kerneltype sigma bias numItermax numInnerItermax
       stopInnerThr stopThr =
     pbind (kernel_init env xs xt mu eta kerneltype sigma bias numInnerItermax stopInnerThr)
       (\<lambda>ini. joint_bcd ini numItermax stopThr)"

definition joint_OT_mapping_kernel ::
  "'log collab \<Rightarrow> mat \<Rightarrow> mat \<Rightarrow> real \<Rightarrow> real \<Rightarrow> string \<Rightarrow> real \<Rightarrow> bool \<Rightarrow> bool \<Rightarrow> bool \<Rightarrow> int \<Rightarrow>
   int \<Rightarrow> real \<Rightarrow> real \<Rightarrow> bool \<Rightarrow> pyerr + joint_ret" where
  "joint_OT_mapping_kernel env xs xt mu eta kerneltype sigma bias verbose verbose2 numItermax
       numInnerItermax stopInnerThr stopThr do_log =
     pbind (joint_kernel_run env xs xt mu eta kerneltype sigma bias numItermax numInnerItermax
              stopInnerThr stopThr)
       (\<lambda>s. Inr (joint_return do_log s))"

text \<open>Every entry is a finite float that is not negative.\<close>

definition finite_nonneg :: "fmat \<Rightarrow> bool" where
  "finite_nonneg A = (\<forall>r \<in> set A. \<forall>x \<in> set r. is_finite x \<and> nonneg x)"

text \<open>No entry is negative.\<close>

definition entries_nonneg :: "mat \<Rightarrow> bool" where
  "entries_nonneg A = (\<forall>r \<in> set A. \<forall>x \<in> set r. 0 \<le> x)"

section \<open>The majorize-minimize solver as the specification words it\<close>

text \<open>
  The mass that the coupling \<open>\<gamma>\<close> sends from the rows of class \<open>c\<close> to the target
  column \<open>j\<close>.
\<close>

definition class_mass :: "int list \<Rightarrow> mat \<Rightarrow> int \<Rightarrow> nat \<Rightarrow> real" where
  "class_mass labels \<gamma> c j = (\<Sum>i\<leftarrow>[0..<length labels]. if labels ! i = c then \<gamma> ! i ! j else 0)"

text \<open>The majorizer \<open>p * (mass + \<epsilon>) ^ (p - 1)\<close> of a class, one value for each column.\<close>

definition majorizer_row :: "real \<Rightarrow> real \<Rightarrow> int list \<Rightarrow> mat \<Rightarrow> int \<Rightarrow> npfloat list" where
  "majorizer_row p \<epsilon> labels \<gamma> c =
     map (\<lambda>j. fmul (Fin p) (np_power (class_mass labels \<gamma> c j + \<epsilon>) (p - 1))) [0..<ncols \<gamma>]"

text \<open>
  The weights \<open>W\<close> of the specification: row \<open>i\<close> holds the majorizer of the class of
  sample \<open>i\<close>, with \<open>p = 0.5\<close> and \<open>\<epsilon> = 1e-3\<close>.
\<close>

definition majorizer_weights :: "int list \<Rightarrow> mat \<Rightarrow> fmat" where
  "majorizer_weights labels \<gamma> =
     map (\<lambda>i. majorizer_row (1 / 2) (1 / 1000) labels \<gamma> (labels ! i)) [0..<nrows \<gamma>]"

text \<open>
  The rounds of the specification: solve the entropic problem with cost \<open>M + eta * W\<close>,
  then recompute \<open>W\<close> from the coupling; \<open>n\<close> times, with no test on the objective.
\<close>

fun lpl1_spec_rounds ::
  "sinkhorn_fn \<Rightarrow> vec \<Rightarrow> int list \<Rightarrow> vec \<Rightarrow> mat \<Rightarrow> real \<Rightarrow> real \<Rightarrow> int \<Rightarrow> real \<Rightarrow>
   nat \<Rightarrow> mm_state \<Rightarrow> pyerr + mm_state" where
  "lpl1_spec_rounds sk a labels b M reg eta nin thr 0 s = Inr s"
| "lpl1_spec_rounds sk a labels b M reg eta nin thr (Suc n) s =
     (case sk a b (add_scaled M eta (var_W s)) reg nin thr of
        Inl e \<Rightarrow> Inl e
      | Inr \<gamma> \<Rightarrow>
          lpl1_spec_rounds sk a labels b M reg eta nin thr n
            \<lparr>var_W = majorizer_weights labels \<gamma>, var_transp = Some \<gamma>,
             ghost_costs = ghost_costs s @ [add_scaled M eta (var_W s)]\<rparr>)"

text \<open>Whenever Sinkhorn returns, the coupling has the shape of the cost matrix.\<close>

definition shape_contract :: "sinkhorn_fn \<Rightarrow> vec \<Rightarrow> vec \<Rightarrow> mat \<Rightarrow> real \<Rightarrow> int \<Rightarrow> real \<Rightarrow> bool" where
  "shape_contract sk a b M reg nin thr =
     (\<forall>C t. sk a b C reg nin thr = Inr t \<longrightarrow> shape t = shape M)"

text \<open>Sinkhorn returns on every cost, with a coupling of the shape of the cost matrix.\<close>

definition returns_shape :: "sinkhorn_fn \<Rightarrow> vec \<Rightarrow> vec \<Rightarrow> mat \<Rightarrow> real \<Rightarrow> int \<Rightarrow> real \<Rightarrow> bool" where
  "returns_shape sk a b M reg nin thr =
     (\<forall>C. \<exists>t. sk a b C reg nin thr = Inr t \<and> shape t = shape M)"

text \<open>
  The Euclidean norm of the block of column \<open>j\<close> of \<open>\<gamma>\<close> restricted to the rows of
  class \<open>c\<close>.
\<close>

definition block_norm :: "int list \<Rightarrow> mat \<Rightarrow> int \<Rightarrow> nat \<Rightarrow> real" where
  "block_norm labels \<gamma> c j =
     sqrt (\<Sum>i\<leftarrow>[0..<length labels]. if labels ! i = c then (\<gamma> ! i ! j)\<^sup>2 else 0)"

text \<open>\<open>f\<close> of the specification: the sum of the block norms over the columns and classes.\<close>

definition group_lasso :: "int list \<Rightarrow> mat \<Rightarrow> real" where
  "group_lasso labels \<gamma> =
     (\<Sum>j\<leftarrow>[0..<ncols \<gamma>]. \<Sum>c\<leftarrow>np_unique labels. block_norm labels \<gamma> c j)"

text \<open>
  \<open>df\<close> of the specification: each entry divided by the norm of its block, and zero where
  the norm of the block is zero.
\<close>

definition group_lasso_grad :: "int list \<Rightarrow> mat \<Rightarrow> mat" where
  "group_lasso_grad labels \<gamma> =
     map (\<lambda>i. map (\<lambda>j. if block_norm labels \<gamma> (labels ! i) j = 0 then 0
                        else \<gamma> ! i ! j / block_norm labels \<gamma> (labels ! i) j)
                [0..<ncols \<gamma>])
         [0..<nrows \<gamma>]"

definition grad_entry :: "int list \<Rightarrow> mat \<Rightarrow> nat \<Rightarrow> nat \<Rightarrow> real" where
  "grad_entry labels G k j =
     (if block_norm labels G (labels ! k) j = 0 then 0
      else G ! k ! j / block_norm labels G (labels ! k) j)"

text \<open>\<open>K0 = K1\<^sup>T K1 + eta * K_reg\<close>, as the specification writes it.\<close>

definition spec_K0 :: "mat \<Rightarrow> mat \<Rightarrow> real \<Rightarrow> pyerr + mat" where
  "spec_K0 K1 Kreg eta = pbind (np_dot (np_T K1) K1) (\<lambda>KK. np_add KK (np_scale eta Kreg))"

text \<open>
  The update of the coupling as the specification words it: by the engine \<^verbatim>\<open>gcg\<close>, with
  entropic weight \<open>1 / mu\<close>, some weight \<open>eta2\<close> of \<open>f\<close>, and the previous coupling as warm
  start.
\<close>

definition spec_solve_G ::
  "'log collab \<Rightarrow> mat \<Rightarrow> mat \<Rightarrow> nat \<Rightarrow> vec \<Rightarrow> vec \<Rightarrow> mat \<Rightarrow> real \<Rightarrow> real \<Rightarrow> int \<Rightarrow> int \<Rightarrow>
   real \<Rightarrow> mat \<Rightarrow> mat \<Rightarrow> pyerr + mat" where
  "spec_solve_G env xs1 xt ns a b M mu eta2 numItermax numInnerItermax stopThr L G0 =
     pbind (np_dot xs1 L) (\<lambda>xsi.
     pbind (ot_gcg env a b M (1 / mu) eta2 (joint_f xsi xt ns) (joint_df xsi xt ns) (Some G0)
              numItermax numInnerItermax stopThr False False)
       (\<lambda>r. case r of Plan G \<Rightarrow> Inr G | Plan_Log G lg \<Rightarrow> Inr G))"

section \<open>Arrays of a given shape\<close>

text \<open>The array with \<open>n\<close> rows and \<open>m\<close> columns whose entry \<open>(i, j)\<close> is \<open>g i j\<close>.\<close>

definition grid :: "nat \<Rightarrow> nat \<Rightarrow> (nat \<Rightarrow> nat \<Rightarrow> 'a) \<Rightarrow> 'a list list" where
  "grid n m g = map (\<lambda>i. map (\<lambda>j. g i j) [0..<m]) [0..<n]"

text \<open>\<open>A\<close> has \<open>n\<close> rows, each of \<open>m\<close> entries.\<close>

definition has_shape :: "nat \<Rightarrow> nat \<Rightarrow> 'a list list \<Rightarrow> bool" where
  "has_shape n m A = (length A = n \<and> (\<forall>r \<in> set A. length r = m))"

text \<open>The sum of two arrays and the inner product \<open>\<Sum>\<^sub>i\<^sub>k A\<^sub>i\<^sub>k B\<^sub>i\<^sub>k\<close> of two \<open>n \<times> m\<close> arrays.\<close>

definition mat_plus :: "mat \<Rightarrow> mat \<Rightarrow> mat" where
  "mat_plus A B = map2 (map2 (\<lambda>x y. x + y)) A B"

definition mat_inner :: "nat \<Rightarrow> nat \<Rightarrow> mat \<Rightarrow> mat \<Rightarrow> real" where
  "mat_inner n m A B = (\<Sum>i<n. \<Sum>k<m. A ! i ! k * B ! i ! k)"

text \<open>
  Entry \<open>(i, j)\<close> of \<open>xsi - n\<^sub>s \<gamma> Xt\<close>, the residual of the fit, as the specification
  writes it.
\<close>

definition fit_residual :: "mat \<Rightarrow> mat \<Rightarrow> nat \<Rightarrow> mat \<Rightarrow> nat \<Rightarrow> nat \<Rightarrow> real" where
  "fit_residual xsi xt ns \<gamma> i j = xsi ! i ! j - real ns * (\<Sum>k<nrows xt. \<gamma> ! i ! k * xt ! k ! j)"

section \<open>Where an exception of a joint estimator comes from\<close>

text \<open>
  What the collaborators of the joint estimators return has the documented shape:
  \<^verbatim>\<open>dist\<close> and \<^verbatim>\<open>kernel\<close> one row for each row of their first argument and one column for
  each row of their second, \<^verbatim>\<open>emd\<close> and \<^verbatim>\<open>cg\<close> (given a warm start of that shape) one row
  for each weight in \<open>a\<close> and one column for each weight in \<open>b\<close>, and
  \<^verbatim>\<open>np.linalg.solve\<close> the shape of its right-hand side.
\<close>

definition collab_shapes :: "'log collab \<Rightarrow> bool" where
  "collab_shapes env =
     ((\<forall>X Y D. ot_dist env X Y = Inr D \<longrightarrow> has_shape (nrows X) (nrows Y) D)
      \<and> (\<forall>X Y k s K. ot_kernel env X Y k s = Inr K \<longrightarrow> has_shape (nrows X) (nrows Y) K)
      \<and> (\<forall>a b M G. ot_emd env a b M = Inr G \<longrightarrow> has_shape (length a) (length b) G)
      \<and> (\<forall>A B X. np_linalg_solve env A B = Inr X \<longrightarrow> has_shape (nrows B) (ncols B) X)
      \<and> (\<forall>a b M r f df G0 n t G.
            has_shape (length a) (length b) G0 \<and> ot_cg env a b M r f df (Some G0) n t = Inr G \<longrightarrow>
            has_shape (length a) (length b) G))"

text \<open>
  The ways in which \<^verbatim>\<open>joint_OT_mapping_linear\<close> fails on arrays whose shapes fit:
  \<^verbatim>\<open>dist\<close> raises on the samples, \<^verbatim>\<open>emd\<close> raises on the uniform weights and the scaled
  distances, \<^verbatim>\<open>np.linalg.solve\<close> raises on the system matrix \<open>X\<^sup>T X + eta * I\<close> built with the
  given \<open>eta\<close>, and, inside the loop only, the division \<^verbatim>\<open>1.0 / mu\<close> raises for \<open>mu = 0\<close> or
  \<^verbatim>\<open>cg\<close> raises when called with the weight \<open>1 / mu\<close>.
\<close>

definition linear_failure ::
  "'log collab \<Rightarrow> mat \<Rightarrow> mat \<Rightarrow> real \<Rightarrow> real \<Rightarrow> bool \<Rightarrow> int \<Rightarrow> int \<Rightarrow> real \<Rightarrow> pyerr \<Rightarrow> bool" where
  "linear_failure env xs xt mu eta bias numItermax numInnerItermax stopInnerThr e =
     (ot_dist env xs xt = Inl e
      \<or> (\<exists>D xs1 xstxs I I0 A.
           ot_dist env xs xt = Inr D \<and> linear_setup xs xt bias = Inr (xs1, xstxs, I, I0)
           \<and> np_add xstxs (np_scale eta I) = Inr A
           \<and> (ot_emd env (unif (nrows xs)) (unif (nrows xt)) (np_scale (real (nrows xs)) D) = Inl e
              \<or> (\<exists>B. has_shape (nrows A) (ncols xt) B \<and> np_linalg_solve env A B = Inl e)
              \<or> (0 < numItermax \<and> mu = 0 \<and> e = ZeroDivisionError)
              \<or> (0 < numItermax
                  \<and> (\<exists>f df G0. has_shape (nrows xs) (nrows xt) G0
                         \<and> ot_cg env (unif (nrows xs)) (unif (nrows xt))
                               (np_scale (real (nrows xs)) D) (1 / mu) f df (Some G0)
                               numInnerItermax stopInnerThr = Inl e)))))"

text \<open>
  The same for \<^verbatim>\<open>joint_OT_mapping_kernel\<close>, where \<^verbatim>\<open>kernel\<close> is called first and the system
  matrix is \<open>K0\<close>.
\<close>

definition kernel_failure ::
  "'log collab \<Rightarrow> mat \<Rightarrow> mat \<Rightarrow> real \<Rightarrow> real \<Rightarrow> string \<Rightarrow> real \<Rightarrow> bool \<Rightarrow> int \<Rightarrow> int \<Rightarrow> real \<Rightarrow>
   pyerr \<Rightarrow> bool" where
  "kernel_failure env xs xt mu eta kerneltype sigma bias numItermax numInnerItermax stopInnerThr
       e =
     (ot_kernel env xs xs kerneltype sigma = Inl e
      \<or> (\<exists>K K1 I K0 Kreg.
           ot_kernel env xs xs kerneltype sigma = Inr K
           \<and> kernel_setup K (nrows xs) eta bias = Inr (K1, I, K0, Kreg)
           \<and> (ot_dist env xs xt = Inl e
              \<or> (\<exists>D. ot_dist env xs xt = Inr D
                   \<and> (ot_emd env (unif (nrows xs)) (unif (nrows xt))
                          (np_scale (real (nrows xs)) D) = Inl e
                      \<or> (\<exists>B. has_shape (nrows K0) (ncols xt) B
                             \<and> np_linalg_solve env K0 B = Inl e)
                      \<or> (0 < numItermax \<and> mu = 0 \<and> e = ZeroDivisionError)
                      \<or> (0 < numItermax
                          \<and> (\<exists>f df G0. has_shape (nrows xs) (nrows xt) G0
                                 \<and> ot_cg env (unif (nrows xs)) (unif (nrows xt))
                                       (np_scale (real (nrows xs)) D) (1 / mu) f df (Some G0)
                                       numInnerItermax stopInnerThr = Inl e)))))))"

section \<open>Stand-ins for the collaborators in the instances\<close>

text \<open>
  A stand-in for Sinkhorn in the concrete instances below: the product coupling
  \<open>a\<^sub>i * b\<^sub>j\<close>, whose marginals are \<open>a\<close> and \<open>b\<close> when both sum to one.
\<close>

definition product_plan :: sinkhorn_fn where
  "product_plan a b Mreg reg numItermax stopThr = Inr (map (\<lambda>ai. map (\<lambda>bj. ai * bj) b) a)"

text \<open>The squared Euclidean distances between the rows of two arrays.\<close>

definition sqeuclidean :: "mat \<Rightarrow> mat \<Rightarrow> pyerr + mat" where
  "sqeuclidean X Y =
     (if ncols X = ncols Y
      then Inr (map (\<lambda>x. map (\<lambda>y. \<Sum>(u, v)\<leftarrow>zip x y. (u - v)\<^sup>2) Y) X)
      else Inl ArrayError)"

text \<open>The Gaussian Gram matrix \<open>exp (- |x - y|\<^sup>2 / (2 * sigma\<^sup>2))\<close>.\<close>

definition gaussian_kernel :: "mat \<Rightarrow> mat \<Rightarrow> string \<Rightarrow> real \<Rightarrow> pyerr + mat" where
  "gaussian_kernel X Y method sigma =
     pbind (sqeuclidean X Y) (\<lambda>D. Inr (map (map (\<lambda>d. exp (- d / (2 * sigma\<^sup>2)))) D))"

text \<open>
  The plan that sends sample \<open>i\<close> to target \<open>i\<close>: the exact optimum for sorted points on a
  line with uniform weights, as many on both sides.
\<close>

definition diagonal_plan :: "vec \<Rightarrow> vec \<Rightarrow> mat \<Rightarrow> pyerr + mat" where
  "diagonal_plan a b M =
     Inr (map (\<lambda>i. map (\<lambda>j. if i = j then a ! i else 0) [0..<length b]) [0..<length a])"

text \<open>A conditional-gradient solver that makes no step: it returns its warm start.\<close>

definition warm_start_cg :: cg_fn where
  "warm_start_cg a b M reg f df G0 numItermax stopThr =
     (case G0 of Some G \<Rightarrow> Inr G | None \<Rightarrow> diagonal_plan a b M)"

text \<open>An entropic engine that returns the product coupling, without a log.\<close>

definition product_gcg :: "unit gcg_fn" where
  "product_gcg a b M reg eta f df G0 numItermax numInnerItermax stopThr verbose do_log =
     Inr (Plan (map (\<lambda>ai. map (\<lambda>bj. ai * bj) b) a))"

text \<open>A solver for systems with one or two unknown rows (Cramer's rule).\<close>

definition small_solve :: "mat \<Rightarrow> mat \<Rightarrow> pyerr + mat" where
  "small_solve A B =
     (case (A, B) of
        ([[a]], [r]) \<Rightarrow> if a = 0 then Inl LinAlgError else Inr [map (\<lambda>x. x / a) r]
      | ([[a, b], [c, d]], [r0, r1]) \<Rightarrow>
          if a * d - b * c = 0 \<or> length r0 \<noteq> length r1 then Inl LinAlgError
          else Inr [map2 (\<lambda>x y. (d * x - b * y) / (a * d - b * c)) r0 r1,
                    map2 (\<lambda>x y. (a * y - c * x) / (a * d - b * c)) r0 r1]
      | _ \<Rightarrow> Inl LinAlgError)"

definition toy_env :: "unit collab" where
  "toy_env = \<lparr>ot_sinkhorn = product_plan, ot_emd = diagonal_plan, ot_dist = sqeuclidean,
     ot_kernel = gaussian_kernel, ot_cg = warm_start_cg, ot_gcg = product_gcg,
     np_linalg_solve = small_solve\<rparr>"

section \<open>Properties of \<^verbatim>\<open>sinkhorn_lpl1_mm\<close>\<close>

lemma fold_update_nth:
  "r < length A \<Longrightarrow> (fold (\<lambda>i B. B[i := v]) idx A) ! r = (if r \<in> set idx then v else A ! r)"
  by (induction idx arbitrary: A) (auto simp: nth_list_update)

lemma fold_update_length [simp]:
  "length (fold (\<lambda>i B. B[i := v]) idx A) = length A"
  by (induction idx arbitrary: A) auto

lemma fold_update_set:
  "set (fold (\<lambda>i B. B[i := v]) idx A) \<subseteq> insert v (set A)"
proof (induction idx arbitrary: A)
  case Nil
  then show ?case by auto
next
  case (Cons i idx)
  have "set (fold (\<lambda>i B. B[i := v]) idx (A[i := v])) \<subseteq> insert v (set (A[i := v]))"
    by (rule Cons.IH)
  also have "\<dots> \<subseteq> insert v (set A)"
    using set_update_subset_insert [of A i v] by auto
  finally show ?case by simp
qed

lemma np_power_pos_base:
  "0 \<le> m \<Longrightarrow> 0 < e \<Longrightarrow> y \<noteq> 0 \<Longrightarrow> np_power (m + e) y = Fin ((m + e) powr y)"
  by (simp add: np_power_def add_nonneg_pos)

lemma majorizer_entry:
  assumes "0 \<le> m"
  shows "fmul (Fin (1 / 2)) (np_power (m + 1 / 1000) (1 / 2 - 1))
     = Fin (1 / 2 * (m + 1 / 1000) powr (1 / 2 - 1))"
  using np_power_pos_base [OF assms, of "1 / 1000" "1 / 2 - 1"] by simp

lemma selected_sum_nonneg:
  assumes "entries_nonneg t" "rect t" "\<forall>i \<in> set idxc. i < nrows t" "j < ncols t"
  shows "0 \<le> sum_list (map (\<lambda>r. r ! j) (map (\<lambda>i. t ! i) idxc))"
proof -
  have "0 \<le> t ! i ! j" if "i \<in> set idxc" for i
  proof -
    have "t ! i \<in> set t" using assms(3) that by (simp add: nrows_def)
    moreover from this have "length (t ! i) = ncols t" using assms(2) by (simp add: rect_def)
    ultimately show ?thesis using assms(1,4) by (simp add: entries_nonneg_def)
  qed
  then show ?thesis by (auto intro!: sum_list_nonneg)
qed

lemma class_update_finite_nonneg:
  assumes t: "entries_nonneg t" "rect t" and W: "finite_nonneg W"
    and upd: "class_update (1 / 2) (1 / 1000) t W idxc = Inr W'"
  shows "finite_nonneg W'"
proof -
  define majs where "majs = np_sum_axis0 (ncols t) (map (\<lambda>i. t ! i) idxc)"
  define v where "v = map (\<lambda>m. fmul (Fin (1 / 2)) (np_power (m + 1 / 1000) (1 / 2 - 1))) majs"
  from upd have inrange: "\<forall>i \<in> set idxc. i < nrows t"
    by (auto simp: class_update_def split: if_splits)
  with upd have asg: "assign_rows W idxc v = Inr W'"
    by (auto simp: class_update_def Let_def v_def majs_def split: if_splits)
  have majs_nonneg: "\<forall>m \<in> set majs. 0 \<le> m"
    using selected_sum_nonneg [OF t inrange] by (auto simp: majs_def np_sum_axis0_def)
  have v_ok: "\<forall>x \<in> set v. is_finite x \<and> nonneg x"
  proof
    fix x assume "x \<in> set v"
    then obtain m where "m \<in> set majs"
      and x: "x = fmul (Fin (1 / 2)) (np_power (m + 1 / 1000) (1 / 2 - 1))"
      by (auto simp: v_def)
    with majs_nonneg have "0 \<le> m" by blast
    then have "x = Fin (1 / 2 * (m + 1 / 1000) powr (1 / 2 - 1))"
      unfolding x by (rule majorizer_entry)
    then show "is_finite x \<and> nonneg x" by simp
  qed
  have hd_ok: "length v = 1 \<Longrightarrow> is_finite (hd v) \<and> nonneg (hd v)"
    using v_ok by (cases v) auto
  from asg consider "W' = fold (\<lambda>i A. A[i := v]) idxc W"
    | "length v = 1" "W' = fold (\<lambda>i A. A[i := replicate (ncols W) (hd v)]) idxc W"
    by (auto simp: assign_rows_def split: if_splits)
  then show ?thesis
  proof cases
    case 1
    then show ?thesis
      using fold_update_set [of v idxc W] W v_ok unfolding finite_nonneg_def by blast
  next
    case 2
    then show ?thesis
      using fold_update_set [of "replicate (ncols W) (hd v)" idxc W] W hd_ok
      unfolding finite_nonneg_def by fastforce
  qed
qed

lemma update_W_finite_nonneg:
  assumes "entries_nonneg t" "rect t"
  shows "finite_nonneg W \<Longrightarrow> update_W (1 / 2) (1 / 1000) t W idxs = Inr W' \<Longrightarrow> finite_nonneg W'"
proof (induction idxs arbitrary: W)
  case Nil
  then show ?case by simp
next
  case (Cons idxc idxs)
  from Cons.prems(2) obtain W1 where
    W1: "class_update (1 / 2) (1 / 1000) t W idxc = Inr W1"
    and rest: "update_W (1 / 2) (1 / 1000) t W1 idxs = Inr W'"
    by (auto split: sum.splits)
  have "finite_nonneg W1"
    using class_update_finite_nonneg [OF assms Cons.prems(1) W1] .
  then show ?case using Cons.IH rest by blast
qed

lemma np_ones_finite_nonneg: "finite_nonneg (np_ones sh)"
  by (auto simp: finite_nonneg_def np_ones_def)

lemma mm_body_Inr:
  assumes "mm_body sk a b M reg eta nin thr p e idxs s = Inr s'"
  shows "\<exists>t. sk a b (add_scaled M eta (var_W s)) reg nin thr = Inr t
           \<and> var_transp s' = Some t
           \<and> update_W p e t (np_ones (shape M)) idxs = Inr (var_W s')
           \<and> ghost_costs s' = ghost_costs s @ [add_scaled M eta (var_W s)]"
  using assms by (auto simp: mm_body_def Let_def split: sum.splits)

lemma for_range_mm_last:
  "0 < n \<Longrightarrow> for_range n (mm_body sk a b M reg eta nin thr p e idxs) s = Inr s' \<Longrightarrow>
     \<exists>t. var_transp s' = Some t \<and> update_W p e t (np_ones (shape M)) idxs = Inr (var_W s')"
proof (induction n arbitrary: s)
  case 0
  then show ?case by simp
next
  case (Suc n)
  from Suc.prems(2) obtain s1 where
    s1: "mm_body sk a b M reg eta nin thr p e idxs s = Inr s1"
    and rest: "for_range n (mm_body sk a b M reg eta nin thr p e idxs) s1 = Inr s'"
    by (auto split: sum.splits)
  show ?case
  proof (cases n)
    case 0
    with rest have "s' = s1" by simp
    with mm_body_Inr [OF s1] show ?thesis by blast
  next
    case (Suc m)
    then show ?thesis using Suc.IH [of s1] rest by simp
  qed
qed

lemma for_range_mm_costs:
  "for_range n (mm_body sk a b M reg eta nin thr p e idxs) s = Inr s' \<Longrightarrow>
     \<exists>cs. ghost_costs s' = ghost_costs s @ cs \<and> length cs = n
          \<and> (0 < n \<longrightarrow> hd cs = add_scaled M eta (var_W s))"
proof (induction n arbitrary: s)
  case 0
  then show ?case by simp
next
  case (Suc n)
  from Suc.prems obtain s1 where
    s1: "mm_body sk a b M reg eta nin thr p e idxs s = Inr s1"
    and rest: "for_range n (mm_body sk a b M reg eta nin thr p e idxs) s1 = Inr s'"
    by (auto split: sum.splits)
  from Suc.IH [OF rest] obtain cs where
    cs: "ghost_costs s' = ghost_costs s1 @ cs" "length cs = n" by blast
  from mm_body_Inr [OF s1] have "ghost_costs s1 = ghost_costs s @ [add_scaled M eta (var_W s)]" by blast
  with cs have "ghost_costs s' = ghost_costs s @ (add_scaled M eta (var_W s) # cs)" by simp
  with cs(2) show ?case by (intro exI [of _ "add_scaled M eta (var_W s) # cs"]) simp
qed

lemma add_scaled_zeros:
  assumes "rect M"
  shows "add_scaled M eta (np_zeros (shape M)) = map (map Fin) M"
proof -
  have row: "map2 (\<lambda>m w. fadd (Fin m) (fmul (Fin eta) w)) r (replicate (length r) (Fin 0)) = map Fin r"
    for r :: "real list"
    by (induction r) auto
  have "map2 (\<lambda>mr wr. map2 (\<lambda>m w. fadd (Fin m) (fmul (Fin eta) w)) mr wr) A
          (replicate (length A) (replicate n (Fin 0))) = map (map Fin) A"
    if "\<forall>r \<in> set A. length r = n" for A :: mat and n
    using that by (induction A) (auto simp: row)
  then show ?thesis
    using assms by (simp add: add_scaled_def np_zeros_def shape_def nrows_def rect_def)
qed

lemma ncols_nth0: "A \<noteq> [] \<Longrightarrow> ncols A = length (A ! 0)"
  by (cases A) (auto simp: ncols_def)

lemma set_np_where_eq: "set (np_where_eq labels c) = {i. i < length labels \<and> labels ! i = c}"
  by (auto simp: np_where_eq_def)

lemma selected_sum_class_mass:
  "(\<Sum>i\<leftarrow>np_where_eq labels c. t ! i ! j) = class_mass labels t c j"
  by (simp add: np_where_eq_def class_mass_def sum_list_map_filter')

lemma class_update_closed:
  assumes n: "length labels = n" "nrows t = n" "length W = n" and nc: "ncols W = ncols t"
  shows "class_update p e t W (np_where_eq labels c)
           = Inr (map (\<lambda>i. if labels ! i = c then majorizer_row p e labels t c else W ! i) [0..<n])"
proof -
  let ?idx = "np_where_eq labels c"
  have inr: "\<not> (\<exists>i \<in> set ?idx. nrows t \<le> i)" "\<not> (\<exists>i \<in> set ?idx. nrows W \<le> i)"
    using n by (auto simp: set_np_where_eq nrows_def)
  have v: "map (\<lambda>m. fmul (Fin p) (np_power (m + e) (p - 1)))
             (np_sum_axis0 (ncols t) (map (\<lambda>i. t ! i) ?idx)) = majorizer_row p e labels t c"
    by (simp add: np_sum_axis0_def majorizer_row_def selected_sum_class_mass comp_def)
  have len: "length (majorizer_row p e labels t c) = ncols W"
    by (simp add: majorizer_row_def nc)
  have "class_update p e t W ?idx = assign_rows W ?idx (majorizer_row p e labels t c)"
    using inr(1) by (simp only: class_update_def Let_def v if_False)
  also have "\<dots> = Inr (fold (\<lambda>i A. A[i := majorizer_row p e labels t c]) ?idx W)"
    using inr(2) len by (simp only: assign_rows_def if_False if_True refl)
  finally have "class_update p e t W ?idx
      = Inr (fold (\<lambda>i A. A[i := majorizer_row p e labels t c]) ?idx W)" .
  moreover have "fold (\<lambda>i A. A[i := majorizer_row p e labels t c]) ?idx W
      = map (\<lambda>i. if labels ! i = c then majorizer_row p e labels t c else W ! i) [0..<n]"
    using n by (intro nth_equalityI) (auto simp: fold_update_nth set_np_where_eq)
  ultimately show ?thesis by simp
qed

lemma update_W_closed:
  assumes n: "length labels = n" "nrows t = n"
  shows "length W = n \<Longrightarrow> ncols W = ncols t \<Longrightarrow>
     update_W p e t W (map (np_where_eq labels) cs)
       = Inr (map (\<lambda>i. if labels ! i \<in> set cs then majorizer_row p e labels t (labels ! i)
                        else W ! i) [0..<n])"
proof (induction cs arbitrary: W)
  case Nil
  then show ?case by (auto intro: nth_equalityI)
next
  case (Cons c cs)
  let ?W1 = "map (\<lambda>i. if labels ! i = c then majorizer_row p e labels t c else W ! i) [0..<n]"
  have step: "class_update p e t W (np_where_eq labels c) = Inr ?W1"
    using class_update_closed [OF n Cons.prems] .
  have len1: "length ?W1 = n" by simp
  have nc1: "ncols ?W1 = ncols t"
  proof (cases "n = 0")
    case True
    then have "t = []" using n by (simp add: nrows_def)
    with True show ?thesis by (simp add: ncols_def)
  next
    case False
    then have "W \<noteq> []" using Cons.prems by auto
    then have "length (W ! 0) = ncols t" using Cons.prems ncols_nth0 by metis
    moreover have "?W1 \<noteq> []" using False by simp
    ultimately show ?thesis
      using False by (simp add: ncols_nth0 majorizer_row_def)
  qed
  have "update_W p e t ?W1 (map (np_where_eq labels) cs)
       = Inr (map (\<lambda>i. if labels ! i \<in> set cs then majorizer_row p e labels t (labels ! i)
                        else ?W1 ! i) [0..<n])"
    using Cons.IH [OF len1 nc1] .
  also have "(map (\<lambda>i. if labels ! i \<in> set cs then majorizer_row p e labels t (labels ! i)
                        else ?W1 ! i) [0..<n])
      = (map (\<lambda>i. if labels ! i \<in> set (c # cs) then majorizer_row p e labels t (labels ! i)
                        else W ! i) [0..<n])"
    by (intro nth_equalityI) auto
  finally show ?case using step by simp
qed

lemma ncols_np_ones: "ncols (np_ones (shape M)) = ncols M"
  by (cases M) (auto simp: np_ones_def shape_def nrows_def ncols_def)

lemma update_W_majorizer:
  assumes "length labels_a = nrows M" "shape t = shape M"
  shows "update_W (1 / 2) (1 / 1000) t (np_ones (shape M)) (map (np_where_eq labels_a) (np_unique labels_a))
           = Inr (majorizer_weights labels_a t)"
proof -
  have n: "length labels_a = nrows M" "nrows t = nrows M"
    using assms by (auto simp: shape_def)
  have len: "length (np_ones (shape M)) = nrows M"
    by (simp add: np_ones_def shape_def)
  have "ncols t = ncols M"
    using assms(2) by (simp add: shape_def)
  then have nc: "ncols (np_ones (shape M)) = ncols t"
    by (simp only: ncols_np_ones)
  have "map (\<lambda>i. if labels_a ! i \<in> set (np_unique labels_a)
                   then majorizer_row (1 / 2) (1 / 1000) labels_a t (labels_a ! i)
                   else np_ones (shape M) ! i) [0..<nrows M]
        = majorizer_weights labels_a t"
    using n by (auto simp: majorizer_weights_def np_unique_def)
  with update_W_closed [OF n len nc, of "1 / 2" "1 / 1000" "np_unique labels_a"]
  show ?thesis by simp
qed

lemma mm_rounds_refine:
  assumes "length labels_a = nrows M" "shape_contract sk a b M reg nin thr"
  shows "for_range n (mm_body sk a b M reg eta nin thr (1 / 2) (1 / 1000)
            (map (np_where_eq labels_a) (np_unique labels_a))) s
         = lpl1_spec_rounds sk a labels_a b M reg eta nin thr n s"
proof (induction n arbitrary: s)
  case 0
  then show ?case by simp
next
  case (Suc n)
  show ?case
  proof (cases "sk a b (add_scaled M eta (var_W s)) reg nin thr")
    case (Inl e)
    then have "mm_body sk a b M reg eta nin thr (1 / 2) (1 / 1000)
            (map (np_where_eq labels_a) (np_unique labels_a)) s = Inl e"
      by (simp add: mm_body_def)
    with Inl show ?thesis by simp
  next
    case (Inr t)
    then have "shape t = shape M" using assms(2) by (auto simp: shape_contract_def)
    then have "update_W (1 / 2) (1 / 1000) t (np_ones (shape M))
        (map (np_where_eq labels_a) (np_unique labels_a)) = Inr (majorizer_weights labels_a t)"
      using update_W_majorizer [OF assms(1)] by simp
    with Inr have "mm_body sk a b M reg eta nin thr (1 / 2) (1 / 1000)
            (map (np_where_eq labels_a) (np_unique labels_a)) s
        = Inr \<lparr>var_W = majorizer_weights labels_a t, var_transp = Some t,
               ghost_costs = ghost_costs s @ [add_scaled M eta (var_W s)]\<rparr>"
      by (simp add: mm_body_def)
    with Inr show ?thesis by (simp add: Suc.IH)
  qed
qed

lemma returns_shape_contract:
  "returns_shape sk a b M reg nin thr \<Longrightarrow> shape_contract sk a b M reg nin thr"
  unfolding returns_shape_def shape_contract_def
  by (metis Inr_inject)

lemma lpl1_spec_rounds_total:
  assumes "returns_shape sk a b M reg nin thr"
  shows "\<exists>s'. lpl1_spec_rounds sk a labels b M reg eta nin thr n s = Inr s'"
proof (induction n arbitrary: s)
  case 0
  then show ?case by simp
next
  case (Suc n)
  from assms obtain t where "sk a b (add_scaled M eta (var_W s)) reg nin thr = Inr t"
    unfolding returns_shape_def by blast
  then show ?case using Suc.IH by simp
qed

lemma class_update_error: "class_update p e t W idxc = Inl err \<Longrightarrow> err = ArrayError"
  by (auto simp: class_update_def assign_rows_def Let_def split: if_splits)

lemma update_W_error: "update_W p e t W idxs = Inl err \<Longrightarrow> err = ArrayError"
  by (induction idxs arbitrary: W) (auto split: sum.splits dest: class_update_error)

lemma mm_body_error:
  "mm_body sk a b M reg eta nin thr p e idxs s = Inl err \<Longrightarrow>
     (\<exists>C. sk a b C reg nin thr = Inl err) \<or> err = ArrayError"
  by (auto simp: mm_body_def Let_def split: sum.splits dest: update_W_error)

lemma for_range_mm_error:
  "for_range n (mm_body sk a b M reg eta nin thr p e idxs) s = Inl err \<Longrightarrow>
     (\<exists>C. sk a b C reg nin thr = Inl err) \<or> err = ArrayError"
proof (induction n arbitrary: s)
  case 0
  then show ?case by simp
next
  case (Suc n)
  show ?case
  proof (cases "mm_body sk a b M reg eta nin thr p e idxs s")
    case (Inl x)
    with Suc.prems have "x = err" by simp
    with Inl show ?thesis using mm_body_error by blast
  next
    case (Inr s1)
    with Suc.prems have "for_range n (mm_body sk a b M reg eta nin thr p e idxs) s1 = Inl err"
      by simp
    then show ?thesis by (rule Suc.IH)
  qed
qed

lemma lpl1_mm_error_sources:
  assumes "(sinkhorn_lpl1_mm sk a labels_a b M reg eta numItermax nin thr verbose do_log
             :: pyerr + 'log retval) = Inl err"
  shows "(err = UnboundLocalError \<and> numItermax \<le> 0)
         \<or> (\<exists>C. sk a b C reg nin thr = Inl err) \<or> err = ArrayError"
proof (cases "mm_run sk a labels_a b M reg eta numItermax nin thr")
  case (Inl x)
  with assms have "x = err" by (simp add: sinkhorn_lpl1_mm_def)
  with Inl show ?thesis
    unfolding mm_run_def Let_def using for_range_mm_error by blast
next
  case (Inr s)
  with assms have none: "var_transp s = None" and err: "err = UnboundLocalError"
    by (auto simp: sinkhorn_lpl1_mm_def split: option.splits)
  have "\<not> 0 < nat numItermax"
  proof
    assume "0 < nat numItermax"
    with Inr for_range_mm_last have "\<exists>t. var_transp s = Some t"
      unfolding mm_run_def Let_def by blast
    with none show False by simp
  qed
  with err show ?thesis by simp
qed

lemma lpl1_mm_run_refines:
  assumes "length labels_a = nrows M" "shape_contract sk a b M reg nin thr"
  shows "mm_run sk a labels_a b M reg eta numItermax nin thr
     = lpl1_spec_rounds sk a labels_a b M reg eta nin thr (nat numItermax)
         \<lparr>var_W = np_zeros (shape M), var_transp = None, ghost_costs = []\<rparr>"
  unfolding mm_run_def Let_def using mm_rounds_refine [OF assms] .

lemma mm_run_count:
  assumes "mm_run sk a labels_a b M reg eta numItermax nin thr = Inr s"
  shows "length (ghost_costs s) = nat numItermax"
  using for_range_mm_costs [OF assms [unfolded mm_run_def Let_def]] by auto

lemma mm_run_first_cost:
  assumes "mm_run sk a labels_a b M reg eta numItermax nin thr = Inr s" "1 \<le> numItermax"
  shows "ghost_costs s \<noteq> [] \<and> hd (ghost_costs s) = add_scaled M eta (np_zeros (shape M))"
proof -
  from for_range_mm_costs [OF assms(1) [unfolded mm_run_def Let_def]] assms(2)
  obtain cs where "ghost_costs s = cs" "length cs = nat numItermax"
    "hd cs = add_scaled M eta (np_zeros (shape M))"
    by auto
  with assms(2) show ?thesis by auto
qed

lemma mm_run_first_call_raises:
  assumes "1 \<le> numItermax"
    and "sk a b (add_scaled M eta (np_zeros (shape M))) reg nin thr = Inl e"
  shows "mm_run sk a labels_a b M reg eta numItermax nin thr = Inl e"
proof -
  from assms(1) obtain n where n: "nat numItermax = Suc n"
    by (cases "nat numItermax") auto
  show ?thesis
    unfolding mm_run_def Let_def n using assms(2) by (simp add: mm_body_def)
qed

lemma mm_run_last_weights:
  assumes "mm_run sk a labels_a b M reg eta numItermax nin thr = Inr s" "1 \<le> numItermax"
  shows "\<exists>t. var_transp s = Some t
           \<and> update_W (1 / 2) (1 / 1000) t (np_ones (shape M))
                (map (np_where_eq labels_a) (np_unique labels_a)) = Inr (var_W s)"
  using for_range_mm_last [OF _ assms(1) [unfolded mm_run_def Let_def]] assms(2) by simp

lemma product_plan_shape:
  assumes "length a = nrows M" "length b = ncols M"
  shows "returns_shape product_plan a b M reg nin thr"
proof -
  have "shape (map (\<lambda>ai. map (\<lambda>bj. ai * bj) b) a) = shape M"
    using assms by (cases a; cases M) (auto simp: shape_def nrows_def ncols_def)
  then show ?thesis by (simp add: returns_shape_def product_plan_def)
qed

lemmas lpl1_eval = mm_run_def mm_body_def product_plan_def
        np_unique_def np_where_eq_def class_update_def assign_rows_def np_sum_axis0_def
        np_ones_def np_zeros_def shape_def nrows_def ncols_def add_scaled_def Let_def np_power_def

lemma for_range_mm_last_call:
  "0 < n \<Longrightarrow> for_range n (mm_body sk a b M reg eta nin thr p e idxs) s = Inr s' \<Longrightarrow>
     \<exists>t. var_transp s' = Some t \<and> ghost_costs s' \<noteq> []
         \<and> sk a b (last (ghost_costs s')) reg nin thr = Inr t"
proof (induction n arbitrary: s)
  case 0
  then show ?case by simp
next
  case (Suc n)
  from Suc.prems(2) obtain s1 where
    s1: "mm_body sk a b M reg eta nin thr p e idxs s = Inr s1"
    and rest: "for_range n (mm_body sk a b M reg eta nin thr p e idxs) s1 = Inr s'"
    by (auto split: sum.splits)
  show ?case
  proof (cases n)
    case 0
    with rest have "s' = s1" by simp
    with mm_body_Inr [OF s1] show ?thesis by auto
  next
    case (Suc m)
    then show ?thesis using Suc.IH [of s1] rest by simp
  qed
qed

lemma lpl1_mm_returns_last_call:
  assumes lab: "length labels_a = nrows M" and sk: "returns_shape sk a b M reg nin thr"
    and n: "1 \<le> numItermax"
  shows "\<exists>t C. (sinkhorn_lpl1_mm sk a labels_a b M reg eta numItermax nin thr verbose do_log
             :: pyerr + 'log retval) = Inr (Plan t) \<and> sk a b C reg nin thr = Inr t"
proof -
  have run: "mm_run sk a labels_a b M reg eta numItermax nin thr
      = lpl1_spec_rounds sk a labels_a b M reg eta nin thr (nat numItermax)
          \<lparr>var_W = np_zeros (shape M), var_transp = None, ghost_costs = []\<rparr>"
    using lpl1_mm_run_refines [OF lab returns_shape_contract [OF sk]] .
  with lpl1_spec_rounds_total [OF sk] obtain s where
    s: "mm_run sk a labels_a b M reg eta numItermax nin thr = Inr s"
    by metis
  from n have "0 < nat numItermax" by simp
  with s for_range_mm_last_call obtain t where
    "var_transp s = Some t" "sk a b (last (ghost_costs s)) reg nin thr = Inr t"
    unfolding mm_run_def Let_def by blast
  with s show ?thesis by (auto simp: sinkhorn_lpl1_mm_def)
qed

text \<open>
  Claim C1, evaluated at a call with \<^verbatim>\<open>log=True\<close>. \<^verbatim>\<open>sinkhorn_lpl1_mm\<close> takes the flag but
  never reads it: on two samples of one class, one target and two rounds it returns the
  coupling alone, with no log beside it, although its docstring promises a log
  dictionary for \<^verbatim>\<open>log==True\<close>.
\<close>

theorem lpl1_mm_log_flag_ignored:
  "(sinkhorn_lpl1_mm product_plan [1 / 2, 1 / 2] [0, 0] [1] [[0], [1]] 1 (1 / 10) 2 200
      (1 / 10 ^ 9) False True :: pyerr + unit retval) = Inr (Plan [[1 / 2], [1 / 2]])"
  by (simp add: sinkhorn_lpl1_mm_def lpl1_eval eval_nat_numeral upt_rec)



text \<open>
  Claim C9. For \<open>numItermax \<ge> 1\<close> the first Sinkhorn call of \<^verbatim>\<open>sinkhorn_lpl1_mm\<close> gets the
  cost \<open>M\<close> unchanged, \<open>W\<close> being zero: if that call raises, so does the function, and a
  run that reaches the return statement has \<open>M\<close> as the first cost handed to Sinkhorn.
  For every coupling \<open>\<gamma>\<close> without negative entries, every entry of the \<open>W\<close> recomputed
  from \<open>\<gamma>\<close> is finite and not negative, and so is the \<open>W\<close> with which a run ends. With a
  single class (all labels equal), one label for each row and \<open>\<gamma>\<close> of the shape of \<open>M\<close>,
  the update succeeds and yields the majorizer weights of the specification.
\<close>

theorem lpl1_mm_first_cost_and_weights:
  "(rect M \<and> 1 \<le> numItermax \<longrightarrow>
      (\<forall>e. sinkhorn a b (map (map Fin) M) reg numInnerItermax stopInnerThr = Inl e \<longrightarrow>
           mm_run sinkhorn a labels_a b M reg eta numItermax numInnerItermax stopInnerThr = Inl e)
      \<and> (\<forall>s. mm_run sinkhorn a labels_a b M reg eta numItermax numInnerItermax stopInnerThr = Inr s \<longrightarrow>
           ghost_costs s \<noteq> [] \<and> hd (ghost_costs s) = map (map Fin) M))
   \<and> (entries_nonneg \<gamma> \<and> rect \<gamma> \<and> update_W (1 / 2) (1 / 1000) \<gamma> (np_ones sh) idxs = Inr W' \<longrightarrow>
        finite_nonneg W')
   \<and> (1 \<le> numItermax
        \<and> mm_run sinkhorn a labels_a b M reg eta numItermax numInnerItermax stopInnerThr = Inr s'
        \<and> var_transp s' = Some \<gamma> \<and> entries_nonneg \<gamma> \<and> rect \<gamma> \<longrightarrow>
        finite_nonneg (var_W s'))
   \<and> ((\<forall>l \<in> set labels_a. l = c) \<and> length labels_a = nrows M \<and> shape \<gamma> = shape M
        \<and> entries_nonneg \<gamma> \<and> rect \<gamma> \<longrightarrow>
        update_W (1 / 2) (1 / 1000) \<gamma> (np_ones (shape M))
            (map (np_where_eq labels_a) (np_unique labels_a))
          = Inr (majorizer_weights labels_a \<gamma>)
        \<and> finite_nonneg (majorizer_weights labels_a \<gamma>))"
proof (intro conjI impI allI)
  fix e
  assume "rect M \<and> 1 \<le> numItermax"
    and "sinkhorn a b (map (map Fin) M) reg numInnerItermax stopInnerThr = Inl e"
  then show "mm_run sinkhorn a labels_a b M reg eta numItermax numInnerItermax stopInnerThr = Inl e"
    using mm_run_first_call_raises [of numItermax sinkhorn a b M eta] add_scaled_zeros [of M eta]
    by simp
next
  fix s
  assume "rect M \<and> 1 \<le> numItermax"
    and "mm_run sinkhorn a labels_a b M reg eta numItermax numInnerItermax stopInnerThr = Inr s"
  then have "ghost_costs s \<noteq> [] \<and> hd (ghost_costs s) = map (map Fin) M"
    using mm_run_first_cost [of sinkhorn a labels_a b M reg eta numItermax] add_scaled_zeros [of M eta]
    by simp
  then show "ghost_costs s \<noteq> []" "hd (ghost_costs s) = map (map Fin) M" by simp_all
next
  assume "entries_nonneg \<gamma> \<and> rect \<gamma> \<and> update_W (1 / 2) (1 / 1000) \<gamma> (np_ones sh) idxs = Inr W'"
  then show "finite_nonneg W'"
    using update_W_finite_nonneg [OF _ _ np_ones_finite_nonneg] by blast
next
  assume h: "1 \<le> numItermax
        \<and> mm_run sinkhorn a labels_a b M reg eta numItermax numInnerItermax stopInnerThr = Inr s'
        \<and> var_transp s' = Some \<gamma> \<and> entries_nonneg \<gamma> \<and> rect \<gamma>"
  then have run: "mm_run sinkhorn a labels_a b M reg eta numItermax numInnerItermax
        stopInnerThr = Inr s'" and n: "1 \<le> numItermax"
    by simp_all
  from mm_run_last_weights [OF run n] h
  have "update_W (1 / 2) (1 / 1000) \<gamma> (np_ones (shape M))
                (map (np_where_eq labels_a) (np_unique labels_a)) = Inr (var_W s')"
    by auto
  with h show "finite_nonneg (var_W s')"
    using update_W_finite_nonneg [OF _ _ np_ones_finite_nonneg] by blast
next
  assume h: "(\<forall>l \<in> set labels_a. l = c) \<and> length labels_a = nrows M \<and> shape \<gamma> = shape M
        \<and> entries_nonneg \<gamma> \<and> rect \<gamma>"
  then show upd: "update_W (1 / 2) (1 / 1000) \<gamma> (np_ones (shape M))
            (map (np_where_eq labels_a) (np_unique labels_a))
          = Inr (majorizer_weights labels_a \<gamma>)"
    using update_W_majorizer by blast
  with h show "finite_nonneg (majorizer_weights labels_a \<gamma>)"
    using update_W_finite_nonneg [OF _ _ np_ones_finite_nonneg] by blast
qed

theorem lpl1_mm_first_cost_and_weights_witness:
  "rect [[0], [1::real]] \<and> (1::int) \<le> 2
   \<and> mm_run product_plan [1 / 2, 1 / 2] [0, 0] [1] [[0], [1]] 1 (1 / 10) 2 200 (1 / 10 ^ 9)
       = Inr \<lparr>var_W = [[Fin ((1001 / 1000) powr - (1 / 2) / 2)],
                       [Fin ((1001 / 1000) powr - (1 / 2) / 2)]],
              var_transp = Some [[1 / 2], [1 / 2]],
              ghost_costs = [[[Fin 0], [Fin 1]],
                             [[Fin ((1001 / 1000) powr - (1 / 2) / 20)],
                              [Fin (1 + (1001 / 1000) powr - (1 / 2) / 20)]]]\<rparr>
   \<and> hd [[[Fin 0], [Fin 1]],
          [[Fin ((1001 / 1000) powr - (1 / 2) / 20)],
           [Fin (1 + (1001 / 1000) powr - (1 / 2) / 20)]]] = map (map Fin) [[0], [1]]
   \<and> entries_nonneg [[1 / 2], [1 / 2]] \<and> rect [[1 / 2], [1 / 2 :: real]]
   \<and> set [0, 0 :: int] = {0}
   \<and> finite_nonneg [[Fin ((1001 / 1000) powr - (1 / 2) / 2)],
                     [Fin ((1001 / 1000) powr - (1 / 2) / 2)]]
   \<and> finite_nonneg (majorizer_weights [0, 0] [[1 / 2], [1 / 2]])"
proof -
  let ?s = "\<lparr>var_W = [[Fin ((1001 / 1000) powr - (1 / 2) / 2)],
                       [Fin ((1001 / 1000) powr - (1 / 2) / 2)]],
              var_transp = Some [[1 / 2], [1 / 2]],
              ghost_costs = [[[Fin 0], [Fin 1]],
                             [[Fin ((1001 / 1000) powr - (1 / 2) / 20)],
                              [Fin (1 + (1001 / 1000) powr - (1 / 2) / 20)]]]\<rparr>"
  have run: "mm_run product_plan [1 / 2, 1 / 2] [0, 0] [1] [[0], [1]] 1 (1 / 10) 2 200 (1 / 10 ^ 9)
       = Inr ?s"
    by (simp add: lpl1_eval eval_nat_numeral upt_rec)
  have hyps: "rect [[0], [1::real]]" "entries_nonneg [[1 / 2], [1 / 2]]"
    "rect [[1 / 2], [1 / 2 :: real]]" "\<forall>l \<in> set [0, 0 :: int]. l = 0"
    "length [0, 0 :: int] = nrows [[0], [1::real]]"
    "shape [[1 / 2], [1 / 2 :: real]] = shape [[0], [1::real]]"
    by (simp_all add: rect_def entries_nonneg_def ncols_def nrows_def shape_def)
  show ?thesis
    using lpl1_mm_first_cost_and_weights [where M = "[[0], [1]]" and numItermax = 2
        and sinkhorn = product_plan and a = "[1 / 2, 1 / 2]" and b = "[1]" and reg = 1
        and numInnerItermax = 200 and stopInnerThr = "1 / 10 ^ 9" and labels_a = "[0, 0]"
        and eta = "1 / 10" and \<gamma> = "[[1 / 2], [1 / 2]]" and s' = ?s and c = 0
        and sh = "(2, 1)" and idxs = "[]" and W' = "np_ones (2, 1)"]
      run hyps
    by simp
qed

text \<open>
  Claim C10. Called with \<open>numItermax \<le> 0\<close>, the outer loop of \<^verbatim>\<open>sinkhorn_lpl1_mm\<close> runs no
  round: the return statement is reached with \<open>W\<close> still zero, no Sinkhorn call made
  and \<open>transp\<close> unbound, and the function ends with \<^verbatim>\<open>UnboundLocalError\<close>. Whenever it
  returns a coupling, \<open>numItermax \<ge> 1\<close>.
\<close>

theorem lpl1_mm_no_round_unbound:
  "(numItermax \<le> 0 \<longrightarrow>
      mm_run sinkhorn a labels_a b M reg eta numItermax numInnerItermax stopInnerThr
        = Inr \<lparr>var_W = np_zeros (shape M), var_transp = None, ghost_costs = []\<rparr>
      \<and> (sinkhorn_lpl1_mm sinkhorn a labels_a b M reg eta numItermax numInnerItermax
           stopInnerThr verbose do_log :: pyerr + 'log retval) = Inl UnboundLocalError)
   \<and> ((sinkhorn_lpl1_mm sinkhorn a labels_a b M reg eta numItermax numInnerItermax
           stopInnerThr verbose do_log :: pyerr + 'log retval) = Inr r \<longrightarrow> 1 \<le> numItermax)"
proof -
  have zero: "numItermax \<le> 0 \<Longrightarrow>
      mm_run sinkhorn a labels_a b M reg eta numItermax numInnerItermax stopInnerThr
        = Inr \<lparr>var_W = np_zeros (shape M), var_transp = None, ghost_costs = []\<rparr>"
    by (simp add: mm_run_def)
  then have err: "numItermax \<le> 0 \<Longrightarrow>
      (sinkhorn_lpl1_mm sinkhorn a labels_a b M reg eta numItermax numInnerItermax
           stopInnerThr verbose do_log :: pyerr + 'log retval) = Inl UnboundLocalError"
    by (simp add: sinkhorn_lpl1_mm_def)
  from zero err show ?thesis
    by (cases "numItermax \<le> 0") auto
qed

theorem lpl1_mm_no_round_unbound_witness:
  "(0::int) \<le> 0
   \<and> mm_run product_plan [1] [0] [1] [[0]] 1 (1 / 10) 0 200 (1 / 10 ^ 9)
        = Inr \<lparr>var_W = [[Fin 0]], var_transp = None, ghost_costs = []\<rparr>
   \<and> (sinkhorn_lpl1_mm product_plan [1] [0] [1] [[0]] 1 (1 / 10) 0 200 (1 / 10 ^ 9) False False
        :: pyerr + unit retval) = Inl UnboundLocalError
   \<and> (sinkhorn_lpl1_mm product_plan [1] [0] [1] [[0]] 1 (1 / 10) 1 200 (1 / 10 ^ 9) False False
        :: pyerr + unit retval) = Inr (Plan [[1]])
   \<and> (1::int) \<le> 1"
proof -
  have run: "(sinkhorn_lpl1_mm product_plan [1] [0] [1] [[0]] 1 (1 / 10) 1 200 (1 / 10 ^ 9)
      False False :: pyerr + unit retval) = Inr (Plan [[1]])"
    by (simp add: sinkhorn_lpl1_mm_def mm_run_def mm_body_def product_plan_def
        np_unique_def np_where_eq_def class_update_def assign_rows_def np_sum_axis0_def
        np_ones_def np_zeros_def shape_def nrows_def ncols_def add_scaled_def Let_def)
  show ?thesis
    using lpl1_mm_no_round_unbound [where ?'log = unit, of 0 product_plan "[1]" "[0]" "[1]"
        "[[0]]" 1 "1 / 10" 200 "1 / 10 ^ 9" False False "Plan [[1]]"]
      lpl1_mm_no_round_unbound [where ?'log = unit, of 1 product_plan "[1]" "[0]" "[1]"
        "[[0]]" 1 "1 / 10" 200 "1 / 10 ^ 9" False False "Plan [[1]]"]
      run
    by (simp add: np_zeros_def shape_def nrows_def ncols_def)
qed

section \<open>Properties of \<^verbatim>\<open>sinkhorn_l1l2_gl\<close> and of the joint estimators\<close>

lemma pbind_Inr [simp]: "pbind (Inr x) f = f x"
  by (simp add: pbind_def)

lemma pbind_Inl [simp]: "pbind (Inl e) f = Inl e"
  by (simp add: pbind_def)

lemma masked_col_norm:
  assumes "length labels = nrows G"
  shows "masked_col labels lab G i = Inr (map (\<lambda>k. G ! k ! i) (np_where_eq labels lab))"
    and "np_norm (map (\<lambda>k. G ! k ! i) (np_where_eq labels lab)) = block_norm labels G lab i"
  using assms
  by (simp_all add: masked_col_def np_norm_def block_norm_def np_where_eq_def
      sum_list_map_filter' comp_def)

lemma l1l2_f_classes:
  assumes "length labels = nrows G"
  shows "for_each cs
           (\<lambda>lab res. pbind (masked_col labels lab G i) (\<lambda>temp. Inr (res + np_norm temp))) r
         = Inr (r + (\<Sum>c\<leftarrow>cs. block_norm labels G c i))"
  by (induction cs arbitrary: r) (simp_all add: masked_col_norm [OF assms] add.assoc)

lemma l1l2_f_columns:
  assumes "length labels = nrows G"
  shows "for_each js
           (\<lambda>i. for_each cs
              (\<lambda>lab res. pbind (masked_col labels lab G i) (\<lambda>temp. Inr (res + np_norm temp)))) r
         = Inr (r + (\<Sum>j\<leftarrow>js. \<Sum>c\<leftarrow>cs. block_norm labels G c j))"
  by (induction js arbitrary: r) (simp_all add: l1l2_f_classes [OF assms] add.assoc)

lemma l1l2_f_closed:
  assumes "length labels = nrows G"
  shows "l1l2_f labels G = Inr (group_lasso labels G)"
  by (simp add: l1l2_f_def group_lasso_def Let_def l1l2_f_columns [OF assms])

lemma distinct_np_where_eq: "distinct (np_where_eq labels c)"
  by (simp add: np_where_eq_def)

lemma fold_zip_update_nth:
  "distinct idx \<Longrightarrow> \<forall>k \<in> set idx. k < length W \<Longrightarrow> r < length W \<Longrightarrow>
     fold (\<lambda>(k, x) A. A[k := (A ! k)[i := x]]) (zip idx (map g idx)) W ! r
       = (if r \<in> set idx then (W ! r)[i := g r] else W ! r)"
proof (induction idx arbitrary: W)
  case Nil
  then show ?case by simp
next
  case (Cons a idx)
  let ?W1 = "W[a := (W ! a)[i := g a]]"
  have "fold (\<lambda>(k, x) A. A[k := (A ! k)[i := x]]) (zip idx (map g idx)) ?W1 ! r
       = (if r \<in> set idx then (?W1 ! r)[i := g r] else ?W1 ! r)"
    using Cons.prems by (intro Cons.IH) auto
  then show ?case using Cons.prems by (auto simp: nth_list_update)
qed

lemma fold_zip_update_length:
  "length (fold (\<lambda>(k, x) A. A[k := (A ! k)[i := x]]) kxs W) = length W"
  by (induction kxs arbitrary: W) auto

lemma assign_masked_col_closed:
  assumes "length labels = length W"
  shows "assign_masked_col W labels lab i (map (\<lambda>x. x / n) (map (\<lambda>k. G ! k ! i) (np_where_eq labels lab)))
         = map (\<lambda>k. if labels ! k = lab then (W ! k)[i := G ! k ! i / n] else W ! k) [0..<length W]"
proof (rule nth_equalityI)
  show "length (assign_masked_col W labels lab i
          (map (\<lambda>x. x / n) (map (\<lambda>k. G ! k ! i) (np_where_eq labels lab))))
      = length (map (\<lambda>k. if labels ! k = lab then (W ! k)[i := G ! k ! i / n] else W ! k)
          [0..<length W])"
    by (simp add: assign_masked_col_def fold_zip_update_length)
next
  fix r
  assume "r < length (assign_masked_col W labels lab i
          (map (\<lambda>x. x / n) (map (\<lambda>k. G ! k ! i) (np_where_eq labels lab))))"
  then have r: "r < length W"
    by (simp add: assign_masked_col_def fold_zip_update_length)
  have inr: "\<forall>k \<in> set (np_where_eq labels lab). k < length W"
    using assms by (simp add: set_np_where_eq)
  have "assign_masked_col W labels lab i
          (map (\<lambda>x. x / n) (map (\<lambda>k. G ! k ! i) (np_where_eq labels lab))) ! r
      = fold (\<lambda>(k, x) A. A[k := (A ! k)[i := x]])
          (zip (np_where_eq labels lab) (map (\<lambda>k. G ! k ! i / n) (np_where_eq labels lab))) W ! r"
    by (simp add: assign_masked_col_def comp_def)
  also have "\<dots> = (if r \<in> set (np_where_eq labels lab) then (W ! r)[i := G ! r ! i / n] else W ! r)"
    using fold_zip_update_nth [OF distinct_np_where_eq inr r] .
  finally show "assign_masked_col W labels lab i
          (map (\<lambda>x. x / n) (map (\<lambda>k. G ! k ! i) (np_where_eq labels lab))) ! r
      = map (\<lambda>k. if labels ! k = lab then (W ! k)[i := G ! k ! i / n] else W ! k) [0..<length W] ! r"
    using r assms by (simp add: set_np_where_eq)
qed

text \<open>One column, the classes \<open>cs\<close>: the rows of these classes get their gradient entry.\<close>

lemma l1l2_df_classes:
  assumes lab: "length labels = nrows G"
  shows "length W = nrows G \<Longrightarrow> distinct cs \<Longrightarrow>
     \<forall>k < nrows G. labels ! k \<in> set cs \<longrightarrow> W ! k ! i = 0 \<Longrightarrow>
     for_each cs
       (\<lambda>lab W. pbind (masked_col labels lab G i)
          (\<lambda>temp. let n = np_norm temp in
             if n \<noteq> 0 then Inr (assign_masked_col W labels lab i (map (\<lambda>x. x / n) temp))
             else Inr W)) W
     = Inr (map (\<lambda>k. if labels ! k \<in> set cs then (W ! k)[i := grad_entry labels G k i] else W ! k)
              [0..<nrows G])"
proof (induction cs arbitrary: W)
  case Nil
  then show ?case by (auto intro: nth_equalityI)
next
  case (Cons c cs)
  let ?n = "block_norm labels G c i"
  let ?W1 = "map (\<lambda>k. if labels ! k = c then (W ! k)[i := grad_entry labels G k i] else W ! k)
               [0..<nrows G]"
  have lenW: "length labels = length W" using lab Cons.prems(1) by simp
  have step: "pbind (masked_col labels c G i)
          (\<lambda>temp. let n = np_norm temp in
             if n \<noteq> 0 then Inr (assign_masked_col W labels c i (map (\<lambda>x. x / n) temp))
             else Inr W) = Inr ?W1"
  proof (cases "?n = 0")
    case True
    have "W = ?W1"
    proof (rule nth_equalityI)
      show "length W = length ?W1" using Cons.prems(1) by simp
    next
      fix k assume k: "k < length W"
      then have "labels ! k = c \<Longrightarrow> (W ! k)[i := grad_entry labels G k i] = W ! k"
        using Cons.prems(1,3) True
        by (metis grad_entry_def list.set_intros(1) list_update_id)
      with k Cons.prems(1) show "W ! k = ?W1 ! k" by simp
    qed
    with True show ?thesis
      by (simp add: masked_col_norm [OF lab] Let_def)
  next
    case False
    have "assign_masked_col W labels c i
            (map (\<lambda>x. x / ?n) (map (\<lambda>k. G ! k ! i) (np_where_eq labels c))) = ?W1"
      unfolding assign_masked_col_closed [OF lenW]
      using False Cons.prems(1) by (auto simp: grad_entry_def)
    with False show ?thesis
      by (simp add: masked_col_norm [OF lab] Let_def)
  qed
  have len1: "length ?W1 = nrows G" by simp
  have zero1: "\<forall>k < nrows G. labels ! k \<in> set cs \<longrightarrow> ?W1 ! k ! i = 0"
    using Cons.prems(2,3) by auto
  have "for_each cs
       (\<lambda>lab W. pbind (masked_col labels lab G i)
          (\<lambda>temp. let n = np_norm temp in
             if n \<noteq> 0 then Inr (assign_masked_col W labels lab i (map (\<lambda>x. x / n) temp))
             else Inr W)) ?W1
     = Inr (map (\<lambda>k. if labels ! k \<in> set cs then (?W1 ! k)[i := grad_entry labels G k i] else ?W1 ! k)
              [0..<nrows G])"
    using Cons.prems(2) by (intro Cons.IH [OF len1 _ zero1]) simp
  also have "map (\<lambda>k. if labels ! k \<in> set cs then (?W1 ! k)[i := grad_entry labels G k i] else ?W1 ! k)
              [0..<nrows G]
      = map (\<lambda>k. if labels ! k \<in> set (c # cs) then (W ! k)[i := grad_entry labels G k i] else W ! k)
              [0..<nrows G]"
    using Cons.prems(2) by (intro nth_equalityI) auto
  finally show ?case using step by simp
qed

lemma distinct_np_unique: "distinct (np_unique labels)"
  by (simp add: np_unique_def)

lemma set_np_unique: "set (np_unique labels) = set labels"
  by (simp add: np_unique_def)

lemma l1l2_df_column:
  assumes lab: "length labels = nrows G" and len: "length W = nrows G"
    and zero: "\<forall>k < nrows G. W ! k ! i = 0"
  shows "for_each (np_unique labels)
       (\<lambda>lab W. pbind (masked_col labels lab G i)
          (\<lambda>temp. let n = np_norm temp in
             if n \<noteq> 0 then Inr (assign_masked_col W labels lab i (map (\<lambda>x. x / n) temp))
             else Inr W)) W
     = Inr (map (\<lambda>k. (W ! k)[i := grad_entry labels G k i]) [0..<nrows G])"
proof -
  have "map (\<lambda>k. if labels ! k \<in> set (np_unique labels)
                  then (W ! k)[i := grad_entry labels G k i] else W ! k) [0..<nrows G]
      = map (\<lambda>k. (W ! k)[i := grad_entry labels G k i]) [0..<nrows G]"
    using lab by (simp add: set_np_unique)
  with l1l2_df_classes [OF lab len distinct_np_unique, where i = i] zero show ?thesis by simp
qed

lemma l1l2_df_columns:
  assumes lab: "length labels = nrows G"
  shows "length W = nrows G \<Longrightarrow> \<forall>k < nrows G. length (W ! k) = m \<Longrightarrow> distinct js \<Longrightarrow>
     \<forall>j \<in> set js. j < m \<Longrightarrow> \<forall>k < nrows G. \<forall>j \<in> set js. W ! k ! j = 0 \<Longrightarrow>
     for_each js
       (\<lambda>i. for_each (np_unique labels)
          (\<lambda>lab W. pbind (masked_col labels lab G i)
             (\<lambda>temp. let n = np_norm temp in
                if n \<noteq> 0 then Inr (assign_masked_col W labels lab i (map (\<lambda>x. x / n) temp))
                else Inr W))) W
     = Inr (map (\<lambda>k. map (\<lambda>j. if j \<in> set js then grad_entry labels G k j else W ! k ! j) [0..<m])
              [0..<nrows G])"
proof (induction js arbitrary: W)
  case Nil
  have "W = map (\<lambda>k. map (\<lambda>j. W ! k ! j) [0..<m]) [0..<nrows G]"
  proof (rule nth_equalityI)
    show "length W = length (map (\<lambda>k. map (\<lambda>j. W ! k ! j) [0..<m]) [0..<nrows G])"
      using Nil.prems(1) by simp
  next
    fix k assume "k < length W"
    then have k: "k < nrows G" using Nil.prems(1) by simp
    then have "W ! k = map (\<lambda>j. W ! k ! j) [0..<m]"
      using Nil.prems(2) by (auto intro: nth_equalityI)
    with k show "W ! k = map (\<lambda>k. map (\<lambda>j. W ! k ! j) [0..<m]) [0..<nrows G] ! k" by simp
  qed
  then show ?case by simp
next
  case (Cons i js)
  let ?W1 = "map (\<lambda>k. (W ! k)[i := grad_entry labels G k i]) [0..<nrows G]"
  have zero_i: "\<forall>k < nrows G. W ! k ! i = 0" using Cons.prems(5) by simp
  have step: "for_each (np_unique labels)
       (\<lambda>lab W. pbind (masked_col labels lab G i)
          (\<lambda>temp. let n = np_norm temp in
             if n \<noteq> 0 then Inr (assign_masked_col W labels lab i (map (\<lambda>x. x / n) temp))
             else Inr W)) W = Inr ?W1"
    using l1l2_df_column [OF lab Cons.prems(1) zero_i] .
  have len1: "length ?W1 = nrows G" by simp
  have rows1: "\<forall>k < nrows G. length (?W1 ! k) = m" using Cons.prems(2) by simp
  have dist: "distinct js" and bound: "\<forall>j \<in> set js. j < m" and inotin: "i \<notin> set js"
    and im: "i < m"
    using Cons.prems(3,4) by simp_all
  have zero1: "\<forall>k < nrows G. \<forall>j \<in> set js. ?W1 ! k ! j = 0"
  proof (intro allI impI ballI)
    fix k j assume k: "k < nrows G" and j: "j \<in> set js"
    then have "j \<noteq> i" using inotin by auto
    with k j Cons.prems(5) show "?W1 ! k ! j = 0" by simp
  qed
  have "map (\<lambda>k. map (\<lambda>j. if j \<in> set js then grad_entry labels G k j else ?W1 ! k ! j) [0..<m])
              [0..<nrows G]
      = map (\<lambda>k. map (\<lambda>j. if j \<in> set (i # js) then grad_entry labels G k j else W ! k ! j) [0..<m])
              [0..<nrows G]"
    using Cons.prems(2) im by (auto simp: nth_list_update)
  with Cons.IH [OF len1 rows1 dist bound zero1] step show ?case by simp
qed

lemma l1l2_df_closed:
  assumes "length labels = nrows G"
  shows "l1l2_df labels G = Inr (group_lasso_grad labels G)"
proof -
  let ?W = "np_zeros_r (shape G)"
  have len: "length ?W = nrows G" by (simp add: np_zeros_r_def shape_def)
  have rows: "\<forall>k < nrows G. length (?W ! k) = ncols G"
    by (simp add: np_zeros_r_def shape_def)
  have zero: "\<forall>k < nrows G. \<forall>j \<in> set [0..<ncols G]. ?W ! k ! j = 0"
    by (simp add: np_zeros_r_def shape_def)
  have "map (\<lambda>k. map (\<lambda>j. if j \<in> set [0..<ncols G] then grad_entry labels G k j else ?W ! k ! j)
                [0..<ncols G]) [0..<nrows G]
      = group_lasso_grad labels G"
    by (simp add: group_lasso_grad_def grad_entry_def)
  with l1l2_df_columns [OF assms len rows, of "[0..<ncols G]"] zero
  show ?thesis by (simp add: l1l2_df_def Let_def)
qed



lemma bcd_loop_stopped:
  "\<not> var_loop s \<Longrightarrow> bcd_loop solveG solveL loss numItermax stopThr s = Inr s"
  by (subst bcd_loop.simps) simp

lemma bcd_loop_step:
  "var_loop s \<Longrightarrow> bcd_loop solveG solveL loss numItermax stopThr s
     = (case bcd_round solveG solveL loss numItermax stopThr s of
          Inl e \<Rightarrow> Inl e
        | Inr s' \<Rightarrow> bcd_loop solveG solveL loss numItermax stopThr s')"
  by (subst bcd_loop.simps) simp

lemma bcd_loop_invariant:
  shows "(\<And>s s'. P s \<Longrightarrow> var_loop s \<Longrightarrow>
      bcd_round solveG solveL loss numItermax stopThr s = Inr s' \<Longrightarrow> P s') \<Longrightarrow>
    P s \<Longrightarrow> bcd_loop solveG solveL loss numItermax stopThr s = Inr s' \<Longrightarrow> P s'"
proof (induction solveG solveL loss numItermax stopThr s rule: bcd_loop.induct)
  case (1 solveG solveL loss numItermax stopThr s)
  show ?case
  proof (cases "var_loop s")
    case False
    then have "bcd_loop solveG solveL loss numItermax stopThr s = Inr s"
      by (rule bcd_loop_stopped)
    with "1.prems"(2,3) show ?thesis by simp
  next
    case True
    show ?thesis
    proof (cases "bcd_round solveG solveL loss numItermax stopThr s")
      case (Inl e)
      then have "bcd_loop solveG solveL loss numItermax stopThr s = Inl e"
        by (simp only: bcd_loop_step [OF True] sum.case)
      with "1.prems"(3) show ?thesis by simp
    next
      case (Inr s1)
      then have "bcd_loop solveG solveL loss numItermax stopThr s
          = bcd_loop solveG solveL loss numItermax stopThr s1"
        by (simp only: bcd_loop_step [OF True] sum.case)
      with "1.prems"(3) have rest: "bcd_loop solveG solveL loss numItermax stopThr s1 = Inr s'"
        by simp
      have "P s1" using "1.prems"(1) [OF "1.prems"(2) True Inr] .
      from "1.IH" [OF True Inr "1.prems"(1) this rest] show ?thesis .
    qed
  qed
qed

lemma bcd_round_Inr:
  assumes "bcd_round solveG solveL loss numItermax stopThr s = Inr s'"
  shows "\<exists>v. solveG (var_L s) (var_G s) = Inr (var_G s')
           \<and> solveL (var_G s') = Inr (var_L s')
           \<and> loss (var_L s') (var_G s') = Inr v
           \<and> var_vloss s' = var_vloss s @ [v]
           \<and> var_it s' = var_it s + 1
           \<and> var_loop s' = (\<not> numItermax \<le> var_it s + 1 \<and> var_loop s
                              \<and> \<not> stop_test (var_vloss s @ [v]) stopThr)"
  using assms
  by (auto simp: bcd_round_def pbind_def Let_def split: sum.splits if_splits)

lemmas np_eval = pbind_def np_dot_def np_T_def np_scale_def np_square_def np_sum_def
  np_binop_def np_add_def np_sub_def np_mul_def bdim_def bget_def np_eye_def
  hstack_ones_def eye_zero_last_def eye_with_block_def np_trace_def
  nrows_def ncols_def unif_def sel_def

lemmas toy_eval = toy_env_def sqeuclidean_def gaussian_kernel_def diagonal_plan_def
  warm_start_cg_def small_solve_def

lemmas joint_eval = joint_OT_mapping_linear_def joint_linear_run_def linear_init_def
  linear_setup_def linear_loss_def linear_solve_L_def joint_bcd_def joint_return_def
  solve_G_def joint_f_def joint_df_def bcd_round_def stop_test_def np_divide_def

lemma joint_bcd_no_round:
  assumes "numItermax \<le> 0"
  shows "joint_bcd ini numItermax stopThr
     = Inr \<lparr>var_G = ini_G ini, var_L = ini_L ini, var_vloss = [ini_v ini], var_it = 0,
            var_loop = False\<rparr>"
  using assms by (simp add: joint_bcd_def bcd_loop_stopped)

lemma pbind_eq_Inr: "pbind m f = Inr y \<longleftrightarrow> (\<exists>x. m = Inr x \<and> f x = Inr y)"
  by (cases m) simp_all

lemma linear_init_Inr:
  assumes "linear_init env xs xt mu eta bias nin sthr = Inr ini"
  shows "\<exists>xs1 xstxs I I0 D.
           linear_setup xs xt bias = Inr (xs1, xstxs, I, I0)
         \<and> ot_dist env xs xt = Inr D
         \<and> ot_emd env (unif (nrows xs)) (unif (nrows xt)) (np_scale (real (nrows xs)) D)
             = Inr (ini_G ini)
         \<and> linear_solve_L env xs1 xt (nrows xs) xstxs eta I I0 (ini_G ini) = Inr (ini_L ini)
         \<and> ini_solveL ini = linear_solve_L env xs1 xt (nrows xs) xstxs eta I I0
         \<and> ini_solveG ini = solve_G env xs1 xt (nrows xs) (unif (nrows xs)) (unif (nrows xt))
                               (np_scale (real (nrows xs)) D) mu nin sthr
         \<and> ini_loss ini = linear_loss xs1 xt (nrows xs) (np_scale (real (nrows xs)) D) mu eta bias I0"
  using assms
  by (auto simp: linear_init_def Let_def pbind_eq_Inr split: prod.splits)

lemma kernel_init_Inr:
  assumes "kernel_init env xs xt mu eta kerneltype sigma bias nin sthr = Inr ini"
  shows "\<exists>K K1 I K0 Kreg D.
           ot_kernel env xs xs kerneltype sigma = Inr K
         \<and> kernel_setup K (nrows xs) eta bias = Inr (K1, I, K0, Kreg)
         \<and> ot_dist env xs xt = Inr D
         \<and> ot_emd env (unif (nrows xs)) (unif (nrows xt)) (np_scale (real (nrows xs)) D)
             = Inr (ini_G ini)
         \<and> (if bias then solve_L_bias env xt (nrows xs) K0 K1
             else solve_L_nobias env xt (nrows xs) K0) (ini_G ini) = Inr (ini_L ini)
         \<and> ini_solveL ini = (if bias then solve_L_bias env xt (nrows xs) K0 K1
                              else solve_L_nobias env xt (nrows xs) K0)
         \<and> ini_solveG ini = solve_G env K1 xt (nrows xs) (unif (nrows xs)) (unif (nrows xt))
                               (np_scale (real (nrows xs)) D) mu nin sthr
         \<and> ini_loss ini = kernel_loss K1 xt (nrows xs) (np_scale (real (nrows xs)) D) mu eta Kreg"
proof -
  from assms obtain K K1 I K0 Kreg D G L v where
    K: "ot_kernel env xs xs kerneltype sigma = Inr K"
    and st: "kernel_setup K (nrows xs) eta bias = Inr (K1, I, K0, Kreg)"
    and D: "ot_dist env xs xt = Inr D"
    and G: "ot_emd env (unif (nrows xs)) (unif (nrows xt)) (np_scale (real (nrows xs)) D) = Inr G"
    and L: "(if bias then solve_L_bias env xt (nrows xs) K0 K1
             else solve_L_nobias env xt (nrows xs) K0) G = Inr L"
    and ini: "ini = \<lparr>ini_solveG = solve_G env K1 xt (nrows xs) (unif (nrows xs)) (unif (nrows xt))
                                   (np_scale (real (nrows xs)) D) mu nin sthr,
                    ini_solveL = (if bias then solve_L_bias env xt (nrows xs) K0 K1
                                  else solve_L_nobias env xt (nrows xs) K0),
                    ini_loss = kernel_loss K1 xt (nrows xs) (np_scale (real (nrows xs)) D) mu eta Kreg,
                    ini_G = G, ini_L = L, ini_v = v\<rparr>"
    by (auto simp: kernel_init_def Let_def pbind_eq_Inr split: prod.splits)
  show ?thesis
    by (intro exI [of _ K] exI [of _ K1] exI [of _ I] exI [of _ K0] exI [of _ Kreg] exI [of _ D])
      (simp add: K st D G L ini)
qed

lemma pbind_assoc: "pbind (pbind m f) g = pbind m (\<lambda>x. pbind (f x) g)"
  by (cases m) simp_all

lemma pbind_prod: "pbind (case p of (x, y) \<Rightarrow> f x y) g = (case p of (x, y) \<Rightarrow> pbind (f x y) g)"
  by (cases p) simp

lemma linear_no_round:
  assumes "numItermax \<le> 0"
  shows "joint_linear_run env xs xt mu eta bias numItermax nin sthr thr
     = pbind (linear_init env xs xt mu eta bias nin sthr)
         (\<lambda>ini. Inr \<lparr>var_G = ini_G ini, var_L = ini_L ini, var_vloss = [ini_v ini], var_it = 0,
                      var_loop = False\<rparr>)"
  by (simp add: joint_linear_run_def joint_bcd_no_round [OF assms])

lemma kernel_no_round:
  assumes "numItermax \<le> 0"
  shows "joint_kernel_run env xs xt mu eta kerneltype sigma bias numItermax nin sthr thr
     = pbind (kernel_init env xs xt mu eta kerneltype sigma bias nin sthr)
         (\<lambda>ini. Inr \<lparr>var_G = ini_G ini, var_L = ini_L ini, var_vloss = [ini_v ini], var_it = 0,
                      var_loop = False\<rparr>)"
  by (simp add: joint_kernel_run_def joint_bcd_no_round [OF assms])

lemma linear_init_cg_free:
  "pbind (linear_init (env\<lparr>ot_cg := c\<rparr>) xs xt mu eta bias nin sthr)
      (\<lambda>ini. Inr (F (ini_G ini) (ini_L ini) (ini_v ini)))
   = pbind (linear_init env xs xt mu eta bias nin sthr)
      (\<lambda>ini. Inr (F (ini_G ini) (ini_L ini) (ini_v ini)))"
  by (simp add: linear_init_def linear_solve_L_def Let_def pbind_assoc pbind_prod
      cong: prod.case_cong)

lemma solve_L_cg_free:
  "solve_L_bias (env\<lparr>ot_cg := c\<rparr>) xt ns K0 K1 = solve_L_bias env xt ns K0 K1"
  "solve_L_nobias (env\<lparr>ot_cg := c\<rparr>) xt ns K0 = solve_L_nobias env xt ns K0"
  by (simp_all add: solve_L_bias_def solve_L_nobias_def fun_eq_iff)

lemma kernel_init_cg_free:
  "pbind (kernel_init (env\<lparr>ot_cg := c\<rparr>) xs xt mu eta kerneltype sigma bias nin sthr)
      (\<lambda>ini. Inr (F (ini_G ini) (ini_L ini) (ini_v ini)))
   = pbind (kernel_init env xs xt mu eta kerneltype sigma bias nin sthr)
      (\<lambda>ini. Inr (F (ini_G ini) (ini_L ini) (ini_v ini)))"
  by (simp add: kernel_init_def solve_L_cg_free Let_def pbind_assoc pbind_prod
      cong: prod.case_cong if_cong)

lemma joint_no_round_state:
  "numItermax \<le> 0 \<longrightarrow>
     joint_OT_mapping_linear env xs xt mu eta bias verbose verbose2 numItermax numInnerItermax
         stopInnerThr stopThr do_log
       = pbind (linear_init env xs xt mu eta bias numInnerItermax stopInnerThr)
           (\<lambda>ini. Inr (joint_return do_log
              \<lparr>var_G = ini_G ini, var_L = ini_L ini, var_vloss = [ini_v ini], var_it = 0,
               var_loop = False\<rparr>))
     \<and> joint_OT_mapping_kernel env xs xt mu eta kerneltype sigma bias verbose verbose2 numItermax
         numInnerItermax stopInnerThr stopThr do_log
       = pbind (kernel_init env xs xt mu eta kerneltype sigma bias numInnerItermax stopInnerThr)
           (\<lambda>ini. Inr (joint_return do_log
              \<lparr>var_G = ini_G ini, var_L = ini_L ini, var_vloss = [ini_v ini], var_it = 0,
               var_loop = False\<rparr>))
     \<and> (\<forall>s. joint_linear_run env xs xt mu eta bias numItermax numInnerItermax stopInnerThr
              stopThr = Inr s \<longrightarrow>
            var_it s = 0 \<and> length (var_vloss s) = 1
            \<and> (\<exists>xs1 xstxs I I0 D.
                  linear_setup xs xt bias = Inr (xs1, xstxs, I, I0)
                \<and> ot_dist env xs xt = Inr D
                \<and> ot_emd env (unif (nrows xs)) (unif (nrows xt)) (np_scale (real (nrows xs)) D)
                    = Inr (var_G s)
                \<and> linear_solve_L env xs1 xt (nrows xs) xstxs eta I I0 (var_G s) = Inr (var_L s)))
     \<and> (\<forall>s. joint_kernel_run env xs xt mu eta kerneltype sigma bias numItermax numInnerItermax
              stopInnerThr stopThr = Inr s \<longrightarrow>
            var_it s = 0 \<and> length (var_vloss s) = 1
            \<and> (\<exists>K K1 I K0 Kreg D.
                  ot_kernel env xs xs kerneltype sigma = Inr K
                \<and> kernel_setup K (nrows xs) eta bias = Inr (K1, I, K0, Kreg)
                \<and> ot_dist env xs xt = Inr D
                \<and> ot_emd env (unif (nrows xs)) (unif (nrows xt)) (np_scale (real (nrows xs)) D)
                    = Inr (var_G s)
                \<and> (if bias then solve_L_bias env xt (nrows xs) K0 K1
                    else solve_L_nobias env xt (nrows xs) K0) (var_G s) = Inr (var_L s)))
     \<and> joint_OT_mapping_linear (env\<lparr>ot_cg := c\<rparr>) xs xt mu eta bias verbose verbose2 numItermax
         numInnerItermax stopInnerThr stopThr do_log
       = joint_OT_mapping_linear env xs xt mu eta bias verbose verbose2 numItermax
           numInnerItermax stopInnerThr stopThr do_log
     \<and> joint_OT_mapping_kernel (env\<lparr>ot_cg := c\<rparr>) xs xt mu eta kerneltype sigma bias verbose
         verbose2 numItermax numInnerItermax stopInnerThr stopThr do_log
       = joint_OT_mapping_kernel env xs xt mu eta kerneltype sigma bias verbose verbose2
           numItermax numInnerItermax stopInnerThr stopThr do_log"
proof
  assume n: "numItermax \<le> 0"
  note lin = linear_no_round [OF n]
  note ker = kernel_no_round [OF n]
  have A: "joint_OT_mapping_linear env xs xt mu eta bias verbose verbose2 numItermax
         numInnerItermax stopInnerThr stopThr do_log
       = pbind (linear_init env xs xt mu eta bias numInnerItermax stopInnerThr)
           (\<lambda>ini. Inr (joint_return do_log
              \<lparr>var_G = ini_G ini, var_L = ini_L ini, var_vloss = [ini_v ini], var_it = 0,
               var_loop = False\<rparr>))" for env :: "'a collab"
    by (simp add: joint_OT_mapping_linear_def lin pbind_assoc)
  have B: "joint_OT_mapping_kernel env xs xt mu eta kerneltype sigma bias verbose verbose2
         numItermax numInnerItermax stopInnerThr stopThr do_log
       = pbind (kernel_init env xs xt mu eta kerneltype sigma bias numInnerItermax stopInnerThr)
           (\<lambda>ini. Inr (joint_return do_log
              \<lparr>var_G = ini_G ini, var_L = ini_L ini, var_vloss = [ini_v ini], var_it = 0,
               var_loop = False\<rparr>))" for env :: "'a collab"
    by (simp add: joint_OT_mapping_kernel_def ker pbind_assoc)
  have C: "var_it s = 0 \<and> length (var_vloss s) = 1
            \<and> (\<exists>xs1 xstxs I I0 D.
                  linear_setup xs xt bias = Inr (xs1, xstxs, I, I0)
                \<and> ot_dist env xs xt = Inr D
                \<and> ot_emd env (unif (nrows xs)) (unif (nrows xt)) (np_scale (real (nrows xs)) D)
                    = Inr (var_G s)
                \<and> linear_solve_L env xs1 xt (nrows xs) xstxs eta I I0 (var_G s) = Inr (var_L s))"
    if "joint_linear_run env xs xt mu eta bias numItermax numInnerItermax stopInnerThr
              stopThr = Inr s" for s
  proof -
    from that obtain ini where
      ini: "linear_init env xs xt mu eta bias numInnerItermax stopInnerThr = Inr ini"
      and s: "s = \<lparr>var_G = ini_G ini, var_L = ini_L ini, var_vloss = [ini_v ini], var_it = 0,
                    var_loop = False\<rparr>"
      unfolding lin pbind_eq_Inr by auto
    from linear_init_Inr [OF ini] show ?thesis unfolding s by auto
  qed
  have D: "var_it s = 0 \<and> length (var_vloss s) = 1
            \<and> (\<exists>K K1 I K0 Kreg D.
                  ot_kernel env xs xs kerneltype sigma = Inr K
                \<and> kernel_setup K (nrows xs) eta bias = Inr (K1, I, K0, Kreg)
                \<and> ot_dist env xs xt = Inr D
                \<and> ot_emd env (unif (nrows xs)) (unif (nrows xt)) (np_scale (real (nrows xs)) D)
                    = Inr (var_G s)
                \<and> (if bias then solve_L_bias env xt (nrows xs) K0 K1
                    else solve_L_nobias env xt (nrows xs) K0) (var_G s) = Inr (var_L s))"
    if "joint_kernel_run env xs xt mu eta kerneltype sigma bias numItermax numInnerItermax
              stopInnerThr stopThr = Inr s" for s
  proof -
    from that obtain ini where
      ini: "kernel_init env xs xt mu eta kerneltype sigma bias numInnerItermax stopInnerThr = Inr ini"
      and s: "s = \<lparr>var_G = ini_G ini, var_L = ini_L ini, var_vloss = [ini_v ini], var_it = 0,
                    var_loop = False\<rparr>"
      unfolding ker pbind_eq_Inr by auto
    from kernel_init_Inr [OF ini] show ?thesis unfolding s by fastforce
  qed
  have E: "joint_OT_mapping_linear (env\<lparr>ot_cg := c\<rparr>) xs xt mu eta bias verbose verbose2
         numItermax numInnerItermax stopInnerThr stopThr do_log
       = joint_OT_mapping_linear env xs xt mu eta bias verbose verbose2 numItermax
           numInnerItermax stopInnerThr stopThr do_log"
    unfolding A
    using linear_init_cg_free [where env = env and c = c and F =
        "\<lambda>G L v. joint_return do_log \<lparr>var_G = G, var_L = L, var_vloss = [v], var_it = 0,
               var_loop = False\<rparr>"] .
  have F: "joint_OT_mapping_kernel (env\<lparr>ot_cg := c\<rparr>) xs xt mu eta kerneltype sigma bias verbose
         verbose2 numItermax numInnerItermax stopInnerThr stopThr do_log
       = joint_OT_mapping_kernel env xs xt mu eta kerneltype sigma bias verbose verbose2
           numItermax numInnerItermax stopInnerThr stopThr do_log"
    unfolding B
    using kernel_init_cg_free [where env = env and c = c and F =
        "\<lambda>G L v. joint_return do_log \<lparr>var_G = G, var_L = L, var_vloss = [v], var_it = 0,
               var_loop = False\<rparr>"] .
  from A B C D E F show "joint_OT_mapping_linear env xs xt mu eta bias verbose verbose2 numItermax numInnerItermax
         stopInnerThr stopThr do_log
       = pbind (linear_init env xs xt mu eta bias numInnerItermax stopInnerThr)
           (\<lambda>ini. Inr (joint_return do_log
              \<lparr>var_G = ini_G ini, var_L = ini_L ini, var_vloss = [ini_v ini], var_it = 0,
               var_loop = False\<rparr>))
     \<and> joint_OT_mapping_kernel env xs xt mu eta kerneltype sigma bias verbose verbose2 numItermax
         numInnerItermax stopInnerThr stopThr do_log
       = pbind (kernel_init env xs xt mu eta kerneltype sigma bias numInnerItermax stopInnerThr)
           (\<lambda>ini. Inr (joint_return do_log
              \<lparr>var_G = ini_G ini, var_L = ini_L ini, var_vloss = [ini_v ini], var_it = 0,
               var_loop = False\<rparr>))
     \<and> (\<forall>s. joint_linear_run env xs xt mu eta bias numItermax numInnerItermax stopInnerThr
              stopThr = Inr s \<longrightarrow>
            var_it s = 0 \<and> length (var_vloss s) = 1
            \<and> (\<exists>xs1 xstxs I I0 D.
                  linear_setup xs xt bias = Inr (xs1, xstxs, I, I0)
                \<and> ot_dist env xs xt = Inr D
                \<and> ot_emd env (unif (nrows xs)) (unif (nrows xt)) (np_scale (real (nrows xs)) D)
                    = Inr (var_G s)
                \<and> linear_solve_L env xs1 xt (nrows xs) xstxs eta I I0 (var_G s) = Inr (var_L s)))
     \<and> (\<forall>s. joint_kernel_run env xs xt mu eta kerneltype sigma bias numItermax numInnerItermax
              stopInnerThr stopThr = Inr s \<longrightarrow>
            var_it s = 0 \<and> length (var_vloss s) = 1
            \<and> (\<exists>K K1 I K0 Kreg D.
                  ot_kernel env xs xs kerneltype sigma = Inr K
                \<and> kernel_setup K (nrows xs) eta bias = Inr (K1, I, K0, Kreg)
                \<and> ot_dist env xs xt = Inr D
                \<and> ot_emd env (unif (nrows xs)) (unif (nrows xt)) (np_scale (real (nrows xs)) D)
                    = Inr (var_G s)
                \<and> (if bias then solve_L_bias env xt (nrows xs) K0 K1
                    else solve_L_nobias env xt (nrows xs) K0) (var_G s) = Inr (var_L s)))
     \<and> joint_OT_mapping_linear (env\<lparr>ot_cg := c\<rparr>) xs xt mu eta bias verbose verbose2 numItermax
         numInnerItermax stopInnerThr stopThr do_log
       = joint_OT_mapping_linear env xs xt mu eta bias verbose verbose2 numItermax
           numInnerItermax stopInnerThr stopThr do_log
     \<and> joint_OT_mapping_kernel (env\<lparr>ot_cg := c\<rparr>) xs xt mu eta kerneltype sigma bias verbose
         verbose2 numItermax numInnerItermax stopInnerThr stopThr do_log
       = joint_OT_mapping_kernel env xs xt mu eta kerneltype sigma bias verbose verbose2
           numItermax numInnerItermax stopInnerThr stopThr do_log"
    by (intro conjI allI impI) blast+
qed

lemma linear_init_value:
  assumes "linear_init env xs xt mu eta bias nin sthr = Inr ini"
  shows "ini_loss ini (ini_L ini) (ini_G ini) = Inr (ini_v ini)"
  using assms
  by (auto simp: linear_init_def Let_def pbind_eq_Inr split: prod.splits)

lemma kernel_init_value:
  assumes "kernel_init env xs xt mu eta kerneltype sigma bias nin sthr = Inr ini"
  shows "ini_loss ini (ini_L ini) (ini_G ini) = Inr (ini_v ini)"
  using assms
  by (auto simp: kernel_init_def Let_def pbind_eq_Inr split: prod.splits)

lemma linear_no_round_returns:
  assumes n: "numItermax \<le> 0"
    and r: "joint_OT_mapping_linear env xs xt mu eta bias verbose verbose2 numItermax
              numInnerItermax stopInnerThr stopThr do_log = Inr r"
  shows "\<exists>xs1 xstxs I I0 D G L v.
           linear_setup xs xt bias = Inr (xs1, xstxs, I, I0)
         \<and> ot_dist env xs xt = Inr D
         \<and> ot_emd env (unif (nrows xs)) (unif (nrows xt)) (np_scale (real (nrows xs)) D) = Inr G
         \<and> linear_solve_L env xs1 xt (nrows xs) xstxs eta I I0 G = Inr L
         \<and> linear_loss xs1 xt (nrows xs) (np_scale (real (nrows xs)) D) mu eta bias I0 L G = Inr v
         \<and> r = (if do_log then GL_Log G L \<lparr>log_err = [], log_loss = [v]\<rparr> else GL G L)"
proof -
  from r obtain ini where
    ini: "linear_init env xs xt mu eta bias numInnerItermax stopInnerThr = Inr ini"
    and res: "r = joint_return do_log
        \<lparr>var_G = ini_G ini, var_L = ini_L ini, var_vloss = [ini_v ini], var_it = 0,
         var_loop = False\<rparr>"
    unfolding joint_OT_mapping_linear_def linear_no_round [OF n] pbind_eq_Inr by auto
  from linear_init_Inr [OF ini] obtain xs1 xstxs I I0 D where
    a: "linear_setup xs xt bias = Inr (xs1, xstxs, I, I0)" "ot_dist env xs xt = Inr D"
      "ot_emd env (unif (nrows xs)) (unif (nrows xt)) (np_scale (real (nrows xs)) D)
         = Inr (ini_G ini)"
      "linear_solve_L env xs1 xt (nrows xs) xstxs eta I I0 (ini_G ini) = Inr (ini_L ini)"
    and lo: "ini_loss ini
         = linear_loss xs1 xt (nrows xs) (np_scale (real (nrows xs)) D) mu eta bias I0"
    by (elim exE conjE)
  from linear_init_value [OF ini] lo
  have v: "linear_loss xs1 xt (nrows xs) (np_scale (real (nrows xs)) D) mu eta bias I0
             (ini_L ini) (ini_G ini) = Inr (ini_v ini)" by simp
  have res': "r = (if do_log then GL_Log (ini_G ini) (ini_L ini) \<lparr>log_err = [], log_loss = [ini_v ini]\<rparr>
             else GL (ini_G ini) (ini_L ini))"
    unfolding res by (simp add: joint_return_def)
  show ?thesis
    by (rule exI [of _ xs1], rule exI [of _ xstxs], rule exI [of _ I],
        rule exI [of _ I0], rule exI [of _ D], rule exI [of _ "ini_G ini"],
        rule exI [of _ "ini_L ini"], rule exI [of _ "ini_v ini"])
       (intro conjI a v res')
qed

lemma kernel_no_round_returns:
  assumes n: "numItermax \<le> 0"
    and r: "joint_OT_mapping_kernel env xs xt mu eta kerneltype sigma bias verbose verbose2
              numItermax numInnerItermax stopInnerThr stopThr do_log = Inr r"
  shows "\<exists>K K1 I K0 Kreg D G L v.
           ot_kernel env xs xs kerneltype sigma = Inr K
         \<and> kernel_setup K (nrows xs) eta bias = Inr (K1, I, K0, Kreg)
         \<and> ot_dist env xs xt = Inr D
         \<and> ot_emd env (unif (nrows xs)) (unif (nrows xt)) (np_scale (real (nrows xs)) D) = Inr G
         \<and> (if bias then solve_L_bias env xt (nrows xs) K0 K1
             else solve_L_nobias env xt (nrows xs) K0) G = Inr L
         \<and> kernel_loss K1 xt (nrows xs) (np_scale (real (nrows xs)) D) mu eta Kreg L G = Inr v
         \<and> r = (if do_log then GL_Log G L \<lparr>log_err = [], log_loss = [v]\<rparr> else GL G L)"
proof -
  from r obtain ini where
    ini: "kernel_init env xs xt mu eta kerneltype sigma bias numInnerItermax stopInnerThr
            = Inr ini"
    and res: "r = joint_return do_log
        \<lparr>var_G = ini_G ini, var_L = ini_L ini, var_vloss = [ini_v ini], var_it = 0,
         var_loop = False\<rparr>"
    unfolding joint_OT_mapping_kernel_def kernel_no_round [OF n] pbind_eq_Inr by auto
  from kernel_init_Inr [OF ini] obtain K K1 I K0 Kreg D where
    a: "ot_kernel env xs xs kerneltype sigma = Inr K"
      "kernel_setup K (nrows xs) eta bias = Inr (K1, I, K0, Kreg)" "ot_dist env xs xt = Inr D"
      "ot_emd env (unif (nrows xs)) (unif (nrows xt)) (np_scale (real (nrows xs)) D)
         = Inr (ini_G ini)"
      "(if bias then solve_L_bias env xt (nrows xs) K0 K1
        else solve_L_nobias env xt (nrows xs) K0) (ini_G ini) = Inr (ini_L ini)"
    and lo: "ini_loss ini
         = kernel_loss K1 xt (nrows xs) (np_scale (real (nrows xs)) D) mu eta Kreg"
    by (elim exE conjE)
  from kernel_init_value [OF ini] lo
  have v: "kernel_loss K1 xt (nrows xs) (np_scale (real (nrows xs)) D) mu eta Kreg
             (ini_L ini) (ini_G ini) = Inr (ini_v ini)" by simp
  have res': "r = (if do_log then GL_Log (ini_G ini) (ini_L ini) \<lparr>log_err = [], log_loss = [ini_v ini]\<rparr>
             else GL (ini_G ini) (ini_L ini))"
    unfolding res by (simp add: joint_return_def)
  show ?thesis
    by (rule exI [of _ K], rule exI [of _ K1], rule exI [of _ I],
        rule exI [of _ K0], rule exI [of _ Kreg], rule exI [of _ D],
        rule exI [of _ "ini_G ini"], rule exI [of _ "ini_L ini"],
        rule exI [of _ "ini_v ini"])
       (intro conjI a v res')
qed

lemmas kernel_eval = joint_OT_mapping_kernel_def joint_kernel_run_def kernel_init_def
  kernel_setup_def kernel_loss_def solve_L_bias_def solve_L_nobias_def



lemma np_divide_zero:
  "\<not> is_finite (np_divide x 0)" "0 \<le> x \<Longrightarrow> \<not> np_less (np_divide x 0) t"
  by (auto simp: np_divide_def)

lemma stop_test_snoc:
  "old \<noteq> [] \<Longrightarrow> stop_test (old @ [v]) thr
     = np_less (np_divide \<bar>v - last old\<bar> \<bar>last old\<bar>) thr"
  by (simp add: stop_test_def nth_append last_conv_nth Suc_diff_Suc numeral_2_eq_2)

text \<open>
  Claim C8. Every round of the block coordinate descent of the joint estimators evaluates
  the stopping test: the loop is a round followed by the loop, and after a round the loop
  flag is set exactly if the budget is not exhausted and the quotient of
  \<open>|loss\<^sub>t - loss\<^sub>t\<^sub>-\<^sub>1|\<close> by \<open>|loss\<^sub>t\<^sub>-\<^sub>1|\<close> is not below the threshold. The quotient is formed
  without a guard: when the previous loss is exactly zero it is not finite (\<^verbatim>\<open>inf\<close> or
  \<^verbatim>\<open>nan\<close>), nothing is put in its place, the test is false and the loop goes on until the
  budget is exhausted.
\<close>

theorem bcd_stop_test_unguarded:
  "(var_loop s \<longrightarrow>
      bcd_loop solveG solveL loss numItermax stopThr s
        = (case bcd_round solveG solveL loss numItermax stopThr s of
             Inl e \<Rightarrow> Inl e
           | Inr s' \<Rightarrow> bcd_loop solveG solveL loss numItermax stopThr s'))
   \<and> (bcd_round solveG solveL loss numItermax stopThr s = Inr s' \<and> var_loop s
        \<and> var_vloss s \<noteq> [] \<longrightarrow>
        var_vloss s' \<noteq> []
        \<and> var_loop s' = (var_it s + 1 < numItermax
            \<and> \<not> np_less (np_divide \<bar>last (var_vloss s') - last (var_vloss s)\<bar>
                                      \<bar>last (var_vloss s)\<bar>) stopThr))
   \<and> (bcd_round solveG solveL loss numItermax stopThr s = Inr s' \<and> var_loop s
        \<and> var_vloss s \<noteq> [] \<and> last (var_vloss s) = 0 \<longrightarrow>
        \<not> is_finite (np_divide \<bar>last (var_vloss s') - last (var_vloss s)\<bar>
                                \<bar>last (var_vloss s)\<bar>)
        \<and> var_loop s' = (var_it s + 1 < numItermax))"
proof (intro conjI impI)
  assume "var_loop s"
  then show "bcd_loop solveG solveL loss numItermax stopThr s
        = (case bcd_round solveG solveL loss numItermax stopThr s of
             Inl e \<Rightarrow> Inl e
           | Inr s' \<Rightarrow> bcd_loop solveG solveL loss numItermax stopThr s')"
    by (rule bcd_loop_step)
next
  assume h: "bcd_round solveG solveL loss numItermax stopThr s = Inr s' \<and> var_loop s
        \<and> var_vloss s \<noteq> []"
  then obtain v where v: "var_vloss s' = var_vloss s @ [v]"
    and lp: "var_loop s' = (\<not> numItermax \<le> var_it s + 1 \<and> var_loop s
                              \<and> \<not> stop_test (var_vloss s @ [v]) stopThr)"
    using bcd_round_Inr by blast
  from v show "var_vloss s' \<noteq> []" by simp
  from h v lp show "var_loop s' = (var_it s + 1 < numItermax
            \<and> \<not> np_less (np_divide \<bar>last (var_vloss s') - last (var_vloss s)\<bar>
                                      \<bar>last (var_vloss s)\<bar>) stopThr)"
    by (auto simp: stop_test_snoc)
next
  assume h: "bcd_round solveG solveL loss numItermax stopThr s = Inr s' \<and> var_loop s
        \<and> var_vloss s \<noteq> [] \<and> last (var_vloss s) = 0"
  then obtain v where v: "var_vloss s' = var_vloss s @ [v]"
    and lp: "var_loop s' = (\<not> numItermax \<le> var_it s + 1 \<and> var_loop s
                              \<and> \<not> stop_test (var_vloss s @ [v]) stopThr)"
    using bcd_round_Inr by blast
  from h show "\<not> is_finite (np_divide \<bar>last (var_vloss s') - last (var_vloss s)\<bar>
                                \<bar>last (var_vloss s)\<bar>)"
    by (simp add: np_divide_zero)
  from h v lp show "var_loop s' = (var_it s + 1 < numItermax)"
    by (auto simp: stop_test_snoc np_divide_zero)
qed

theorem bcd_stop_test_unguarded_witness:
  "bcd_round
       (solve_G toy_env [[1]] [[1]] 1 [1] [1] [[0]] 1 10 (1 / 10 ^ 6))
       (linear_solve_L toy_env [[1]] [[1]] 1 [[1]] (1 / 1000) [[1]] [[1]])
       (linear_loss [[1]] [[1]] 1 [[0]] 1 (1 / 1000) False [[1]])
       3 (1 / 10 ^ 5)
       \<lparr>var_G = [[1]], var_L = [[1]], var_vloss = [0], var_it = 0, var_loop = True\<rparr>
     = Inr \<lparr>var_G = [[1]], var_L = [[1]], var_vloss = [0, 0], var_it = 1, var_loop = True\<rparr>
   \<and> last [0 :: real] = 0
   \<and> \<not> is_finite (np_divide \<bar>last [0, 0] - last [0]\<bar> \<bar>last [0]\<bar>)
   \<and> joint_linear_run toy_env [[1]] [[1]] 1 (1 / 1000) False 3 10 (1 / 10 ^ 6) (1 / 10 ^ 5)
       = Inr \<lparr>var_G = [[1]], var_L = [[1]], var_vloss = [0, 0, 0, 0], var_it = 3,
              var_loop = False\<rparr>"
proof -
  let ?sG = "solve_G toy_env [[1]] [[1]] 1 [1] [1] [[0]] 1 10 (1 / 10 ^ 6)"
  let ?sL = "linear_solve_L toy_env [[1]] [[1]] 1 [[1]] (1 / 1000) [[1]] [[1]]"
  let ?lo = "linear_loss [[1]] [[1]] 1 [[0]] 1 (1 / 1000) False [[1]]"
  let ?s = "\<lparr>var_G = [[1]], var_L = [[1]], var_vloss = [0], var_it = 0, var_loop = True\<rparr>"
  let ?s' = "\<lparr>var_G = [[1]], var_L = [[1]], var_vloss = [0, 0], var_it = 1, var_loop = True\<rparr>"
  have round: "bcd_round ?sG ?sL ?lo 3 (1 / 10 ^ 5) ?s = Inr ?s'"
    by (simp add: joint_eval np_eval toy_eval Let_def eval_nat_numeral upt_rec)
  have run: "joint_linear_run toy_env [[1]] [[1]] 1 (1 / 1000) False 3 10 (1 / 10 ^ 6) (1 / 10 ^ 5)
       = Inr \<lparr>var_G = [[1]], var_L = [[1]], var_vloss = [0, 0, 0, 0], var_it = 3,
              var_loop = False\<rparr>"
    by (simp add: joint_eval np_eval toy_eval Let_def eval_nat_numeral upt_rec bcd_loop.simps)
  from bcd_stop_test_unguarded [where s = ?s and s' = ?s' and solveG = ?sG and solveL = ?sL
      and loss = ?lo and numItermax = 3 and stopThr = "1 / 10 ^ 5"] round
  have "\<not> is_finite (np_divide \<bar>last [0, 0] - last [0]\<bar> \<bar>last [0]\<bar>)"
    by simp
  with round run show ?thesis by simp
qed

subsection \<open>Computing with arrays of a given shape\<close>

lemma sum_list_upt: "(\<Sum>k\<leftarrow>[0..<m]. f k) = (\<Sum>k<m. f k)"
  by (simp add: interv_sum_list_conv_sum_set_nat atLeast0LessThan)

lemma grid_nth: "i < n \<Longrightarrow> j < m \<Longrightarrow> grid n m g ! i ! j = g i j"
  by (simp add: grid_def)

lemma grid_row: "i < n \<Longrightarrow> grid n m g ! i = map (g i) [0..<m]"
  by (simp add: grid_def)

lemma length_grid [simp]: "length (grid n m g) = n"
  by (simp add: grid_def)

lemma grid_cong: "(\<And>i j. i < n \<Longrightarrow> j < m \<Longrightarrow> g i j = h i j) \<Longrightarrow> grid n m g = grid n m h"
  by (simp add: grid_def)

lemma has_shape_grid [simp]: "has_shape n m (grid n m g)"
  by (auto simp: has_shape_def grid_def)

lemma has_shape_eq_grid:
  assumes "has_shape n m A"
  shows "A = grid n m (\<lambda>i j. A ! i ! j)"
proof (rule nth_equalityI)
  show "length A = length (grid n m (\<lambda>i j. A ! i ! j))"
    using assms by (simp add: has_shape_def)
next
  fix i assume "i < length A"
  then have i: "i < n" and len: "length (A ! i) = m"
    using assms by (simp_all add: has_shape_def)
  show "A ! i = grid n m (\<lambda>i j. A ! i ! j) ! i"
  proof (rule nth_equalityI)
    show "length (A ! i) = length (grid n m (\<lambda>i j. A ! i ! j) ! i)"
      using i len by (simp add: grid_row)
  next
    fix j assume "j < length (A ! i)"
    then show "A ! i ! j = grid n m (\<lambda>i j. A ! i ! j) ! i ! j"
      using i len by (simp add: grid_nth)
  qed
qed

lemma nrows_grid [simp]: "nrows (grid n m g) = n"
  by (simp add: grid_def nrows_def)

lemma ncols_grid: "0 < n \<Longrightarrow> ncols (grid n m g) = m"
  by (cases n) (simp_all add: grid_def ncols_def upt_conv_Cons del: upt_Suc)

lemma has_shape_dims:
  assumes "has_shape n m A" "0 < n"
  shows "nrows A = n" "ncols A = m"
proof -
  have A: "A = grid n m (\<lambda>i j. A ! i ! j)"
    using assms(1) by (rule has_shape_eq_grid)
  show "nrows A = n" by (subst A) simp
  show "ncols A = m" by (subst A) (simp add: ncols_grid [OF assms(2)])
qed

lemma map_grid_rows:
  "map (\<lambda>r. map (\<lambda>j. F r j) [0..<d]) (grid n m g)
     = grid n d (\<lambda>i j. F (map (g i) [0..<m]) j)"
  by (simp add: grid_def comp_def)

lemma np_dot_grid:
  assumes "0 < n" "0 < m"
  shows "np_dot (grid n m g) (grid m d h) = Inr (grid n d (\<lambda>i j. \<Sum>k<m. g i k * h k j))"
proof -
  have "grid n d (\<lambda>i j. \<Sum>k\<leftarrow>[0..<m]. map (g i) [0..<m] ! k * grid m d h ! k ! j)
      = grid n d (\<lambda>i j. \<Sum>k<m. g i k * h k j)"
  proof (rule grid_cong)
    fix i j assume "i < n" "j < d"
    have "(\<Sum>k\<leftarrow>[0..<m]. map (g i) [0..<m] ! k * grid m d h ! k ! j)
        = (\<Sum>k\<leftarrow>[0..<m]. g i k * h k j)"
      by (rule arg_cong [where f = sum_list], rule map_cong)
         (simp_all add: grid_nth \<open>j < d\<close>)
    then show "(\<Sum>k\<leftarrow>[0..<m]. map (g i) [0..<m] ! k * grid m d h ! k ! j)
        = (\<Sum>k<m. g i k * h k j)"
      by (simp only: sum_list_upt)
  qed
  then show ?thesis
    using assms by (simp add: np_dot_def ncols_grid map_grid_rows)
qed

lemma bget_grid: "i < n \<Longrightarrow> j < d \<Longrightarrow> bget (grid n d g) i j = g i j"
  by (cases "n = 1"; cases "d = 1") (simp_all add: bget_def ncols_grid grid_nth)

lemma grid_fold: "map (\<lambda>i. map (\<lambda>j. g i j) [0..<m]) [0..<n] = grid n m g"
  by (simp add: grid_def)

lemma np_binop_grid:
  assumes "0 < n" "0 < d"
  shows "np_binop f (grid n d g) (grid n d h) = Inr (grid n d (\<lambda>i j. f (g i j) (h i j)))"
proof -
  have "grid n d (\<lambda>i j. f (bget (grid n d g) i j) (bget (grid n d h) i j))
      = grid n d (\<lambda>i j. f (g i j) (h i j))"
    by (rule grid_cong) (simp add: bget_grid)
  then show ?thesis
    using assms by (simp add: np_binop_def bdim_def ncols_grid grid_fold)
qed

lemma np_scale_grid: "np_scale c (grid n d g) = grid n d (\<lambda>i j. c * g i j)"
  by (simp add: np_scale_def grid_def)

lemma np_square_grid: "np_square (grid n d g) = grid n d (\<lambda>i j. (g i j)\<^sup>2)"
  by (simp add: np_square_def grid_def)

lemma np_sum_grid: "np_sum (grid n d g) = (\<Sum>i<n. \<Sum>j<d. g i j)"
  by (simp add: np_sum_def grid_def comp_def sum_list_upt)

lemma np_T_grid:
  assumes "0 < m"
  shows "np_T (grid m d t) = grid d m (\<lambda>j k. t k j)"
proof -
  have "map (\<lambda>j. map (\<lambda>r. r ! j) (grid m d t)) [0..<d] = grid d m (\<lambda>j k. t k j)"
    unfolding grid_def by (simp add: comp_def)
  then show ?thesis
    using assms by (simp add: np_T_def ncols_grid)
qed

lemma mat_plus_grid: "mat_plus (grid n m g) (grid n m h) = grid n m (\<lambda>i k. g i k + h i k)"
proof (rule nth_equalityI)
  show "length (mat_plus (grid n m g) (grid n m h)) = length (grid n m (\<lambda>i k. g i k + h i k))"
    by (simp add: mat_plus_def)
next
  fix i assume "i < length (mat_plus (grid n m g) (grid n m h))"
  then have i: "i < n" by (simp add: mat_plus_def)
  then show "mat_plus (grid n m g) (grid n m h) ! i = grid n m (\<lambda>i k. g i k + h i k) ! i"
    by (simp add: mat_plus_def grid_row list_eq_iff_nth_eq)
qed

lemma joint_f_grid:
  assumes "0 < n" "0 < m" "0 < d"
  shows "joint_f (grid n d x) (grid m d t) ns (grid n m g)
     = Inr (\<Sum>i<n. \<Sum>j<d. (x i j - real ns * (\<Sum>k<m. g i k * t k j))\<^sup>2)"
  using assms
  by (simp add: joint_f_def np_dot_grid np_scale_grid np_sub_def np_binop_grid np_square_grid
      np_sum_grid)

lemma joint_df_grid:
  assumes "0 < n" "0 < m" "0 < d"
  shows "joint_df (grid n d x) (grid m d t) ns (grid n m g)
     = Inr (grid n m (\<lambda>i k. - 2 * real ns
               * (\<Sum>j<d. (x i j - real ns * (\<Sum>k<m. g i k * t k j)) * t k j)))"
  using assms
  by (simp add: joint_df_def np_dot_grid np_scale_grid np_sub_def np_binop_grid np_T_grid)

lemma quadratic_expansion:
  fixes r :: "nat \<Rightarrow> nat \<Rightarrow> real"
  shows "(\<Sum>i<n. \<Sum>j<d. (r i j - c * (\<Sum>k<m. h i k * t k j))\<^sup>2)
     = (\<Sum>i<n. \<Sum>j<d. (r i j)\<^sup>2)
       + (\<Sum>i<n. \<Sum>k<m. (- 2 * c * (\<Sum>j<d. r i j * t k j)) * h i k)
       + c\<^sup>2 * (\<Sum>i<n. \<Sum>j<d. (\<Sum>k<m. h i k * t k j)\<^sup>2)"
proof -
  have swap: "(\<Sum>j<d. r i j * (\<Sum>k<m. h i k * t k j)) = (\<Sum>k<m. (\<Sum>j<d. r i j * t k j) * h i k)"
    for i
  proof -
    have "(\<Sum>j<d. r i j * (\<Sum>k<m. h i k * t k j)) = (\<Sum>j<d. \<Sum>k<m. r i j * t k j * h i k)"
      by (simp add: sum_distrib_left mult_ac)
    also have "\<dots> = (\<Sum>k<m. \<Sum>j<d. r i j * t k j * h i k)" by (rule sum.swap)
    also have "\<dots> = (\<Sum>k<m. (\<Sum>j<d. r i j * t k j) * h i k)"
      by (simp add: sum_distrib_right)
    finally show ?thesis .
  qed
  have entry: "(u - c * v)\<^sup>2 = u\<^sup>2 + (- 2 * c) * (u * v) + c\<^sup>2 * v\<^sup>2" for u v :: real
    by (simp add: power2_eq_square algebra_simps)
  have row: "(\<Sum>j<d. (r i j - c * (\<Sum>k<m. h i k * t k j))\<^sup>2)
      = (\<Sum>j<d. (r i j)\<^sup>2) + (\<Sum>k<m. (- 2 * c * (\<Sum>j<d. r i j * t k j)) * h i k)
        + c\<^sup>2 * (\<Sum>j<d. (\<Sum>k<m. h i k * t k j)\<^sup>2)" for i
  proof -
    define X where "X k = (\<Sum>j<d. r i j * t k j)" for k
    have "(\<Sum>j<d. (r i j - c * (\<Sum>k<m. h i k * t k j))\<^sup>2)
        = (\<Sum>j<d. (r i j)\<^sup>2) + (- 2 * c) * (\<Sum>j<d. r i j * (\<Sum>k<m. h i k * t k j))
                     + c\<^sup>2 * (\<Sum>j<d. (\<Sum>k<m. h i k * t k j)\<^sup>2)"
      by (simp only: entry sum.distrib sum_distrib_left [symmetric])
    also have "(\<Sum>j<d. r i j * (\<Sum>k<m. h i k * t k j)) = (\<Sum>k<m. X k * h i k)"
      unfolding X_def by (rule swap)
    also have "(- 2 * c) * (\<Sum>k<m. X k * h i k) = (\<Sum>k<m. (- 2 * c * X k) * h i k)"
      by (simp add: sum_distrib_left mult.assoc)
    finally show ?thesis unfolding X_def .
  qed
  show ?thesis
    by (simp only: row sum.distrib sum_distrib_left [symmetric])
qed

lemma joint_f_closed:
  assumes sh: "has_shape n d xsi" "has_shape m d xt" "has_shape n m G"
    and pos: "0 < n" "0 < m" "0 < d"
  shows "joint_f xsi xt ns G
     = Inr (\<Sum>i<n. \<Sum>j<d. (xsi ! i ! j - real ns * (\<Sum>k<m. G ! i ! k * xt ! k ! j))\<^sup>2)"
proof -
  note eq = joint_f_grid [OF pos, of "\<lambda>i j. xsi ! i ! j" "\<lambda>k j. xt ! k ! j" ns "\<lambda>i k. G ! i ! k"]
  show ?thesis
    using eq
    by (simp only: has_shape_eq_grid [OF sh(1), symmetric] has_shape_eq_grid [OF sh(2), symmetric]
        has_shape_eq_grid [OF sh(3), symmetric])
qed

lemma joint_df_closed:
  assumes sh: "has_shape n d xsi" "has_shape m d xt" "has_shape n m G"
    and pos: "0 < n" "0 < m" "0 < d"
  shows "joint_df xsi xt ns G
     = Inr (grid n m (\<lambda>i k. - 2 * real ns
         * (\<Sum>j<d. (xsi ! i ! j - real ns * (\<Sum>k<m. G ! i ! k * xt ! k ! j)) * xt ! k ! j)))"
proof -
  note eq = joint_df_grid [OF pos, of "\<lambda>i j. xsi ! i ! j" "\<lambda>k j. xt ! k ! j" ns "\<lambda>i k. G ! i ! k"]
  show ?thesis
    using eq
    by (simp only: has_shape_eq_grid [OF sh(1), symmetric] has_shape_eq_grid [OF sh(2), symmetric]
        has_shape_eq_grid [OF sh(3), symmetric])
qed

lemma has_shape_mat_plus:
  assumes "has_shape n m G" "has_shape n m H"
  shows "mat_plus G H = grid n m (\<lambda>i k. G ! i ! k + H ! i ! k)"
proof -
  have "mat_plus (grid n m (\<lambda>i k. G ! i ! k)) (grid n m (\<lambda>i k. H ! i ! k))
      = grid n m (\<lambda>i k. G ! i ! k + H ! i ! k)"
    by (rule mat_plus_grid)
  then show ?thesis
    by (simp only: has_shape_eq_grid [OF assms(1), symmetric]
        has_shape_eq_grid [OF assms(2), symmetric])
qed

lemma joint_df_is_gradient:
  assumes sh: "has_shape n d xsi" "has_shape m d xt" "has_shape n m G" "has_shape n m H"
    and pos: "0 < n" "0 < m" "0 < d"
  shows "\<exists>fG dfG. joint_f xsi xt ns G = Inr fG \<and> joint_df xsi xt ns G = Inr dfG
           \<and> joint_f xsi xt ns (mat_plus G H)
               = Inr (fG + mat_inner n m dfG H
                      + (real ns)\<^sup>2 * (\<Sum>i<n. \<Sum>j<d. (\<Sum>k<m. H ! i ! k * xt ! k ! j)\<^sup>2))"
proof -
  let ?r = "\<lambda>i j. xsi ! i ! j - real ns * (\<Sum>k<m. G ! i ! k * xt ! k ! j)"
  let ?df = "grid n m (\<lambda>i k. - 2 * real ns * (\<Sum>j<d. ?r i j * xt ! k ! j))"
  have f: "joint_f xsi xt ns G = Inr (\<Sum>i<n. \<Sum>j<d. (?r i j)\<^sup>2)"
    by (rule joint_f_closed [OF sh(1-3) pos])
  have df: "joint_df xsi xt ns G = Inr ?df"
    by (rule joint_df_closed [OF sh(1-3) pos])
  have shGH: "has_shape n m (mat_plus G H)"
    by (simp add: has_shape_mat_plus [OF sh(3,4)])
  have entryGH: "mat_plus G H ! i ! k = G ! i ! k + H ! i ! k" if "i < n" "k < m" for i k
    using that by (simp add: has_shape_mat_plus [OF sh(3,4)] grid_nth)
  have resid: "xsi ! i ! j - real ns * (\<Sum>k<m. mat_plus G H ! i ! k * xt ! k ! j)
      = ?r i j - real ns * (\<Sum>k<m. H ! i ! k * xt ! k ! j)" if "i < n" for i j
  proof -
    have "(\<Sum>k<m. mat_plus G H ! i ! k * xt ! k ! j)
        = (\<Sum>k<m. G ! i ! k * xt ! k ! j) + (\<Sum>k<m. H ! i ! k * xt ! k ! j)"
      using that by (simp add: entryGH distrib_right sum.distrib)
    then show ?thesis by (simp add: distrib_left)
  qed
  have "joint_f xsi xt ns (mat_plus G H)
      = Inr (\<Sum>i<n. \<Sum>j<d. (xsi ! i ! j
               - real ns * (\<Sum>k<m. mat_plus G H ! i ! k * xt ! k ! j))\<^sup>2)"
    by (rule joint_f_closed [OF sh(1,2) shGH pos])
  also have "(\<Sum>i<n. \<Sum>j<d. (xsi ! i ! j
               - real ns * (\<Sum>k<m. mat_plus G H ! i ! k * xt ! k ! j))\<^sup>2)
      = (\<Sum>i<n. \<Sum>j<d. (?r i j - real ns * (\<Sum>k<m. H ! i ! k * xt ! k ! j))\<^sup>2)"
    by (rule sum.cong [OF refl]) (simp add: resid)
  also have "\<dots> = (\<Sum>i<n. \<Sum>j<d. (?r i j)\<^sup>2)
       + (\<Sum>i<n. \<Sum>k<m. (- 2 * real ns * (\<Sum>j<d. ?r i j * xt ! k ! j)) * H ! i ! k)
       + (real ns)\<^sup>2 * (\<Sum>i<n. \<Sum>j<d. (\<Sum>k<m. H ! i ! k * xt ! k ! j)\<^sup>2)"
    by (rule quadratic_expansion)
  also have "(\<Sum>i<n. \<Sum>k<m. (- 2 * real ns * (\<Sum>j<d. ?r i j * xt ! k ! j)) * H ! i ! k)
      = mat_inner n m ?df H"
    unfolding mat_inner_def by (simp add: grid_nth)
  finally have "joint_f xsi xt ns (mat_plus G H)
      = Inr ((\<Sum>i<n. \<Sum>j<d. (?r i j)\<^sup>2) + mat_inner n m ?df H
             + (real ns)\<^sup>2 * (\<Sum>i<n. \<Sum>j<d. (\<Sum>k<m. H ! i ! k * xt ! k ! j)\<^sup>2))" .
  with f df show ?thesis by (intro exI conjI)
qed

lemma has_shape_nrows: "has_shape n m A \<Longrightarrow> nrows A = n"
  by (simp add: has_shape_def nrows_def)

lemma np_dot_shape:
  assumes "has_shape n m A" "has_shape m d B" "0 < n" "0 < m"
  shows "\<exists>C. np_dot A B = Inr C \<and> has_shape n d C"
proof -
  have "np_dot (grid n m (\<lambda>i j. A ! i ! j)) (grid m d (\<lambda>i j. B ! i ! j))
      = Inr (grid n d (\<lambda>i j. \<Sum>k<m. A ! i ! k * B ! k ! j))"
    using assms(3,4) by (rule np_dot_grid)
  then have "np_dot A B = Inr (grid n d (\<lambda>i j. \<Sum>k<m. A ! i ! k * B ! k ! j))"
    by (simp only: has_shape_eq_grid [OF assms(1), symmetric]
        has_shape_eq_grid [OF assms(2), symmetric])
  then show ?thesis by (intro exI conjI) (assumption, rule has_shape_grid)
qed

lemma np_binop_shape:
  assumes "has_shape n d A" "has_shape n d B" "0 < n" "0 < d"
  shows "\<exists>C. np_binop f A B = Inr C \<and> has_shape n d C"
proof -
  have "np_binop f (grid n d (\<lambda>i j. A ! i ! j)) (grid n d (\<lambda>i j. B ! i ! j))
      = Inr (grid n d (\<lambda>i j. f (A ! i ! j) (B ! i ! j)))"
    using assms(3,4) by (rule np_binop_grid)
  then have "np_binop f A B = Inr (grid n d (\<lambda>i j. f (A ! i ! j) (B ! i ! j)))"
    by (simp only: has_shape_eq_grid [OF assms(1), symmetric]
        has_shape_eq_grid [OF assms(2), symmetric])
  then show ?thesis by (intro exI conjI) (assumption, rule has_shape_grid)
qed

lemma np_arith_shape:
  assumes "has_shape n d A" "has_shape n d B" "0 < n" "0 < d"
  shows "\<exists>C. np_add A B = Inr C \<and> has_shape n d C"
    and "\<exists>C. np_sub A B = Inr C \<and> has_shape n d C"
    and "\<exists>C. np_mul A B = Inr C \<and> has_shape n d C"
  unfolding np_add_def np_sub_def np_mul_def
  by (rule np_binop_shape [OF assms])+

lemma np_scale_shape: "has_shape n d A \<Longrightarrow> has_shape n d (np_scale c A)"
  by (auto simp: has_shape_def np_scale_def)

lemma np_T_shape:
  assumes "has_shape m d A" "0 < m"
  shows "has_shape d m (np_T A)"
proof -
  have "np_T (grid m d (\<lambda>i j. A ! i ! j)) = grid d m (\<lambda>j k. A ! k ! j)"
    using assms(2) by (rule np_T_grid)
  then have "np_T A = grid d m (\<lambda>j k. A ! k ! j)"
    by (simp only: has_shape_eq_grid [OF assms(1), symmetric])
  then show ?thesis by simp
qed

lemma np_eye_shape: "has_shape n n (np_eye n)"
  by (auto simp: has_shape_def np_eye_def)

lemma eye_zero_last_shape: "has_shape (n + 1) (n + 1) (eye_zero_last n)"
  using np_eye_shape [of "n + 1"]
  by (auto simp: has_shape_def eye_zero_last_def dest!: set_update_subset_insert [THEN subsetD])

lemma butlast_shape: "has_shape n (m + 1) A \<Longrightarrow> has_shape n m (map butlast A)"
  by (auto simp: has_shape_def)

lemma hstack_ones_shape:
  assumes "has_shape n m A"
  shows "\<exists>C. hstack_ones A n = Inr C \<and> has_shape n (m + 1) C"
  using assms by (auto simp: hstack_ones_def has_shape_def nrows_def)

lemma eye_with_block_shape:
  assumes "has_shape n n K" "0 < n"
  shows "\<exists>C. eye_with_block n K = Inr C \<and> has_shape (n + 1) (n + 1) C"
proof -
  have "nrows K = n" "ncols K = n"
    using has_shape_dims [OF assms] .
  then show ?thesis
    by (auto simp: eye_with_block_def has_shape_def)
qed

subsection \<open>The update of the coupling\<close>

lemma solve_G_Inr:
  assumes "solve_G env X1 xt ns a b M mu nin sthr L G0 = Inr G"
  shows "mu \<noteq> 0 \<and> (\<exists>xsi. np_dot X1 L = Inr xsi
           \<and> ot_cg env a b M (1 / mu) (joint_f xsi xt ns) (joint_df xsi xt ns) (Some G0) nin sthr
               = Inr G)"
  using assms by (auto simp: solve_G_def pbind_eq_Inr split: if_splits)

text \<open>
  Claim C2 fails as stated: with a conditional-gradient solver that returns the sparse
  diagonal plan and an entropic engine that returns the dense product plan, the update
  of the coupling yields the plan of \<^verbatim>\<open>cg\<close>, not that of \<^verbatim>\<open>gcg\<close>.
\<close>

theorem solve_G_is_not_gcg:
  "solve_G toy_env [[0], [1]] [[0], [1]] 2 [1 / 2, 1 / 2] [1 / 2, 1 / 2] [[0, 2], [2, 0]] 1 10
       (1 / 10 ^ 6) [[1]] [[1 / 2, 0], [0, 1 / 2]]
     = Inr [[1 / 2, 0], [0, 1 / 2]]
   \<and> spec_solve_G toy_env [[0], [1]] [[0], [1]] 2 [1 / 2, 1 / 2] [1 / 2, 1 / 2] [[0, 2], [2, 0]] 1
       1 10 10 (1 / 10 ^ 6) [[1]] [[1 / 2, 0], [0, 1 / 2]]
     = Inr [[1 / 4, 1 / 4], [1 / 4, 1 / 4]]"
  by (simp add: solve_G_def spec_solve_G_def np_eval toy_eval product_gcg_def)

lemma solve_G_mu_zero:
  assumes "np_dot X1 L = Inr xsi"
  shows "solve_G env X1 xt ns a b M 0 nin sthr L G0 = Inl ZeroDivisionError"
  using assms by (simp add: solve_G_def)

lemma joint_f_df_residual:
  assumes sh: "has_shape n d xsi" "has_shape m d xt" "has_shape n m G"
    and pos: "0 < n" "0 < m" "0 < d"
  shows "joint_f xsi xt ns G = Inr (\<Sum>i<n. \<Sum>j<d. (fit_residual xsi xt ns G i j)\<^sup>2)"
    and "joint_df xsi xt ns G
      = Inr (grid n m (\<lambda>i k. - 2 * real ns * (\<Sum>j<d. fit_residual xsi xt ns G i j * xt ! k ! j)))"
proof -
  have m: "nrows xt = m" using sh(2) by (rule has_shape_nrows)
  show "joint_f xsi xt ns G = Inr (\<Sum>i<n. \<Sum>j<d. (fit_residual xsi xt ns G i j)\<^sup>2)"
    unfolding fit_residual_def m by (rule joint_f_closed [OF sh pos])
  show "joint_df xsi xt ns G
      = Inr (grid n m (\<lambda>i k. - 2 * real ns * (\<Sum>j<d. fit_residual xsi xt ns G i j * xt ! k ! j)))"
    unfolding fit_residual_def m by (rule joint_df_closed [OF sh pos])
qed

text \<open>
  Claim C2, amended. In both joint estimators the update of the coupling with \<open>L\<close> held
  fixed is one call of the conditional-gradient solver \<^verbatim>\<open>cg\<close>, not of the engine \<^verbatim>\<open>gcg\<close>:
  in a round that completes, \<open>mu \<noteq> 0\<close> and the new coupling is what \<^verbatim>\<open>cg\<close> returns for the
  weights \<open>a\<close> and \<open>b\<close>, the cost \<open>M\<close>, the weight \<open>1 / mu\<close> of \<open>f\<close>, the closures \<open>f\<close> and
  \<open>df\<close> with \<open>xsi = X1 L\<close> for the current \<open>L\<close>, and the previous coupling as warm start;
  with \<open>mu = 0\<close> the update raises \<^verbatim>\<open>ZeroDivisionError\<close>. On arrays whose shapes fit,
  \<open>f(\<gamma>)\<close> is the sum of the squares of the entries of \<open>xsi - n\<^sub>s \<gamma> Xt\<close> and \<open>df(\<gamma>)\<close> is
  \<open>-2 n\<^sub>s (xsi - n\<^sub>s \<gamma> Xt) Xt\<^sup>T\<close>, which is the exact gradient of \<open>f\<close>:
  \<open>f(\<gamma> + H) = f(\<gamma>) + \<langle>df(\<gamma>), H\<rangle> + n\<^sub>s\<^sup>2 |H Xt|\<^sup>2\<close> for every \<open>H\<close>. \<open>X1\<close> is \<^verbatim>\<open>xs1\<close> in the
  linear estimator and \<^verbatim>\<open>K1\<close> in the kernel estimator.
\<close>

theorem joint_coupling_update_by_cg:
  "(bcd_round (solve_G env X1 xt ns a b M mu numInnerItermax stopInnerThr) solveL loss
        numItermax stopThr s = Inr s' \<longrightarrow>
      mu \<noteq> 0
      \<and> (\<exists>xsi. np_dot X1 (var_L s) = Inr xsi
            \<and> ot_cg env a b M (1 / mu) (joint_f xsi xt ns) (joint_df xsi xt ns)
                  (Some (var_G s)) numInnerItermax stopInnerThr = Inr (var_G s')))
   \<and> (np_dot X1 L = Inr xsi \<longrightarrow>
        solve_G env X1 xt ns a b M 0 numInnerItermax stopInnerThr L G0 = Inl ZeroDivisionError)
   \<and> (has_shape n d xsi \<and> has_shape m d xt \<and> has_shape n m G \<and> 0 < n \<and> 0 < m \<and> 0 < d \<longrightarrow>
        joint_f xsi xt ns G = Inr (\<Sum>i<n. \<Sum>j<d. (fit_residual xsi xt ns G i j)\<^sup>2)
        \<and> joint_df xsi xt ns G
            = Inr (grid n m (\<lambda>i k. - 2 * real ns
                     * (\<Sum>j<d. fit_residual xsi xt ns G i j * xt ! k ! j)))
        \<and> (has_shape n m H \<longrightarrow>
             (\<exists>fG dfG. joint_f xsi xt ns G = Inr fG \<and> joint_df xsi xt ns G = Inr dfG
                \<and> joint_f xsi xt ns (mat_plus G H)
                    = Inr (fG + mat_inner n m dfG H
                           + (real ns)\<^sup>2 * (\<Sum>i<n. \<Sum>j<d. (\<Sum>k<m. H ! i ! k * xt ! k ! j)\<^sup>2)))))
   \<and> (linear_init env xs xt mu eta bias numInnerItermax stopInnerThr = Inr ini \<longrightarrow>
        (\<exists>xs1 xstxs I I0 D.
            linear_setup xs xt bias = Inr (xs1, xstxs, I, I0) \<and> ot_dist env xs xt = Inr D
          \<and> ini_solveG ini = solve_G env xs1 xt (nrows xs) (unif (nrows xs)) (unif (nrows xt))
                                (np_scale (real (nrows xs)) D) mu numInnerItermax stopInnerThr))
   \<and> (kernel_init env xs xt mu eta kerneltype sigma bias numInnerItermax stopInnerThr = Inr kini \<longrightarrow>
        (\<exists>K K1 I K0 Kreg D.
            ot_kernel env xs xs kerneltype sigma = Inr K
          \<and> kernel_setup K (nrows xs) eta bias = Inr (K1, I, K0, Kreg)
          \<and> ot_dist env xs xt = Inr D
          \<and> ini_solveG kini = solve_G env K1 xt (nrows xs) (unif (nrows xs)) (unif (nrows xt))
                                (np_scale (real (nrows xs)) D) mu numInnerItermax stopInnerThr))"
proof (intro conjI impI)
  assume r: "bcd_round (solve_G env X1 xt ns a b M mu numInnerItermax stopInnerThr) solveL loss
        numItermax stopThr s = Inr s'"
  from bcd_round_Inr [OF r]
  have "solve_G env X1 xt ns a b M mu numInnerItermax stopInnerThr (var_L s) (var_G s)
      = Inr (var_G s')" by blast
  from solve_G_Inr [OF this]
  show "mu \<noteq> 0" and "\<exists>xsi. np_dot X1 (var_L s) = Inr xsi
            \<and> ot_cg env a b M (1 / mu) (joint_f xsi xt ns) (joint_df xsi xt ns)
                  (Some (var_G s)) numInnerItermax stopInnerThr = Inr (var_G s')"
    by blast+
next
  assume "np_dot X1 L = Inr xsi"
  then show "solve_G env X1 xt ns a b M 0 numInnerItermax stopInnerThr L G0
      = Inl ZeroDivisionError"
    by (rule solve_G_mu_zero)
next
  assume h: "has_shape n d xsi \<and> has_shape m d xt \<and> has_shape n m G \<and> 0 < n \<and> 0 < m \<and> 0 < d"
  then have sh: "has_shape n d xsi" "has_shape m d xt" "has_shape n m G"
    and pos: "0 < n" "0 < m" "0 < d" by simp_all
  show "joint_f xsi xt ns G = Inr (\<Sum>i<n. \<Sum>j<d. (fit_residual xsi xt ns G i j)\<^sup>2)"
    by (rule joint_f_df_residual(1) [OF sh pos])
  show "joint_df xsi xt ns G
      = Inr (grid n m (\<lambda>i k. - 2 * real ns * (\<Sum>j<d. fit_residual xsi xt ns G i j * xt ! k ! j)))"
    by (rule joint_f_df_residual(2) [OF sh pos])
  assume H: "has_shape n m H"
  show "\<exists>fG dfG. joint_f xsi xt ns G = Inr fG \<and> joint_df xsi xt ns G = Inr dfG
          \<and> joint_f xsi xt ns (mat_plus G H)
              = Inr (fG + mat_inner n m dfG H
                     + (real ns)\<^sup>2 * (\<Sum>i<n. \<Sum>j<d. (\<Sum>k<m. H ! i ! k * xt ! k ! j)\<^sup>2))"
    by (rule joint_df_is_gradient [OF sh H pos])
next
  assume "linear_init env xs xt mu eta bias numInnerItermax stopInnerThr = Inr ini"
  from linear_init_Inr [OF this]
  show "\<exists>xs1 xstxs I I0 D.
            linear_setup xs xt bias = Inr (xs1, xstxs, I, I0) \<and> ot_dist env xs xt = Inr D
          \<and> ini_solveG ini = solve_G env xs1 xt (nrows xs) (unif (nrows xs)) (unif (nrows xt))
                                (np_scale (real (nrows xs)) D) mu numInnerItermax stopInnerThr"
    by (elim exE conjE) (intro exI conjI; assumption)
next
  assume "kernel_init env xs xt mu eta kerneltype sigma bias numInnerItermax stopInnerThr
    = Inr kini"
  from kernel_init_Inr [OF this]
  show "\<exists>K K1 I K0 Kreg D.
            ot_kernel env xs xs kerneltype sigma = Inr K
          \<and> kernel_setup K (nrows xs) eta bias = Inr (K1, I, K0, Kreg)
          \<and> ot_dist env xs xt = Inr D
          \<and> ini_solveG kini = solve_G env K1 xt (nrows xs) (unif (nrows xs)) (unif (nrows xt))
                                (np_scale (real (nrows xs)) D) mu numInnerItermax stopInnerThr"
    by (elim exE conjE) (intro exI conjI; assumption)
qed

theorem joint_coupling_update_by_cg_witness:
  "\<exists>ini kini.
      bcd_round (solve_G toy_env [[1]] [[1]] 1 [1] [1] [[0]] 1 10 (1 / 10 ^ 6))
        (linear_solve_L toy_env [[1]] [[1]] 1 [[1]] (1 / 1000) [[1]] [[1]])
        (linear_loss [[1]] [[1]] 1 [[0]] 1 (1 / 1000) False [[1]])
        3 (1 / 10 ^ 5)
        \<lparr>var_G = [[1]], var_L = [[1]], var_vloss = [0], var_it = 0, var_loop = True\<rparr>
      = Inr \<lparr>var_G = [[1]], var_L = [[1]], var_vloss = [0, 0], var_it = 1, var_loop = True\<rparr>
    \<and> (1::real) \<noteq> 0
    \<and> (\<exists>xsi. np_dot [[1]] [[1]] = Inr xsi
          \<and> ot_cg toy_env [1] [1] [[0]] (1 / 1) (joint_f xsi [[1]] 1) (joint_df xsi [[1]] 1)
               (Some [[1]]) 10 (1 / 10 ^ 6) = Inr [[1]])
    \<and> np_dot [[1]] [[1]] = Inr [[1]]
    \<and> solve_G toy_env [[1]] [[1]] 1 [1] [1] [[0]] 0 10 (1 / 10 ^ 6) [[1]] [[1]]
        = Inl ZeroDivisionError
    \<and> has_shape 2 2 [[1, 0], [0, 1 :: real]] \<and> has_shape 2 2 [[0, 0], [0, 0 :: real]]
    \<and> has_shape 2 2 [[1 / 2, 0], [0, 1 / 2 :: real]]
    \<and> joint_f [[1, 0], [0, 1]] [[1, 0], [0, 1]] 2 [[0, 0], [0, 0]] = Inr 2
    \<and> joint_df [[1, 0], [0, 1]] [[1, 0], [0, 1]] 2 [[0, 0], [0, 0]] = Inr [[- 4, 0], [0, - 4]]
    \<and> mat_plus [[0, 0], [0, 0]] [[1 / 2, 0], [0, 1 / 2]] = [[1 / 2, 0], [0, 1 / 2]]
    \<and> mat_inner 2 2 [[- 4, 0], [0, - 4]] [[1 / 2, 0], [0, 1 / 2]] = - 4
    \<and> joint_f [[1, 0], [0, 1]] [[1, 0], [0, 1]] 2 [[1 / 2, 0], [0, 1 / 2]] = Inr 0
    \<and> linear_init toy_env [[1]] [[1]] 1 (1 / 1000) False 10 (1 / 10 ^ 6) = Inr ini
    \<and> ini_solveG ini = solve_G toy_env [[1]] [[1]] 1 [1] [1] [[0]] 1 10 (1 / 10 ^ 6)
    \<and> kernel_init toy_env [[1]] [[1]] 1 (1 / 1000) ''gaussian'' 1 False 10 (1 / 10 ^ 6) = Inr kini
    \<and> ini_solveG kini = solve_G toy_env [[1]] [[1]] 1 [1] [1] [[0]] 1 10 (1 / 10 ^ 6)"
proof -
  let ?s = "\<lparr>var_G = [[1]], var_L = [[1]], var_vloss = [0], var_it = 0, var_loop = True\<rparr>"
  let ?s' = "\<lparr>var_G = [[1]], var_L = [[1]], var_vloss = [0, 0], var_it = 1, var_loop = True\<rparr>"
  let ?E = "[[1, 0], [0, 1 :: real]]" and ?Z = "[[0, 0], [0, 0 :: real]]"
  let ?H = "[[1 / 2, 0], [0, 1 / 2 :: real]]"
  have round: "bcd_round (solve_G toy_env [[1]] [[1]] 1 [1] [1] [[0]] 1 10 (1 / 10 ^ 6))
        (linear_solve_L toy_env [[1]] [[1]] 1 [[1]] (1 / 1000) [[1]] [[1]])
        (linear_loss [[1]] [[1]] 1 [[0]] 1 (1 / 1000) False [[1]])
        3 (1 / 10 ^ 5) ?s = Inr ?s'"
    by (simp add: joint_eval np_eval toy_eval Let_def eval_nat_numeral upt_rec)
  obtain ini where ini: "linear_init toy_env [[1]] [[1]] 1 (1 / 1000) False 10 (1 / 10 ^ 6) = Inr ini"
    and gi: "ini_solveG ini = solve_G toy_env [[1]] [[1]] 1 [1] [1] [[0]] 1 10 (1 / 10 ^ 6)"
    by (simp add: linear_init_def linear_setup_def linear_solve_L_def linear_loss_def np_eval
        toy_eval Let_def eval_nat_numeral upt_rec)
  obtain kini where kini: "kernel_init toy_env [[1]] [[1]] 1 (1 / 1000) ''gaussian'' 1 False 10
      (1 / 10 ^ 6) = Inr kini"
    and gk: "ini_solveG kini = solve_G toy_env [[1]] [[1]] 1 [1] [1] [[0]] 1 10 (1 / 10 ^ 6)"
    by (simp add: kernel_init_def kernel_setup_def solve_L_nobias_def kernel_loss_def np_eval
        toy_eval Let_def eval_nat_numeral upt_rec)
  from joint_coupling_update_by_cg [where env = toy_env and ?X1.0 = "[[1]]" and xt = "[[1]]"
      and ns = 1 and a = "[1]" and b = "[1]" and M = "[[0]]" and mu = 1 and numInnerItermax = 10
      and stopInnerThr = "1 / 10 ^ 6" and s = ?s and s' = ?s' and numItermax = 3
      and stopThr = "1 / 10 ^ 5"
      and solveL = "linear_solve_L toy_env [[1]] [[1]] 1 [[1]] (1 / 1000) [[1]] [[1]]"
      and loss = "linear_loss [[1]] [[1]] 1 [[0]] 1 (1 / 1000) False [[1]]"] round
  have cg: "\<exists>xsi. np_dot [[1]] [[1]] = Inr xsi
          \<and> ot_cg toy_env [1] [1] [[0]] (1 / 1) (joint_f xsi [[1]] 1) (joint_df xsi [[1]] 1)
               (Some [[1]]) 10 (1 / 10 ^ 6) = Inr [[1]]"
    by simp
  have one: "(1::real) \<noteq> 0" by simp
  have dot: "np_dot [[1]] [[1]] = Inr [[1]]"
    by (simp add: np_eval eval_nat_numeral upt_rec)
  from joint_coupling_update_by_cg [where env = toy_env and ?X1.0 = "[[1]]" and xt = "[[1]]"
      and ns = 1 and a = "[1]" and b = "[1]" and M = "[[0]]" and numInnerItermax = 10
      and stopInnerThr = "1 / 10 ^ 6" and L = "[[1]]" and xsi = "[[1]]" and ?G0.0 = "[[1]]"] dot
  have zero: "solve_G toy_env [[1]] [[1]] 1 [1] [1] [[0]] 0 10 (1 / 10 ^ 6) [[1]] [[1]]
        = Inl ZeroDivisionError"
    by simp
  have sh: "has_shape 2 2 ?E" "has_shape 2 2 ?Z" "has_shape 2 2 ?H"
    by (simp_all add: has_shape_def)
  have plus: "mat_plus ?Z ?H = ?H"
    by (simp add: mat_plus_def)
  have inner: "mat_inner 2 2 [[- 4, 0], [0, - 4]] ?H = - 4"
    by (simp add: mat_inner_def eval_nat_numeral)
  note instZ = joint_coupling_update_by_cg [where xsi = ?E and xt = ?E and ns = 2 and n = 2
      and m = 2 and d = 2 and H = ?H and G = ?Z, THEN conjunct2, THEN conjunct2, THEN conjunct1]
  note instH = joint_coupling_update_by_cg [where xsi = ?E and xt = ?E and ns = 2 and n = 2
      and m = 2 and d = 2 and H = ?H and G = ?H, THEN conjunct2, THEN conjunct2, THEN conjunct1]
  from instZ sh
  have f: "joint_f ?E ?E 2 ?Z = Inr 2"
    by (simp add: fit_residual_def nrows_def eval_nat_numeral)
  from instZ sh
  have df: "joint_df ?E ?E 2 ?Z = Inr [[- 4, 0], [0, - 4]]"
    by (simp add: fit_residual_def nrows_def grid_def eval_nat_numeral upt_rec)
  from instH sh
  have fH: "joint_f ?E ?E 2 ?H = Inr 0"
    by (simp add: fit_residual_def nrows_def eval_nat_numeral)
  show ?thesis
    by (rule exI [of _ ini], rule exI [of _ kini],
        intro conjI round one cg dot zero sh f df plus inner fH ini gi kini gk)
qed

lemma joint_bcd_solved:
  assumes run: "joint_bcd ini numItermax stopThr = Inr s"
    and init: "ini_solveL ini (ini_G ini) = Inr (ini_L ini)"
  shows "ini_solveL ini (var_G s) = Inr (var_L s)"
proof -
  have step: "ini_solveL ini (var_G s2) = Inr (var_L s2)"
    if "bcd_round (ini_solveG ini) (ini_solveL ini) (ini_loss ini) numItermax stopThr s1 = Inr s2"
    for s1 s2
    using bcd_round_Inr [OF that] by blast
  show ?thesis
    by (rule bcd_loop_invariant [where P = "\<lambda>s. ini_solveL ini (var_G s) = Inr (var_L s)",
          OF _ _ run [unfolded joint_bcd_def]])
      (simp_all add: step init)
qed

lemma linear_solve_L_Inr:
  assumes "linear_solve_L env xs1 xt ns xstxs eta I I0 G = Inr L"
  shows "\<exists>gx A xx B. np_dot G xt = Inr gx
           \<and> np_add xstxs (np_scale eta I) = Inr A
           \<and> np_dot (np_T xs1) (np_scale (real ns) gx) = Inr xx
           \<and> np_add xx (np_scale eta I0) = Inr B
           \<and> np_linalg_solve env A B = Inr L"
  using assms by (auto simp: linear_solve_L_def Let_def pbind_eq_Inr)

lemma linear_setup_Inr:
  assumes "linear_setup xs xt bias = Inr (xs1, xstxs, I, I0)"
  shows "xs1 = (if bias then map (\<lambda>r. r @ [1]) xs else xs)
         \<and> np_dot (np_T xs1) xs1 = Inr xstxs
         \<and> I = (if bias then eye_zero_last (ncols xt) else np_eye (ncols xt))
         \<and> I0 = (if bias then map butlast I else I)"
  using assms
  by (auto simp: linear_setup_def Let_def pbind_eq_Inr hstack_ones_def split: if_splits)

lemma kernel_setup_bias_Inr:
  assumes "kernel_setup K ns eta True = Inr (K1, I, K0, Kreg)"
  shows "hstack_ones K ns = Inr K1 \<and> eye_with_block ns K = Inr Kreg
         \<and> spec_K0 K1 Kreg eta = Inr K0"
  using assms by (auto simp: kernel_setup_def spec_K0_def Let_def pbind_eq_Inr)

lemma kernel_setup_nobias_Inr:
  assumes "kernel_setup K ns eta False = Inr (K1, I, K0, Kreg)"
  shows "K1 = K \<and> Kreg = K \<and> np_add K (np_scale eta (np_eye ns)) = Inr K0"
  using assms by (auto simp: kernel_setup_def Let_def pbind_eq_Inr)

lemma solve_L_bias_Inr:
  assumes "solve_L_bias env xt ns K0 K1 G = Inr L"
  shows "\<exists>gx B. np_dot G xt = Inr gx \<and> np_dot (np_T K1) (np_scale (real ns) gx) = Inr B
           \<and> np_linalg_solve env K0 B = Inr L"
  using assms by (auto simp: solve_L_bias_def Let_def pbind_eq_Inr)

lemma solve_L_nobias_Inr:
  assumes "solve_L_nobias env xt ns K0 G = Inr L"
  shows "\<exists>gx. np_dot G xt = Inr gx \<and> np_linalg_solve env K0 (np_scale (real ns) gx) = Inr L"
  using assms by (auto simp: solve_L_nobias_def Let_def pbind_eq_Inr)

lemma joint_linear_run_solved:
  assumes "joint_linear_run env xs xt mu eta bias numItermax nin sthr thr = Inr s"
  shows "\<exists>xs1 xstxs I I0. linear_setup xs xt bias = Inr (xs1, xstxs, I, I0)
           \<and> linear_solve_L env xs1 xt (nrows xs) xstxs eta I I0 (var_G s) = Inr (var_L s)"
proof -
  from assms obtain ini where
    ini: "linear_init env xs xt mu eta bias nin sthr = Inr ini"
    and run: "joint_bcd ini numItermax thr = Inr s"
    by (auto simp: joint_linear_run_def pbind_eq_Inr)
  from linear_init_Inr [OF ini] obtain xs1 xstxs I I0 where
    st: "linear_setup xs xt bias = Inr (xs1, xstxs, I, I0)"
    and L0: "linear_solve_L env xs1 xt (nrows xs) xstxs eta I I0 (ini_G ini) = Inr (ini_L ini)"
    and sL: "ini_solveL ini = linear_solve_L env xs1 xt (nrows xs) xstxs eta I I0"
    by (elim exE conjE)
  from joint_bcd_solved [OF run] L0 sL
  have "linear_solve_L env xs1 xt (nrows xs) xstxs eta I I0 (var_G s) = Inr (var_L s)" by simp
  with st show ?thesis by blast
qed

lemma joint_kernel_run_solved:
  assumes "joint_kernel_run env xs xt mu eta kerneltype sigma bias numItermax nin sthr thr = Inr s"
  shows "\<exists>K K1 I K0 Kreg. ot_kernel env xs xs kerneltype sigma = Inr K
           \<and> kernel_setup K (nrows xs) eta bias = Inr (K1, I, K0, Kreg)
           \<and> (if bias then solve_L_bias env xt (nrows xs) K0 K1
               else solve_L_nobias env xt (nrows xs) K0) (var_G s) = Inr (var_L s)"
proof -
  from assms obtain ini where
    ini: "kernel_init env xs xt mu eta kerneltype sigma bias nin sthr = Inr ini"
    and run: "joint_bcd ini numItermax thr = Inr s"
    by (auto simp: joint_kernel_run_def pbind_eq_Inr)
  from kernel_init_Inr [OF ini] obtain K K1 I K0 Kreg where
    K: "ot_kernel env xs xs kerneltype sigma = Inr K"
    and st: "kernel_setup K (nrows xs) eta bias = Inr (K1, I, K0, Kreg)"
    and L0: "(if bias then solve_L_bias env xt (nrows xs) K0 K1
               else solve_L_nobias env xt (nrows xs) K0) (ini_G ini) = Inr (ini_L ini)"
    and sL: "ini_solveL ini = (if bias then solve_L_bias env xt (nrows xs) K0 K1
                                else solve_L_nobias env xt (nrows xs) K0)"
    by (elim exE conjE)
  from joint_bcd_solved [OF run] L0 sL
  have "(if bias then solve_L_bias env xt (nrows xs) K0 K1
               else solve_L_nobias env xt (nrows xs) K0) (var_G s) = Inr (var_L s)"
    by simp
  with K st show ?thesis by blast
qed

text \<open>
  Claim C4 fails as stated. Without a bias, \<^verbatim>\<open>joint_OT_mapping_kernel\<close> sets
  \<open>K0 = K + eta * I\<close> (``proper kernel ridge'', line 544), not \<open>K1\<^sup>T K1 + eta * K_reg\<close>: for
  the Gaussian Gram matrix of the points 0 and 1 with \<open>sigma = 1\<close> and \<open>eta = 1\<close> the two
  matrices differ.
\<close>

theorem kernel_K0_nobias_differs:
  "gaussian_kernel [[0], [1]] [[0], [1]] ''gaussian'' 1
     = Inr [[1, exp (- (1 / 2))], [exp (- (1 / 2)), 1]]
   \<and> kernel_setup [[1, exp (- (1 / 2))], [exp (- (1 / 2)), 1]] 2 1 False
     = Inr ([[1, exp (- (1 / 2))], [exp (- (1 / 2)), 1]], [[1, 0], [0, 1]],
            [[2, exp (- (1 / 2))], [exp (- (1 / 2)), 2]],
            [[1, exp (- (1 / 2))], [exp (- (1 / 2)), 1]])
   \<and> spec_K0 [[1, exp (- (1 / 2))], [exp (- (1 / 2)), 1]]
        [[1, exp (- (1 / 2))], [exp (- (1 / 2)), 1]] 1
     \<noteq> Inr [[2, exp (- (1 / 2))], [exp (- (1 / 2)), 2]]"
proof -
  have pos: "0 < exp (- (1 / 2) :: real) * exp (- (1 / 2))" by simp
  have g: "gaussian_kernel [[0], [1]] [[0], [1]] ''gaussian'' 1
     = Inr [[1, exp (- (1 / 2))], [exp (- (1 / 2)), 1]]"
    by (simp add: gaussian_kernel_def sqeuclidean_def ncols_def)
  have k: "kernel_setup [[1, exp (- (1 / 2))], [exp (- (1 / 2)), 1]] 2 1 False
     = Inr ([[1, exp (- (1 / 2))], [exp (- (1 / 2)), 1]], [[1, 0], [0, 1]],
            [[2, exp (- (1 / 2))], [exp (- (1 / 2)), 2]],
            [[1, exp (- (1 / 2))], [exp (- (1 / 2)), 1]])"
    by (simp add: kernel_setup_def np_eval Let_def eval_nat_numeral upt_rec)
  have s: "spec_K0 [[1, exp (- (1 / 2))], [exp (- (1 / 2)), 1]]
        [[1, exp (- (1 / 2))], [exp (- (1 / 2)), 1]] 1
     \<noteq> Inr [[2, exp (- (1 / 2))], [exp (- (1 / 2)), 2]]"
    using pos by (simp add: spec_K0_def np_eval Let_def eval_nat_numeral upt_rec)
  from g k s show ?thesis by blast
qed

text \<open>
  Claim C4, amended. Whenever a joint estimator reaches its return statement, the \<open>L\<close> it
  returns is the answer of \<^verbatim>\<open>np.linalg.solve\<close> for the system of the returned coupling \<open>\<gamma>\<close>.
  Linear case: \<open>(X\<^sup>T X + eta I) L = X\<^sup>T (n\<^sub>s \<gamma> Xt) + eta I\<^sub>0\<close>, where without a bias \<open>X\<close> is
  \<open>xs\<close> and \<open>I = I\<^sub>0\<close> is the identity, and with a bias \<open>X\<close> is \<open>xs\<close> with a column of ones,
  \<open>I\<close> the identity with its last row zero and \<open>I\<^sub>0\<close> is \<open>I\<close> without its last column.
  Kernel case with a bias: \<open>K0 L = K1\<^sup>T (n\<^sub>s \<gamma> Xt)\<close> with \<open>K0 = K1\<^sup>T K1 + eta Kp\<close>, \<open>K1\<close> being
  \<open>K\<close> with a column of ones and \<open>Kp\<close> being \<open>K\<close> extended by a unit diagonal entry. Kernel
  case without a bias: \<open>K0 L = n\<^sub>s \<gamma> Xt\<close> with \<open>K0 = K + eta I\<close>.
\<close>

theorem joint_closed_form_L:
  "(joint_linear_run env xs xt mu eta bias numItermax numInnerItermax stopInnerThr stopThr
      = Inr s \<longrightarrow>
      (\<exists>xs1 xstxs I I0 gx A xx B.
          xs1 = (if bias then map (\<lambda>r. r @ [1]) xs else xs)
        \<and> np_dot (np_T xs1) xs1 = Inr xstxs
        \<and> I = (if bias then eye_zero_last (ncols xt) else np_eye (ncols xt))
        \<and> I0 = (if bias then map butlast I else I)
        \<and> np_dot (var_G s) xt = Inr gx
        \<and> np_add xstxs (np_scale eta I) = Inr A
        \<and> np_dot (np_T xs1) (np_scale (real (nrows xs)) gx) = Inr xx
        \<and> np_add xx (np_scale eta I0) = Inr B
        \<and> np_linalg_solve env A B = Inr (var_L s)))
   \<and> (joint_kernel_run env xs xt mu eta kerneltype sigma True numItermax numInnerItermax
        stopInnerThr stopThr = Inr sb \<longrightarrow>
      (\<exists>K K1 Kp K0 gx B.
          ot_kernel env xs xs kerneltype sigma = Inr K
        \<and> hstack_ones K (nrows xs) = Inr K1
        \<and> eye_with_block (nrows xs) K = Inr Kp
        \<and> spec_K0 K1 Kp eta = Inr K0
        \<and> np_dot (var_G sb) xt = Inr gx
        \<and> np_dot (np_T K1) (np_scale (real (nrows xs)) gx) = Inr B
        \<and> np_linalg_solve env K0 B = Inr (var_L sb)))
   \<and> (joint_kernel_run env xs xt mu eta kerneltype sigma False numItermax numInnerItermax
        stopInnerThr stopThr = Inr sn \<longrightarrow>
      (\<exists>K K0 gx.
          ot_kernel env xs xs kerneltype sigma = Inr K
        \<and> np_add K (np_scale eta (np_eye (nrows xs))) = Inr K0
        \<and> np_dot (var_G sn) xt = Inr gx
        \<and> np_linalg_solve env K0 (np_scale (real (nrows xs)) gx) = Inr (var_L sn)))"
proof (intro conjI impI)
  assume "joint_linear_run env xs xt mu eta bias numItermax numInnerItermax stopInnerThr stopThr
      = Inr s"
  from joint_linear_run_solved [OF this] obtain xs1 xstxs I I0 where
    st: "linear_setup xs xt bias = Inr (xs1, xstxs, I, I0)"
    and L: "linear_solve_L env xs1 xt (nrows xs) xstxs eta I I0 (var_G s) = Inr (var_L s)"
    by (elim exE conjE)
  from linear_solve_L_Inr [OF L] obtain gx A xx B where
    f1: "np_dot (var_G s) xt = Inr gx" and f2: "np_add xstxs (np_scale eta I) = Inr A"
    and f3: "np_dot (np_T xs1) (np_scale (real (nrows xs)) gx) = Inr xx"
    and f4: "np_add xx (np_scale eta I0) = Inr B"
    and f5: "np_linalg_solve env A B = Inr (var_L s)"
    by (elim exE conjE)
  note su = linear_setup_Inr [OF st]
  from su have s1: "xs1 = (if bias then map (\<lambda>r. r @ [1]) xs else xs)" by (rule conjunct1)
  from su have s2: "np_dot (np_T xs1) xs1 = Inr xstxs" by (elim conjE)
  from su have s3: "I = (if bias then eye_zero_last (ncols xt) else np_eye (ncols xt))"
    by (elim conjE)
  from su have s4: "I0 = (if bias then map butlast I else I)" by (elim conjE)
  show "\<exists>xs1 xstxs I I0 gx A xx B.
          xs1 = (if bias then map (\<lambda>r. r @ [1]) xs else xs)
        \<and> np_dot (np_T xs1) xs1 = Inr xstxs
        \<and> I = (if bias then eye_zero_last (ncols xt) else np_eye (ncols xt))
        \<and> I0 = (if bias then map butlast I else I)
        \<and> np_dot (var_G s) xt = Inr gx
        \<and> np_add xstxs (np_scale eta I) = Inr A
        \<and> np_dot (np_T xs1) (np_scale (real (nrows xs)) gx) = Inr xx
        \<and> np_add xx (np_scale eta I0) = Inr B
        \<and> np_linalg_solve env A B = Inr (var_L s)"
    by (rule exI [of _ xs1], rule exI [of _ xstxs], rule exI [of _ I], rule exI [of _ I0],
        rule exI [of _ gx], rule exI [of _ A], rule exI [of _ xx], rule exI [of _ B],
        intro conjI s1 s2 s3 s4 f1 f2 f3 f4 f5)
next
  assume "joint_kernel_run env xs xt mu eta kerneltype sigma True numItermax numInnerItermax
        stopInnerThr stopThr = Inr sb"
  from joint_kernel_run_solved [OF this] obtain K K1 I K0 Kreg where
    K: "ot_kernel env xs xs kerneltype sigma = Inr K"
    and st: "kernel_setup K (nrows xs) eta True = Inr (K1, I, K0, Kreg)"
    and L: "(if True then solve_L_bias env xt (nrows xs) K0 K1
             else solve_L_nobias env xt (nrows xs) K0) (var_G sb) = Inr (var_L sb)"
    by (elim exE conjE)
  from L have L': "solve_L_bias env xt (nrows xs) K0 K1 (var_G sb) = Inr (var_L sb)"
    by (simp only: if_True)
  from solve_L_bias_Inr [OF L'] obtain gx B where
    f1: "np_dot (var_G sb) xt = Inr gx"
    and f2: "np_dot (np_T K1) (np_scale (real (nrows xs)) gx) = Inr B"
    and f3: "np_linalg_solve env K0 B = Inr (var_L sb)"
    by (elim exE conjE)
  note su = kernel_setup_bias_Inr [OF st]
  from su have s1: "hstack_ones K (nrows xs) = Inr K1" by (rule conjunct1)
  from su have s2: "eye_with_block (nrows xs) K = Inr Kreg" by (elim conjE)
  from su have s3: "spec_K0 K1 Kreg eta = Inr K0" by (elim conjE)
  show "\<exists>K K1 Kp K0 gx B.
          ot_kernel env xs xs kerneltype sigma = Inr K
        \<and> hstack_ones K (nrows xs) = Inr K1
        \<and> eye_with_block (nrows xs) K = Inr Kp
        \<and> spec_K0 K1 Kp eta = Inr K0
        \<and> np_dot (var_G sb) xt = Inr gx
        \<and> np_dot (np_T K1) (np_scale (real (nrows xs)) gx) = Inr B
        \<and> np_linalg_solve env K0 B = Inr (var_L sb)"
    by (rule exI [of _ K], rule exI [of _ K1], rule exI [of _ Kreg], rule exI [of _ K0],
        rule exI [of _ gx], rule exI [of _ B], intro conjI K s1 s2 s3 f1 f2 f3)
next
  assume "joint_kernel_run env xs xt mu eta kerneltype sigma False numItermax numInnerItermax
        stopInnerThr stopThr = Inr sn"
  from joint_kernel_run_solved [OF this] obtain K K1 I K0 Kreg where
    K: "ot_kernel env xs xs kerneltype sigma = Inr K"
    and st: "kernel_setup K (nrows xs) eta False = Inr (K1, I, K0, Kreg)"
    and L: "(if False then solve_L_bias env xt (nrows xs) K0 K1
             else solve_L_nobias env xt (nrows xs) K0) (var_G sn) = Inr (var_L sn)"
    by (elim exE conjE)
  from L have L': "solve_L_nobias env xt (nrows xs) K0 (var_G sn) = Inr (var_L sn)"
    by (simp only: if_False)
  from solve_L_nobias_Inr [OF L'] obtain gx where
    f1: "np_dot (var_G sn) xt = Inr gx"
    and f2: "np_linalg_solve env K0 (np_scale (real (nrows xs)) gx) = Inr (var_L sn)"
    by (elim exE conjE)
  from kernel_setup_nobias_Inr [OF st]
  have s1: "np_add K (np_scale eta (np_eye (nrows xs))) = Inr K0" by (elim conjE)
  show "\<exists>K K0 gx.
          ot_kernel env xs xs kerneltype sigma = Inr K
        \<and> np_add K (np_scale eta (np_eye (nrows xs))) = Inr K0
        \<and> np_dot (var_G sn) xt = Inr gx
        \<and> np_linalg_solve env K0 (np_scale (real (nrows xs)) gx) = Inr (var_L sn)"
    by (rule exI [of _ K], rule exI [of _ K0], rule exI [of _ gx], intro conjI K s1 f1 f2)
qed

theorem joint_closed_form_L_witness:
  "\<exists>s sb sn.
      joint_linear_run toy_env [[0], [1], [2]] [[5], [6], [7]] 1 (1 / 1000) False 1 10
          (1 / 10 ^ 6) (1 / 10 ^ 5) = Inr s
    \<and> joint_kernel_run toy_env [[0]] [[5]] 1 (1 / 1000) ''gaussian'' 1 True 1 10
          (1 / 10 ^ 6) (1 / 10 ^ 5) = Inr sb
    \<and> joint_kernel_run toy_env [[0]] [[5]] 1 (1 / 1000) ''gaussian'' 1 False 1 10
          (1 / 10 ^ 6) (1 / 10 ^ 5) = Inr sn
    \<and> var_L s = [[20001 / 5001]]
    \<and> var_L sb = [[5000 / 2001], [5000 / 2001]]
    \<and> var_L sn = [[5000 / 1001]]
    \<and> (\<exists>A B. np_linalg_solve toy_env A B = Inr (var_L s))
    \<and> (\<exists>K0 B. np_linalg_solve toy_env K0 B = Inr (var_L sb))
    \<and> (\<exists>K0 B. np_linalg_solve toy_env K0 B = Inr (var_L sn))"
proof -
  obtain s where s: "joint_linear_run toy_env [[0], [1], [2]] [[5], [6], [7]] 1 (1 / 1000) False
      1 10 (1 / 10 ^ 6) (1 / 10 ^ 5) = Inr s" and Ls: "var_L s = [[20001 / 5001]]"
    by (simp add: joint_eval np_eval toy_eval Let_def eval_nat_numeral upt_rec bcd_loop.simps)
  obtain sb where sb: "joint_kernel_run toy_env [[0]] [[5]] 1 (1 / 1000) ''gaussian'' 1 True 1 10
          (1 / 10 ^ 6) (1 / 10 ^ 5) = Inr sb" and Lsb: "var_L sb = [[5000 / 2001], [5000 / 2001]]"
    by (simp add: kernel_eval joint_eval np_eval toy_eval Let_def eval_nat_numeral upt_rec
        bcd_loop.simps)
  obtain sn where sn: "joint_kernel_run toy_env [[0]] [[5]] 1 (1 / 1000) ''gaussian'' 1 False 1 10
          (1 / 10 ^ 6) (1 / 10 ^ 5) = Inr sn" and Lsn: "var_L sn = [[5000 / 1001]]"
    by (simp add: kernel_eval joint_eval np_eval toy_eval Let_def eval_nat_numeral upt_rec
        bcd_loop.simps)
  note inst = joint_closed_form_L [where env = toy_env and mu = 1 and eta = "1 / 1000"
      and numItermax = 1 and numInnerItermax = 10 and stopInnerThr = "1 / 10 ^ 6"
      and stopThr = "1 / 10 ^ 5" and kerneltype = "''gaussian''" and sigma = 1]
  from inst [where xs = "[[0], [1], [2]]" and xt = "[[5], [6], [7]]" and bias = False and s = s] s
  have a: "\<exists>A B. np_linalg_solve toy_env A B = Inr (var_L s)" by blast
  from inst [where xs = "[[0]]" and xt = "[[5]]" and sb = sb and sn = sn] sb sn
  have b: "\<exists>K0 B. np_linalg_solve toy_env K0 B = Inr (var_L sb)"
    and c: "\<exists>K0 B. np_linalg_solve toy_env K0 B = Inr (var_L sn)" by blast+
  from s sb sn Ls Lsb Lsn a b c show ?thesis by blast
qed

section \<open>No solver validates its arguments\<close>

lemma bcd_round_cases:
  assumes "bcd_round solveG solveL loss numItermax stopThr s = r"
  obtains (G_fails) e where "solveG (var_L s) (var_G s) = Inl e" "r = Inl e"
  | (L_fails) G e where "solveG (var_L s) (var_G s) = Inr G" "solveL G = Inl e" "r = Inl e"
  | (loss_fails) G L e where "solveG (var_L s) (var_G s) = Inr G" "solveL G = Inr L"
      "loss L G = Inl e" "r = Inl e"
  | (returns) G L v s' where "solveG (var_L s) (var_G s) = Inr G" "solveL G = Inr L"
      "loss L G = Inr v" "r = Inr s'" "var_G s' = G" "var_L s' = L"
proof (cases "solveG (var_L s) (var_G s)")
  case (Inl e)
  with assms have "r = Inl e" by (simp add: bcd_round_def Let_def)
  with Inl show ?thesis by (rule G_fails)
next
  case G: (Inr G)
  show ?thesis
  proof (cases "solveL G")
    case (Inl e)
    with assms G have "r = Inl e" by (simp add: bcd_round_def Let_def)
    with G Inl show ?thesis by (rule L_fails)
  next
    case L: (Inr L)
    show ?thesis
    proof (cases "loss L G")
      case (Inl e)
      with assms G L have "r = Inl e" by (simp add: bcd_round_def Let_def)
      with G L Inl show ?thesis by (rule loss_fails)
    next
      case (Inr v)
      with assms G L have "\<exists>s'. r = Inr s' \<and> var_G s' = G \<and> var_L s' = L"
        by (auto simp: bcd_round_def Let_def)
      then obtain s' where "r = Inr s'" "var_G s' = G" "var_L s' = L" by blast
      with G L Inr show ?thesis by (rule returns)
    qed
  qed
qed

lemma bcd_loop_failure:
  shows "(\<And>L G0 e. PL L \<Longrightarrow> PG G0 \<Longrightarrow> solveG L G0 = Inl e \<Longrightarrow> F e) \<Longrightarrow>
         (\<And>L G0 G. PL L \<Longrightarrow> PG G0 \<Longrightarrow> solveG L G0 = Inr G \<Longrightarrow> PG G) \<Longrightarrow>
         (\<And>G e. PG G \<Longrightarrow> solveL G = Inl e \<Longrightarrow> F e) \<Longrightarrow>
         (\<And>G L. PG G \<Longrightarrow> solveL G = Inr L \<Longrightarrow> PL L) \<Longrightarrow>
         (\<And>L G e. PL L \<Longrightarrow> PG G \<Longrightarrow> loss L G \<noteq> Inl e) \<Longrightarrow>
         PL (var_L s) \<Longrightarrow> PG (var_G s) \<Longrightarrow>
         bcd_loop solveG solveL loss numItermax stopThr s = Inl e \<Longrightarrow> var_loop s \<and> F e"
proof (induction solveG solveL loss numItermax stopThr s rule: bcd_loop.induct)
  case (1 solveG solveL loss numItermax stopThr s)
  note PL = "1.prems"(6) and PG = "1.prems"(7) and run = "1.prems"(8)
  show ?case
  proof (cases "var_loop s")
    case False
    then have "bcd_loop solveG solveL loss numItermax stopThr s = Inr s"
      by (rule bcd_loop_stopped)
    with run show ?thesis by simp
  next
    case True
    obtain r where r: "bcd_round solveG solveL loss numItermax stopThr s = r" by simp
    then show ?thesis
    proof (cases rule: bcd_round_cases)
      case (G_fails e')
      with run r have "e' = e" by (simp add: bcd_loop_step [OF True] True)
      with G_fails(1) "1.prems"(1) [OF PL PG] True show ?thesis by simp
    next
      case (L_fails G e')
      with run r have "e' = e" by (simp add: bcd_loop_step [OF True] True)
      moreover have "PG G" using "1.prems"(2) [OF PL PG L_fails(1)] .
      ultimately show ?thesis using L_fails(2) "1.prems"(3) True by simp
    next
      case (loss_fails G L e')
      have "PG G" using "1.prems"(2) [OF PL PG loss_fails(1)] .
      moreover from this have "PL L" using "1.prems"(4) loss_fails(2) by simp
      ultimately show ?thesis using "1.prems"(5) loss_fails(3) by blast
    next
      case (returns G L v s')
      have G: "PG G" using "1.prems"(2) [OF PL PG returns(1)] .
      then have L: "PL L" using "1.prems"(4) returns(2) by simp
      from run r returns(4) have rest: "bcd_loop solveG solveL loss numItermax stopThr s' = Inl e"
        by (simp add: bcd_loop_step [OF True] True)
      from r returns(4) have round: "bcd_round solveG solveL loss numItermax stopThr s = Inr s'"
        by simp
      have "var_loop s' \<and> F e"
        using "1.IH" [OF True round "1.prems"(1-5) _ _ rest] G L returns(5,6) by simp
      with True show ?thesis by simp
    qed
  qed
qed

lemma linear_setup_shapes:
  assumes "has_shape ns d xs" "has_shape nt d xt" "0 < ns" "0 < nt" "0 < d"
  shows "\<exists>xs1 xstxs I I0. linear_setup xs xt bias = Inr (xs1, xstxs, I, I0)
           \<and> has_shape ns (if bias then d + 1 else d) xs1
           \<and> has_shape (if bias then d + 1 else d) (if bias then d + 1 else d) xstxs
           \<and> has_shape (if bias then d + 1 else d) (if bias then d + 1 else d) I
           \<and> has_shape (if bias then d + 1 else d) d I0"
proof -
  have ns: "nrows xs = ns" and d: "ncols xt = d"
    using has_shape_dims [OF assms(1,3)] has_shape_dims [OF assms(2,4)] by simp_all
  show ?thesis
  proof (cases bias)
    case True
    from hstack_ones_shape [OF assms(1)] obtain xs1 where
      xs1: "hstack_ones xs ns = Inr xs1" "has_shape ns (d + 1) xs1" by blast
    from np_dot_shape [OF np_T_shape [OF xs1(2) assms(3)] xs1(2) _ assms(3)] obtain xstxs where
      xx: "np_dot (np_T xs1) xs1 = Inr xstxs" "has_shape (d + 1) (d + 1) xstxs" by auto
    have "linear_setup xs xt bias
        = Inr (xs1, xstxs, eye_zero_last d, map butlast (eye_zero_last d))"
      using True xs1(1) xx(1) by (simp add: linear_setup_def Let_def ns d)
    moreover have "has_shape (d + 1) d (map butlast (eye_zero_last d))"
      using eye_zero_last_shape [of d] by (rule butlast_shape)
    ultimately show ?thesis
      using True xs1(2) xx(2) eye_zero_last_shape [of d] by simp
  next
    case False
    from np_dot_shape [OF np_T_shape [OF assms(1,3)] assms(1) assms(5,3)] obtain xstxs where
      xx: "np_dot (np_T xs) xs = Inr xstxs" "has_shape d d xstxs" by auto
    have "linear_setup xs xt bias = Inr (xs, xstxs, np_eye d, np_eye d)"
      using False xx(1) by (simp add: linear_setup_def Let_def ns d)
    then show ?thesis
      using False assms(1) xx(2) np_eye_shape [of d] by simp
  qed
qed

lemma linear_solve_L_shapes:
  assumes "has_shape ns p xs1" "has_shape p p xstxs" "has_shape p p I" "has_shape p d I0"
    and "has_shape nt d xt" "has_shape ns nt G" "0 < ns" "0 < nt" "0 < d" "0 < p"
  shows "\<exists>A B. np_add xstxs (np_scale eta I) = Inr A \<and> has_shape p d B
           \<and> linear_solve_L env xs1 xt ns xstxs eta I I0 G = np_linalg_solve env A B"
proof -
  from np_dot_shape [OF assms(6,5,7,8)] obtain gx where
    gx: "np_dot G xt = Inr gx" "has_shape ns d gx" by blast
  from np_arith_shape(1) [OF assms(2) np_scale_shape [OF assms(3)] assms(10,10)] obtain A where
    A: "np_add xstxs (np_scale eta I) = Inr A" by blast
  from np_dot_shape [OF np_T_shape [OF assms(1,7)] np_scale_shape [OF gx(2)] assms(10,7)]
  obtain xx where xx: "np_dot (np_T xs1) (np_scale (real ns) gx) = Inr xx" "has_shape p d xx"
    by blast
  from np_arith_shape(1) [OF xx(2) np_scale_shape [OF assms(4)] assms(10,9)] obtain B where
    B: "np_add xx (np_scale eta I0) = Inr B" "has_shape p d B" by blast
  have "linear_solve_L env xs1 xt ns xstxs eta I I0 G = np_linalg_solve env A B"
    using gx(1) A xx(1) B(1) by (simp add: linear_solve_L_def Let_def)
  with A B(2) show ?thesis by blast
qed

lemma sel_shape: "has_shape p d D \<Longrightarrow> \<exists>q. has_shape q d (sel bias D)"
  by (auto simp: sel_def has_shape_def dest: in_set_butlastD)

lemma linear_loss_total:
  assumes "has_shape ns p xs1" "has_shape p d L" "has_shape p d I0"
    and "has_shape nt d xt" "has_shape ns nt G" "has_shape ns nt M"
    and "0 < ns" "0 < nt" "0 < d" "0 < p"
  shows "\<exists>v. linear_loss xs1 xt ns M mu eta bias I0 L G = Inr v"
proof -
  from np_dot_shape [OF assms(1,2,7,10)] obtain xl where
    xl: "np_dot xs1 L = Inr xl" "has_shape ns d xl" by blast
  from np_dot_shape [OF assms(5,4,7,8)] obtain gx where
    gx: "np_dot G xt = Inr gx" "has_shape ns d gx" by blast
  from np_arith_shape(2) [OF xl(2) np_scale_shape [OF gx(2)] assms(7,9)] obtain R where
    R: "np_sub xl (np_scale (real ns) gx) = Inr R" by blast
  from np_arith_shape(3) [OF assms(5,6,7,8)] obtain GM where
    GM: "np_mul G M = Inr GM" by blast
  from np_arith_shape(2) [OF assms(2,3,10,9)] obtain D where
    D: "np_sub L I0 = Inr D" by blast
  show ?thesis
    using xl(1) gx(1) R GM D by (simp add: linear_loss_def)
qed

lemma solve_G_shapes:
  assumes "has_shape ns p X1" "has_shape p d L" "0 < ns" "0 < p"
  shows "\<exists>xsi. np_dot X1 L = Inr xsi
           \<and> solve_G env X1 xt ns a b M mu nin sthr L G0
             = (if mu = 0 then Inl ZeroDivisionError
                else ot_cg env a b M (1 / mu) (joint_f xsi xt ns) (joint_df xsi xt ns) (Some G0)
                       nin sthr)"
proof -
  from np_dot_shape [OF assms] obtain xsi where "np_dot X1 L = Inr xsi" by blast
  then show ?thesis by (simp add: solve_G_def)
qed

lemma linear_init_unfold:
  assumes "linear_setup xs xt bias = Inr (xs1, xstxs, I, I0)"
  shows "linear_init env xs xt mu eta bias nin sthr
     = pbind (ot_dist env xs xt) (\<lambda>D.
       pbind (ot_emd env (unif (nrows xs)) (unif (nrows xt)) (np_scale (real (nrows xs)) D)) (\<lambda>G.
       pbind (linear_solve_L env xs1 xt (nrows xs) xstxs eta I I0 G) (\<lambda>L.
       pbind (linear_loss xs1 xt (nrows xs) (np_scale (real (nrows xs)) D) mu eta bias I0 L G) (\<lambda>v.
       Inr \<lparr>ini_solveG = solve_G env xs1 xt (nrows xs) (unif (nrows xs)) (unif (nrows xt))
                            (np_scale (real (nrows xs)) D) mu nin sthr,
            ini_solveL = linear_solve_L env xs1 xt (nrows xs) xstxs eta I I0,
            ini_loss = linear_loss xs1 xt (nrows xs) (np_scale (real (nrows xs)) D) mu eta bias I0,
            ini_G = G, ini_L = L, ini_v = v\<rparr>))))"
  using assms by (simp add: linear_init_def Let_def)

lemma unif_length [simp]: "length (unif n) = n"
  by (simp add: unif_def)

lemma collab_shapesD:
  assumes "collab_shapes env"
  shows "ot_dist env X Y = Inr D \<Longrightarrow> has_shape (nrows X) (nrows Y) D"
    and "ot_kernel env X Y k sg = Inr K \<Longrightarrow> has_shape (nrows X) (nrows Y) K"
    and "ot_emd env a b M = Inr G \<Longrightarrow> has_shape (length a) (length b) G"
    and "np_linalg_solve env A B = Inr X' \<Longrightarrow> has_shape (nrows B) (ncols B) X'"
    and "has_shape (length a) (length b) G0 \<Longrightarrow> ot_cg env a b M r f df (Some G0) n t = Inr G \<Longrightarrow>
         has_shape (length a) (length b) G"
proof -
  from assms have c1: "\<forall>X Y D. ot_dist env X Y = Inr D \<longrightarrow> has_shape (nrows X) (nrows Y) D"
    unfolding collab_shapes_def by (elim conjE)
  from assms have c2:
    "\<forall>X Y k s K. ot_kernel env X Y k s = Inr K \<longrightarrow> has_shape (nrows X) (nrows Y) K"
    unfolding collab_shapes_def by (elim conjE)
  from assms have c3:
    "\<forall>a b M G. ot_emd env a b M = Inr G \<longrightarrow> has_shape (length a) (length b) G"
    unfolding collab_shapes_def by (elim conjE)
  from assms have c4:
    "\<forall>A B X. np_linalg_solve env A B = Inr X \<longrightarrow> has_shape (nrows B) (ncols B) X"
    unfolding collab_shapes_def by (elim conjE)
  from assms have c5: "\<forall>a b M r f df G0 n t G.
            has_shape (length a) (length b) G0 \<and> ot_cg env a b M r f df (Some G0) n t = Inr G \<longrightarrow>
            has_shape (length a) (length b) G"
    unfolding collab_shapes_def by (elim conjE)
  show "ot_dist env X Y = Inr D \<Longrightarrow> has_shape (nrows X) (nrows Y) D"
    using c1 by blast
  show "ot_kernel env X Y k sg = Inr K \<Longrightarrow> has_shape (nrows X) (nrows Y) K"
    using c2 by blast
  show "ot_emd env a b M = Inr G \<Longrightarrow> has_shape (length a) (length b) G"
    using c3 by blast
  show "np_linalg_solve env A B = Inr X' \<Longrightarrow> has_shape (nrows B) (ncols B) X'"
    using c4 by blast
  show "has_shape (length a) (length b) G0 \<Longrightarrow> ot_cg env a b M r f df (Some G0) n t = Inr G \<Longrightarrow>
         has_shape (length a) (length b) G"
    using c5 by blast
qed

lemma joint_linear_run_failure:
  assumes sh: "has_shape ns d xs" "has_shape nt d xt" and pos: "0 < ns" "0 < nt" "0 < d"
    and env: "collab_shapes env"
    and run: "joint_linear_run env xs xt mu eta bias numItermax nin sthr thr = Inl e"
  shows "linear_failure env xs xt mu eta bias numItermax nin sthr e"
proof -
  define p where "p = (if bias then d + 1 else d)"
  have p: "0 < p" using pos(3) by (simp add: p_def)
  have ns: "nrows xs = ns" and nt: "nrows xt = nt"
    using sh by (simp_all add: has_shape_nrows)
  from linear_setup_shapes [OF sh pos, of bias] obtain xs1 xstxs I I0 where
    stp: "linear_setup xs xt bias = Inr (xs1, xstxs, I, I0)"
    and shapes: "has_shape ns p xs1" "has_shape p p xstxs" "has_shape p p I" "has_shape p d I0"
    unfolding p_def by blast
  from np_arith_shape(1) [OF shapes(2) np_scale_shape [OF shapes(3)] p p] obtain A where
    A: "np_add xstxs (np_scale eta I) = Inr A" and shA: "has_shape p p A" by blast
  have dims: "nrows A = p" "ncols xt = d"
    using has_shape_dims [OF shA p] has_shape_dims [OF sh(2) pos(2)] by simp_all
  note init = linear_init_unfold [OF stp, of env mu eta nin sthr, unfolded ns nt]
  let ?a = "unif ns" and ?b = "unif nt"
  show ?thesis
  proof (cases "ot_dist env xs xt")
    case (Inl e')
    with run have "e' = e" by (simp add: joint_linear_run_def init)
    with Inl show ?thesis by (simp add: linear_failure_def)
  next
    case D: (Inr D)
    let ?M = "np_scale (real ns) D"
    have shM: "has_shape ns nt ?M"
      using collab_shapesD(1) [OF env D] by (simp add: ns nt np_scale_shape)
    have solveL: "\<exists>B. linear_solve_L env xs1 xt ns xstxs eta I I0 G = np_linalg_solve env A B
                     \<and> has_shape p d B" if "has_shape ns nt G" for G
      using linear_solve_L_shapes [OF shapes sh(2) that pos p, of eta env] A by auto
    have solveL_fail: "\<exists>B. has_shape p d B \<and> np_linalg_solve env A B = Inl e'"
      if "has_shape ns nt G" "linear_solve_L env xs1 xt ns xstxs eta I I0 G = Inl e'" for G e'
      using solveL [OF that(1)] that(2) by auto
    have solveL_shape: "has_shape p d L"
      if "has_shape ns nt G" "linear_solve_L env xs1 xt ns xstxs eta I I0 G = Inr L" for G L
    proof -
      from solveL [OF that(1)] that(2) obtain B where
        B: "np_linalg_solve env A B = Inr L" "has_shape p d B" by auto
      from collab_shapesD(4) [OF env B(1)] has_shape_dims [OF B(2) p] show ?thesis by simp
    qed
    have loss_total: "linear_loss xs1 xt ns ?M mu eta bias I0 L G \<noteq> Inl e'"
      if "has_shape p d L" "has_shape ns nt G" for L G e'
      using linear_loss_total [OF shapes(1) that(1) shapes(4) sh(2) that(2) shM pos p,
          of mu eta bias] by auto
    have fail: "linear_failure env xs xt mu eta bias numItermax nin sthr e"
      if "ot_emd env ?a ?b ?M = Inl e \<or> (\<exists>B. has_shape p d B \<and> np_linalg_solve env A B = Inl e)
          \<or> (0 < numItermax \<and> mu = 0 \<and> e = ZeroDivisionError)
          \<or> (0 < numItermax
              \<and> (\<exists>f df G0. has_shape ns nt G0
                          \<and> ot_cg env ?a ?b ?M (1 / mu) f df (Some G0) nin sthr = Inl e))"
      unfolding linear_failure_def ns nt
      using D stp A that dims by blast
    show ?thesis
    proof (cases "ot_emd env ?a ?b ?M")
      case (Inl e')
      with run D have "e' = e" by (simp add: joint_linear_run_def init)
      with Inl show ?thesis by (intro fail) simp
    next
      case G: (Inr G)
      have shG: "has_shape ns nt G"
        using collab_shapesD(3) [OF env G] by simp
      show ?thesis
      proof (cases "linear_solve_L env xs1 xt ns xstxs eta I I0 G")
        case (Inl e')
        with run D G have "e' = e" by (simp add: joint_linear_run_def init)
        with solveL_fail [OF shG Inl] show ?thesis by (intro fail) simp
      next
        case L: (Inr L)
        have shL: "has_shape p d L" using solveL_shape [OF shG L] .
        from loss_total [OF shL shG] obtain v where
          v: "linear_loss xs1 xt ns ?M mu eta bias I0 L G = Inr v"
          by (cases "linear_loss xs1 xt ns ?M mu eta bias I0 L G") auto
        let ?sG = "solve_G env xs1 xt ns ?a ?b ?M mu nin sthr"
        let ?sL = "linear_solve_L env xs1 xt ns xstxs eta I I0"
        let ?lo = "linear_loss xs1 xt ns ?M mu eta bias I0"
        let ?s = "\<lparr>var_G = G, var_L = L, var_vloss = [v], var_it = 0,
                   var_loop = (0 < numItermax)\<rparr>"
        let ?F = "\<lambda>e. (\<exists>B. has_shape p d B \<and> np_linalg_solve env A B = Inl e)
                     \<or> (mu = 0 \<and> e = ZeroDivisionError)
                     \<or> (\<exists>f df G0. has_shape ns nt G0
                          \<and> ot_cg env ?a ?b ?M (1 / mu) f df (Some G0) nin sthr = Inl e)"
        from run D G L v have loop: "bcd_loop ?sG ?sL ?lo numItermax thr ?s = Inl e"
          by (simp add: joint_linear_run_def init joint_bcd_def del: bcd_loop.simps)
        have sG_eq: "\<exists>f df. ?sG L' G0
              = (if mu = 0 then Inl ZeroDivisionError
                 else ot_cg env ?a ?b ?M (1 / mu) f df (Some G0) nin sthr)"
          if "has_shape p d L'" for L' G0
          using solve_G_shapes [OF shapes(1) that pos(1) p, of env xt ?a ?b ?M mu nin sthr G0]
          by blast
        have sG_fail: "?F e'" if "has_shape p d L'" "?sG L' G0 = Inl e'" "has_shape ns nt G0"
          for L' G0 e'
        proof -
          from sG_eq [OF that(1), of G0] obtain f df where
            eq: "?sG L' G0 = (if mu = 0 then Inl ZeroDivisionError
                              else ot_cg env ?a ?b ?M (1 / mu) f df (Some G0) nin sthr)"
            by blast
          show ?thesis
          proof (cases "mu = 0")
            case True
            with eq that(2) have "e' = ZeroDivisionError" by simp
            with True show ?thesis by simp
          next
            case False
            with eq that(2) have "ot_cg env ?a ?b ?M (1 / mu) f df (Some G0) nin sthr = Inl e'"
              by simp
            with that(3) show ?thesis by blast
          qed
        qed
        have sG_shape: "has_shape ns nt G'"
          if "has_shape p d L'" "has_shape ns nt G0" "?sG L' G0 = Inr G'" for L' G0 G'
        proof -
          from sG_eq [OF that(1), of G0] obtain f df where
            eq: "?sG L' G0 = (if mu = 0 then Inl ZeroDivisionError
                              else ot_cg env ?a ?b ?M (1 / mu) f df (Some G0) nin sthr)"
            by blast
          with that(3) have "ot_cg env ?a ?b ?M (1 / mu) f df (Some G0) nin sthr = Inr G'"
            by (cases "mu = 0") simp_all
          from collab_shapesD(5) [OF env _ this] that(2) show ?thesis by simp
        qed
        have "var_loop ?s \<and> ?F e"
        proof (rule bcd_loop_failure [where PL = "has_shape p d" and PG = "has_shape ns nt"
              and F = ?F, OF _ _ _ _ _ _ _ loop])
          show "?F e'" if "has_shape p d L'" "has_shape ns nt G0" "?sG L' G0 = Inl e'"
            for L' G0 e'
            using sG_fail [OF that(1,3,2)] .
          show "has_shape ns nt G'"
            if "has_shape p d L'" "has_shape ns nt G0" "?sG L' G0 = Inr G'" for L' G0 G'
            using sG_shape [OF that] .
          show "?F e'" if "has_shape ns nt G'" "?sL G' = Inl e'" for G' e'
            using solveL_fail [OF that] by blast
          show "has_shape p d L'" if "has_shape ns nt G'" "?sL G' = Inr L'" for G' L'
            using solveL_shape [OF that] .
          show "?lo L' G' \<noteq> Inl e'" if "has_shape p d L'" "has_shape ns nt G'" for L' G' e'
            using loss_total [OF that] .
          show "has_shape p d (var_L ?s)" using shL by simp
          show "has_shape ns nt (var_G ?s)" using shG by simp
        qed
        then show ?thesis by (intro fail) auto
      qed
    qed
  qed
qed

lemma joint_linear_failure:
  assumes "has_shape ns d xs" "has_shape nt d xt" "0 < ns" "0 < nt" "0 < d"
    and "collab_shapes env"
    and "joint_OT_mapping_linear env xs xt mu eta bias verbose verbose2 numItermax nin sthr
           thr do_log = Inl e"
  shows "linear_failure env xs xt mu eta bias numItermax nin sthr e"
proof -
  from assms(7) have "joint_linear_run env xs xt mu eta bias numItermax nin sthr thr = Inl e"
    by (cases "joint_linear_run env xs xt mu eta bias numItermax nin sthr thr")
       (simp_all add: joint_OT_mapping_linear_def)
  from joint_linear_run_failure [OF assms(1-6) this] show ?thesis .
qed

lemma kernel_setup_shapes:
  assumes "has_shape ns ns K" "0 < ns"
  shows "\<exists>K1 I K0 Kreg. kernel_setup K ns eta bias = Inr (K1, I, K0, Kreg)
           \<and> has_shape ns (if bias then ns + 1 else ns) K1
           \<and> has_shape (if bias then ns + 1 else ns) (if bias then ns + 1 else ns) K0
           \<and> has_shape (if bias then ns + 1 else ns) (if bias then ns + 1 else ns) Kreg"
proof (cases bias)
  case True
  from hstack_ones_shape [OF assms(1)] obtain K1 where
    K1: "hstack_ones K ns = Inr K1" "has_shape ns (ns + 1) K1" by blast
  from eye_with_block_shape [OF assms] obtain Kp where
    Kp: "eye_with_block ns K = Inr Kp" "has_shape (ns + 1) (ns + 1) Kp" by blast
  from np_dot_shape [OF np_T_shape [OF K1(2) assms(2)] K1(2) _ assms(2)] obtain KK where
    KK: "np_dot (np_T K1) K1 = Inr KK" "has_shape (ns + 1) (ns + 1) KK" by auto
  from np_arith_shape(1) [OF KK(2) np_scale_shape [OF Kp(2)]] obtain K0 where
    K0: "np_add KK (np_scale eta Kp) = Inr K0" "has_shape (ns + 1) (ns + 1) K0" by auto
  have "kernel_setup K ns eta bias = Inr (K1, eye_zero_last ns, K0, Kp)"
    using True K1(1) Kp(1) KK(1) K0(1) by (simp add: kernel_setup_def Let_def)
  then show ?thesis
    using True K1(2) K0(2) Kp(2) by simp
next
  case False
  from np_arith_shape(1) [OF assms(1) np_scale_shape [OF np_eye_shape [of ns]] assms(2,2)]
  obtain K0 where K0: "np_add K (np_scale eta (np_eye ns)) = Inr K0" "has_shape ns ns K0"
    by blast
  have "kernel_setup K ns eta bias = Inr (K, np_eye ns, K0, K)"
    using False K0(1) by (simp add: kernel_setup_def Let_def)
  then show ?thesis
    using False assms(1) K0(2) by simp
qed

lemma kernel_solve_L_shapes:
  assumes "has_shape ns p K1" "has_shape nt d xt" "has_shape ns nt G"
    and "0 < ns" "0 < nt" "0 < d" "p = (if bias then ns + 1 else ns)"
  shows "\<exists>B. has_shape p d B
           \<and> (if bias then solve_L_bias env xt ns K0 K1 else solve_L_nobias env xt ns K0) G
             = np_linalg_solve env K0 B"
proof -
  from np_dot_shape [OF assms(3,2,4,5)] obtain gx where
    gx: "np_dot G xt = Inr gx" "has_shape ns d gx" by blast
  show ?thesis
  proof (cases bias)
    case True
    have p: "0 < p" using assms(7) True by simp
    from np_dot_shape [OF np_T_shape [OF assms(1,4)] np_scale_shape [OF gx(2)] p assms(4)]
    obtain B where B: "np_dot (np_T K1) (np_scale (real ns) gx) = Inr B" "has_shape p d B"
      by blast
    have "solve_L_bias env xt ns K0 K1 G = np_linalg_solve env K0 B"
      using gx(1) B(1) by (simp add: solve_L_bias_def Let_def)
    with True B(2) show ?thesis by auto
  next
    case False
    have "solve_L_nobias env xt ns K0 G = np_linalg_solve env K0 (np_scale (real ns) gx)"
      using gx(1) by (simp add: solve_L_nobias_def Let_def)
    moreover have "has_shape p d (np_scale (real ns) gx)"
      using np_scale_shape [OF gx(2)] assms(7) False by simp
    ultimately show ?thesis using False by auto
  qed
qed

lemma kernel_loss_total:
  assumes "has_shape ns p K1" "has_shape p d L" "has_shape p p Kreg"
    and "has_shape nt d xt" "has_shape ns nt G" "has_shape ns nt M"
    and "0 < ns" "0 < nt" "0 < d" "0 < p"
  shows "\<exists>v. kernel_loss K1 xt ns M mu eta Kreg L G = Inr v"
proof -
  from np_dot_shape [OF assms(1,2,7,10)] obtain kl where
    kl: "np_dot K1 L = Inr kl" "has_shape ns d kl" by blast
  from np_dot_shape [OF assms(5,4,7,8)] obtain gx where
    gx: "np_dot G xt = Inr gx" "has_shape ns d gx" by blast
  from np_arith_shape(2) [OF kl(2) np_scale_shape [OF gx(2)] assms(7,9)] obtain R where
    R: "np_sub kl (np_scale (real ns) gx) = Inr R" by blast
  from np_arith_shape(3) [OF assms(5,6,7,8)] obtain GM where
    GM: "np_mul G M = Inr GM" by blast
  from np_dot_shape [OF np_T_shape [OF assms(2,10)] assms(3,9,10)] obtain LK where
    LK: "np_dot (np_T L) Kreg = Inr LK" "has_shape d p LK" by blast
  from np_dot_shape [OF LK(2) assms(2,9,10)] obtain LKL where
    LKL: "np_dot LK L = Inr LKL" by blast
  show ?thesis
    using kl(1) gx(1) R GM LK(1) LKL by (simp add: kernel_loss_def)
qed

lemma kernel_init_unfold:
  assumes "ot_kernel env xs xs kerneltype sigma = Inr K"
    and "kernel_setup K (nrows xs) eta bias = Inr (K1, I, K0, Kreg)"
  shows "kernel_init env xs xt mu eta kerneltype sigma bias nin sthr
     = pbind (ot_dist env xs xt) (\<lambda>D.
       pbind (ot_emd env (unif (nrows xs)) (unif (nrows xt)) (np_scale (real (nrows xs)) D)) (\<lambda>G.
       pbind ((if bias then solve_L_bias env xt (nrows xs) K0 K1
               else solve_L_nobias env xt (nrows xs) K0) G) (\<lambda>L.
       pbind (kernel_loss K1 xt (nrows xs) (np_scale (real (nrows xs)) D) mu eta Kreg L G) (\<lambda>v.
       Inr \<lparr>ini_solveG = solve_G env K1 xt (nrows xs) (unif (nrows xs)) (unif (nrows xt))
                            (np_scale (real (nrows xs)) D) mu nin sthr,
            ini_solveL = (if bias then solve_L_bias env xt (nrows xs) K0 K1
                          else solve_L_nobias env xt (nrows xs) K0),
            ini_loss = kernel_loss K1 xt (nrows xs) (np_scale (real (nrows xs)) D) mu eta Kreg,
            ini_G = G, ini_L = L, ini_v = v\<rparr>))))"
  using assms by (simp add: kernel_init_def Let_def)

lemma joint_kernel_run_failure:
  assumes sh: "has_shape ns dx xs" "has_shape nt d xt" and pos: "0 < ns" "0 < nt" "0 < d"
    and env: "collab_shapes env"
    and run: "joint_kernel_run env xs xt mu eta kerneltype sigma bias numItermax nin sthr thr
                = Inl e"
  shows "kernel_failure env xs xt mu eta kerneltype sigma bias numItermax nin sthr e"
proof (cases "ot_kernel env xs xs kerneltype sigma")
  case (Inl e')
  with run have "e' = e" by (simp add: joint_kernel_run_def kernel_init_def Let_def)
  with Inl show ?thesis by (simp add: kernel_failure_def)
next
  case K: (Inr K)
  define p where "p = (if bias then ns + 1 else ns)"
  have p: "0 < p" using pos(1) by (simp add: p_def)
  have ns: "nrows xs = ns" and nt: "nrows xt = nt"
    using sh by (simp_all add: has_shape_nrows)
  have shK: "has_shape ns ns K"
    using collab_shapesD(2) [OF env K] by (simp add: ns)
  from kernel_setup_shapes [OF shK pos(1), of eta bias] obtain K1 I K0 Kreg where
    stp: "kernel_setup K ns eta bias = Inr (K1, I, K0, Kreg)"
    and shapes: "has_shape ns p K1" "has_shape p p K0" "has_shape p p Kreg"
    unfolding p_def by blast
  have dims: "nrows K0 = p" "ncols xt = d"
    using has_shape_dims [OF shapes(2) p] has_shape_dims [OF sh(2) pos(2)] by simp_all
  note init = kernel_init_unfold [OF K stp [folded ns], of xt mu nin sthr, unfolded ns nt]
  let ?a = "unif ns" and ?b = "unif nt"
  let ?sL = "if bias then solve_L_bias env xt ns K0 K1 else solve_L_nobias env xt ns K0"
  have fail0: "kernel_failure env xs xt mu eta kerneltype sigma bias numItermax nin sthr e"
    if "ot_dist env xs xt = Inl e
        \<or> (\<exists>D. ot_dist env xs xt = Inr D
              \<and> (ot_emd env ?a ?b (np_scale (real ns) D) = Inl e
                 \<or> (\<exists>B. has_shape p d B \<and> np_linalg_solve env K0 B = Inl e)
                 \<or> (0 < numItermax \<and> mu = 0 \<and> e = ZeroDivisionError)
                 \<or> (0 < numItermax
                     \<and> (\<exists>f df G0. has_shape ns nt G0
                            \<and> ot_cg env ?a ?b (np_scale (real ns) D) (1 / mu) f df (Some G0)
                                  nin sthr = Inl e))))"
    unfolding kernel_failure_def ns nt
    using K stp that dims by blast
  show ?thesis
  proof (cases "ot_dist env xs xt")
    case (Inl e')
    with run have "e' = e" by (simp add: joint_kernel_run_def init)
    with Inl show ?thesis by (intro fail0) simp
  next
    case D: (Inr D)
    let ?M = "np_scale (real ns) D"
    have shM: "has_shape ns nt ?M"
      using collab_shapesD(1) [OF env D] by (simp add: ns nt np_scale_shape)
    have solveL: "\<exists>B. ?sL G = np_linalg_solve env K0 B \<and> has_shape p d B"
      if "has_shape ns nt G" for G
      using kernel_solve_L_shapes [OF shapes(1) sh(2) that pos p_def, of env K0] by auto
    have solveL_fail: "\<exists>B. has_shape p d B \<and> np_linalg_solve env K0 B = Inl e'"
      if "has_shape ns nt G" "?sL G = Inl e'" for G e'
      using solveL [OF that(1)] that(2) by auto
    have solveL_shape: "has_shape p d L"
      if "has_shape ns nt G" "?sL G = Inr L" for G L
    proof -
      from solveL [OF that(1)] that(2) obtain B where
        B: "np_linalg_solve env K0 B = Inr L" "has_shape p d B" by auto
      from collab_shapesD(4) [OF env B(1)] has_shape_dims [OF B(2) p] show ?thesis by simp
    qed
    have loss_total: "kernel_loss K1 xt ns ?M mu eta Kreg L G \<noteq> Inl e'"
      if "has_shape p d L" "has_shape ns nt G" for L G e'
      using kernel_loss_total [OF shapes(1) that(1) shapes(3) sh(2) that(2) shM pos p,
          of mu eta] by auto
    have fail: "kernel_failure env xs xt mu eta kerneltype sigma bias numItermax nin sthr e"
      if "ot_emd env ?a ?b ?M = Inl e \<or> (\<exists>B. has_shape p d B \<and> np_linalg_solve env K0 B = Inl e)
          \<or> (0 < numItermax \<and> mu = 0 \<and> e = ZeroDivisionError)
          \<or> (0 < numItermax
              \<and> (\<exists>f df G0. has_shape ns nt G0
                          \<and> ot_cg env ?a ?b ?M (1 / mu) f df (Some G0) nin sthr = Inl e))"
      using D that by (intro fail0) blast
    show ?thesis
    proof (cases "ot_emd env ?a ?b ?M")
      case (Inl e')
      with run D have "e' = e" by (simp add: joint_kernel_run_def init)
      with Inl show ?thesis by (intro fail) simp
    next
      case G: (Inr G)
      have shG: "has_shape ns nt G"
        using collab_shapesD(3) [OF env G] by simp
      show ?thesis
      proof (cases "?sL G")
        case (Inl e')
        with run D G have "e' = e" by (simp add: joint_kernel_run_def init)
        with solveL_fail [OF shG Inl] show ?thesis by (intro fail) simp
      next
        case L: (Inr L)
        have shL: "has_shape p d L" using solveL_shape [OF shG L] .
        from loss_total [OF shL shG] obtain v where
          v: "kernel_loss K1 xt ns ?M mu eta Kreg L G = Inr v"
          by (cases "kernel_loss K1 xt ns ?M mu eta Kreg L G") auto
        let ?sG = "solve_G env K1 xt ns ?a ?b ?M mu nin sthr"
        let ?lo = "kernel_loss K1 xt ns ?M mu eta Kreg"
        let ?s = "\<lparr>var_G = G, var_L = L, var_vloss = [v], var_it = 0,
                   var_loop = (0 < numItermax)\<rparr>"
        let ?F = "\<lambda>e. (\<exists>B. has_shape p d B \<and> np_linalg_solve env K0 B = Inl e)
                     \<or> (mu = 0 \<and> e = ZeroDivisionError)
                     \<or> (\<exists>f df G0. has_shape ns nt G0
                          \<and> ot_cg env ?a ?b ?M (1 / mu) f df (Some G0) nin sthr = Inl e)"
        from run D G L v have loop: "bcd_loop ?sG ?sL ?lo numItermax thr ?s = Inl e"
          by (simp add: joint_kernel_run_def init joint_bcd_def del: bcd_loop.simps)
        have sG_eq: "\<exists>f df. ?sG L' G0
              = (if mu = 0 then Inl ZeroDivisionError
                 else ot_cg env ?a ?b ?M (1 / mu) f df (Some G0) nin sthr)"
          if "has_shape p d L'" for L' G0
          using solve_G_shapes [OF shapes(1) that pos(1) p, of env xt ?a ?b ?M mu nin sthr G0]
          by blast
        have sG_fail: "?F e'" if "has_shape p d L'" "?sG L' G0 = Inl e'" "has_shape ns nt G0"
          for L' G0 e'
        proof -
          from sG_eq [OF that(1), of G0] obtain f df where
            eq: "?sG L' G0 = (if mu = 0 then Inl ZeroDivisionError
                              else ot_cg env ?a ?b ?M (1 / mu) f df (Some G0) nin sthr)"
            by blast
          show ?thesis
          proof (cases "mu = 0")
            case True
            with eq that(2) have "e' = ZeroDivisionError" by simp
            with True show ?thesis by simp
          next
            case False
            with eq that(2) have "ot_cg env ?a ?b ?M (1 / mu) f df (Some G0) nin sthr = Inl e'"
              by simp
            with that(3) show ?thesis by blast
          qed
        qed
        have sG_shape: "has_shape ns nt G'"
          if "has_shape p d L'" "has_shape ns nt G0" "?sG L' G0 = Inr G'" for L' G0 G'
        proof -
          from sG_eq [OF that(1), of G0] obtain f df where
            eq: "?sG L' G0 = (if mu = 0 then Inl ZeroDivisionError
                              else ot_cg env ?a ?b ?M (1 / mu) f df (Some G0) nin sthr)"
            by blast
          with that(3) have "ot_cg env ?a ?b ?M (1 / mu) f df (Some G0) nin sthr = Inr G'"
            by (cases "mu = 0") simp_all
          from collab_shapesD(5) [OF env _ this] that(2) show ?thesis by simp
        qed
        have "var_loop ?s \<and> ?F e"
        proof (rule bcd_loop_failure [where PL = "has_shape p d" and PG = "has_shape ns nt"
              and F = ?F, OF _ _ _ _ _ _ _ loop])
          show "?F e'" if "has_shape p d L'" "has_shape ns nt G0" "?sG L' G0 = Inl e'"
            for L' G0 e'
            using sG_fail [OF that(1,3,2)] .
          show "has_shape ns nt G'"
            if "has_shape p d L'" "has_shape ns nt G0" "?sG L' G0 = Inr G'" for L' G0 G'
            using sG_shape [OF that] .
          show "?F e'" if "has_shape ns nt G'" "?sL G' = Inl e'" for G' e'
            using solveL_fail [OF that] by blast
          show "has_shape p d L'" if "has_shape ns nt G'" "?sL G' = Inr L'" for G' L'
            using solveL_shape [OF that] .
          show "?lo L' G' \<noteq> Inl e'" if "has_shape p d L'" "has_shape ns nt G'" for L' G' e'
            using loss_total [OF that] .
          show "has_shape p d (var_L ?s)" using shL by simp
          show "has_shape ns nt (var_G ?s)" using shG by simp
        qed
        then show ?thesis by (intro fail) auto
      qed
    qed
  qed
qed

lemma joint_kernel_failure:
  assumes "has_shape ns dx xs" "has_shape nt d xt" "0 < ns" "0 < nt" "0 < d"
    and "collab_shapes env"
    and "joint_OT_mapping_kernel env xs xt mu eta kerneltype sigma bias verbose verbose2
           numItermax nin sthr thr do_log = Inl e"
  shows "kernel_failure env xs xt mu eta kerneltype sigma bias numItermax nin sthr e"
proof -
  from assms(7) have
    "joint_kernel_run env xs xt mu eta kerneltype sigma bias numItermax nin sthr thr = Inl e"
    by (cases "joint_kernel_run env xs xt mu eta kerneltype sigma bias numItermax nin sthr thr")
       (simp_all add: joint_OT_mapping_kernel_def)
  from joint_kernel_run_failure [OF assms(1-6) this] show ?thesis .
qed

lemma small_solve_shape:
  assumes "small_solve A B = Inr X"
  shows "has_shape (nrows B) (ncols B) X"
  using assms
  by (auto simp: small_solve_def has_shape_def nrows_def ncols_def
      split: list.splits if_splits)

lemma toy_env_shapes: "collab_shapes toy_env"
proof -
  have d: "has_shape (nrows X) (nrows Y) D" if "sqeuclidean X Y = Inr D" for X Y D
    using that by (auto simp: sqeuclidean_def has_shape_def nrows_def split: if_splits)
  have k: "has_shape (nrows X) (nrows Y) K" if "gaussian_kernel X Y m sg = Inr K" for X Y m sg K
    using that
    by (auto simp: gaussian_kernel_def sqeuclidean_def has_shape_def nrows_def pbind_def
        split: if_splits)
  have e: "has_shape (length a) (length b) G" if "diagonal_plan a b M = Inr G" for a b M G
    using that by (auto simp: diagonal_plan_def has_shape_def)
  have c: "has_shape (length a) (length b) G"
    if "has_shape (length a) (length b) G0" "warm_start_cg a b M r f df (Some G0) n t = Inr G"
    for a b M r f df G0 n t G
    using that by (simp add: warm_start_cg_def)
  show ?thesis
    unfolding collab_shapes_def toy_env_def
    using d k e small_solve_shape by (simp add: warm_start_cg_def)
qed




end
